(* ===== verification/Prelude.thy ===== *)
theory Prelude
  imports Main "HOL-Library.Word" "HOL-Library.AList" "HOL-Library.Char_ord"
    "HOL-Library.List_Lexorder" "HOL-Library.Sublist" "HOL-Library.Multiset"
begin

text \<open>
  What every component shares: the collections of rewrite rules that carry the component
  proofs, Go's errors and integers, Go's maps (as association lists where the source ranges
  over them, as HOL maps where it only reads and writes keys) and the lemmas on them.

  A Go \<^verbatim>\<open>error\<close> that is not nil is a value of \<open>goerror\<close>: its text and the API reason that
  \<^verbatim>\<open>apierrors.IsNotFound\<close> and \<^verbatim>\<open>apierrors.IsConflict\<close> read. \<^verbatim>\<open>fmt.Errorf\<close> with \<^verbatim>\<open>%w\<close>
  keeps the reason of the error it wraps (those predicates look through wrapping), with \<^verbatim>\<open>%v\<close>
  or \<^verbatim>\<open>%s\<close> it does not.
\<close>

named_theorems go_defs \<open>definitions a component proof unfolds as a matter of course\<close>
named_theorems go_split \<open>the case splits of results and options\<close>

type_synonym int32 = "32 word"
type_synonym int64 = "64 word"

subsection \<open>Errors\<close>

datatype err_reason = NotFound | Conflict | OtherReason

datatype goerror = GoError (err_reason: err_reason) (err_msg: string)

definition is_not_found :: "goerror \<Rightarrow> bool" where
  "is_not_found e \<longleftrightarrow> err_reason e = NotFound"

definition is_conflict :: "goerror \<Rightarrow> bool" where
  "is_conflict e \<longleftrightarrow> err_reason e = Conflict"

text \<open>\<^verbatim>\<open>fmt.Errorf\<close> without \<^verbatim>\<open>%w\<close>, and with a final \<^verbatim>\<open>%w\<close>.\<close>

definition errorf :: "string \<Rightarrow> goerror" where
  "errorf msg = GoError OtherReason msg"

definition wrapf :: "string \<Rightarrow> goerror \<Rightarrow> goerror" where
  "wrapf pre e = GoError (err_reason e) (pre @ err_msg e)"

lemma errorf_simps [simp]:
  "err_msg (errorf m) = m" "\<not> is_conflict (errorf m)" "\<not> is_not_found (errorf m)"
  by (simp_all add: errorf_def is_conflict_def is_not_found_def)

lemma wrapf_simps [simp]:
  "err_msg (wrapf m e) = m @ err_msg e"
  "is_conflict (wrapf m e) = is_conflict e" "is_not_found (wrapf m e) = is_not_found e"
  by (simp_all add: wrapf_def is_conflict_def is_not_found_def)

lemma not_found_not_conflict: "is_not_found e \<Longrightarrow> \<not> is_conflict e"
  by (simp add: is_conflict_def is_not_found_def)

text \<open>\<^verbatim>\<open>if first == nil { first = e }\<close>: the first error wins.\<close>

definition first_error :: "goerror option \<Rightarrow> goerror \<Rightarrow> goerror option" where
  "first_error fe e = (case fe of None \<Rightarrow> Some e | Some f \<Rightarrow> Some f)"

lemma first_error_simps [simp]:
  "first_error None e = Some e" "first_error (Some f) e = Some f"
  by (simp_all add: first_error_def)

lemma first_error_not_None [simp]: "first_error fe e \<noteq> None" "None \<noteq> first_error fe e"
  by (auto simp: first_error_def split: option.splits)

subsection \<open>Pointers to optional values\<close>

text \<open>A nil-able pointer the source only reads through is an \<open>option\<close>.\<close>

definition value_or :: "'a option \<Rightarrow> 'a \<Rightarrow> 'a" where
  "value_or p d = (case p of None \<Rightarrow> d | Some x \<Rightarrow> x)"

lemma value_or_simps [simp]: "value_or None d = d" "value_or (Some x) d = x"
  by (simp_all add: value_or_def)

declare option.splits [go_split] sum.splits [go_split] prod.splits [go_split] if_splits [go_split]

subsection \<open>Maps the source ranges over\<close>

text \<open>
  \<open>amap\<close> is an association list whose keys are distinct. Go's \<^verbatim>\<open>range\<close> visits each key once
  in an order that is not specified: a loop that depends on the order takes it as an argument,
  a function from the list of keys to the list in which they are visited, of which the Go
  language promises \<open>permutes\<close>.
\<close>

type_synonym ('k, 'v) amap = "('k \<times> 'v) list"

definition amap_ok :: "('k, 'v) amap \<Rightarrow> bool" where
  "amap_ok m \<longleftrightarrow> distinct (map fst m)"

definition permutes :: "('k list \<Rightarrow> 'k list) \<Rightarrow> bool" where
  "permutes ord \<longleftrightarrow> (\<forall>ks. mset (ord ks) = mset ks)"

definition amap_map :: "('v \<Rightarrow> 'v) \<Rightarrow> ('k, 'v) amap \<Rightarrow> ('k, 'v) amap" where
  "amap_map f m = map (\<lambda>(k, v). (k, f v)) m"

lemma permutes_set: "permutes ord \<Longrightarrow> set (ord ks) = set ks"
  by (metis permutes_def set_mset_mset)

lemma permutes_distinct: "permutes ord \<Longrightarrow> distinct (ord ks) = distinct ks"
  by (metis permutes_def mset_eq_imp_distinct_iff)

lemma permutes_id [simp]: "permutes (\<lambda>ks. ks)"
  by (simp add: permutes_def)

lemma permutes_rev: "permutes rev"
  by (simp add: permutes_def)

lemma amap_map_keys [simp]: "map fst (amap_map f m) = map fst m"
  by (induction m) (auto simp: amap_map_def)

lemma amap_map_ok [simp]: "amap_ok (amap_map f m) = amap_ok m"
  by (simp add: amap_ok_def)

lemma map_of_amap_map: "map_of (amap_map f m) k = map_option f (map_of m k)"
  by (induction m) (auto simp: amap_map_def)

lemma amap_ok_update: "amap_ok m \<Longrightarrow> amap_ok (AList.update k v m)"
  by (simp add: amap_ok_def distinct_update)

lemma dom_map_of_keys: "dom (map_of m) = set (map fst m)"
  by (simp add: dom_map_of_conv_image_fst)

lemma amap_ok_Nil [simp]: "amap_ok []"
  by (simp add: amap_ok_def)

end
