(* ===== verification/GoStrings.thy ===== *)
theory GoStrings
  imports Prelude
begin

text \<open>
  The functions of Go's \<^verbatim>\<open>strings\<close>, \<^verbatim>\<open>strconv\<close>, \<^verbatim>\<open>fmt\<close> and \<^verbatim>\<open>path\<close> packages that the operator
  uses. A Go string is a sequence of bytes, so a \<open>char\<close> is a byte and \<open>length\<close> counts bytes as
  \<^verbatim>\<open>len\<close> does. \<open>to_lower\<close> lowers the ASCII letters, which is \<^verbatim>\<open>strings.ToLower\<close> on ASCII text:
  component names are ASCII by the pattern in the CRD, and of component types, protocols and
  account names the model covers the ASCII ones.
\<close>

subsection \<open>Substrings, prefixes, suffixes\<close>

definition str_contains :: "string \<Rightarrow> string \<Rightarrow> bool" where
  "str_contains s sub \<longleftrightarrow> sublist sub s"

lemma str_contains_code [code]:
  "str_contains s sub \<longleftrightarrow> (prefix sub s \<or> (case s of [] \<Rightarrow> False | _ # t \<Rightarrow> str_contains t sub))"
  by (cases s) (auto simp: str_contains_def sublist_Cons_right)

lemma str_contains_Nil [simp]: "str_contains [] sub = (sub = [])"
  by (simp add: str_contains_def)

lemma str_contains_Cons [simp]:
  "str_contains (c # s) sub = (prefix sub (c # s) \<or> str_contains s sub)"
  by (simp add: str_contains_def sublist_Cons_right)

lemma str_contains_append1: "str_contains s sub \<Longrightarrow> str_contains (s @ t) sub"
  unfolding str_contains_def sublist_def by (metis append.assoc)

lemma str_contains_append2: "str_contains t sub \<Longrightarrow> str_contains (s @ t) sub"
  unfolding str_contains_def sublist_def by (metis append.assoc)

definition trim_prefix :: "string \<Rightarrow> string \<Rightarrow> string" where
  "trim_prefix s p = (if prefix p s then drop (length p) s else s)"

definition has_suffix :: "string \<Rightarrow> string \<Rightarrow> bool" where
  "has_suffix s suf \<longleftrightarrow> suffix suf s"

subsection \<open>Case, replacement, trimming\<close>

definition upper_letters :: string where
  "upper_letters = ''ABCDEFGHIJKLMNOPQRSTUVWXYZ''"

definition lower_letters :: string where
  "lower_letters = ''abcdefghijklmnopqrstuvwxyz''"

definition digit_chars :: string where
  "digit_chars = ''0123456789''"

definition lower_char :: "char \<Rightarrow> char" where
  "lower_char c = (case map_of (zip upper_letters lower_letters) c of None \<Rightarrow> c | Some d \<Rightarrow> d)"

definition to_lower :: "string \<Rightarrow> string" where
  "to_lower s = map lower_char s"

text \<open>\<^verbatim>\<open>strings.ReplaceAll\<close> of one byte by another.\<close>

definition replace_char :: "char \<Rightarrow> char \<Rightarrow> string \<Rightarrow> string" where
  "replace_char a b s = map (\<lambda>c. if c = a then b else c) s"

definition trim_right :: "char \<Rightarrow> string \<Rightarrow> string" where
  "trim_right c s = rev (dropWhile (\<lambda>x. x = c) (rev s))"

lemma length_to_lower [simp]: "length (to_lower s) = length s"
  by (simp add: to_lower_def)

lemma length_replace_char [simp]: "length (replace_char a b s) = length s"
  by (simp add: replace_char_def)

lemma replace_char_absent: "a \<noteq> b \<Longrightarrow> a \<notin> set (replace_char a b s)"
  by (auto simp: replace_char_def)

lemma length_trim_right: "length (trim_right c s) \<le> length s"
  by (simp add: trim_right_def) (metis length_dropWhile_le length_rev)

lemma trim_right_last: "trim_right c s \<noteq> [] \<Longrightarrow> last (trim_right c s) \<noteq> c"
  using hd_dropWhile [of "\<lambda>x. x = c" "rev s"] by (auto simp: trim_right_def last_rev)

lemma trim_right_id: "s = [] \<or> last s \<noteq> c \<Longrightarrow> trim_right c s = s"
  by (cases s rule: rev_cases) (auto simp: trim_right_def)

lemma set_trim_right: "set (trim_right c s) \<subseteq> set s"
  by (auto simp: trim_right_def dest: set_dropWhileD)

lemma lower_char_in_lower: "c \<in> set upper_letters \<Longrightarrow> lower_char c \<in> set lower_letters"
  by (auto simp: lower_char_def upper_letters_def lower_letters_def)

lemma lower_char_other: "c \<notin> set upper_letters \<Longrightarrow> lower_char c = c"
  by (auto simp: lower_char_def upper_letters_def lower_letters_def split: option.splits
      dest!: map_of_SomeD)

lemma lower_char_not_upper: "lower_char c \<notin> set upper_letters"
proof (cases "c \<in> set upper_letters")
  case True
  then show ?thesis
    by (auto simp: lower_char_def upper_letters_def lower_letters_def)
qed (simp add: lower_char_other)

lemma lower_char_idem [simp]: "lower_char (lower_char c) = lower_char c"
  by (rule lower_char_other [OF lower_char_not_upper])

lemma to_lower_idem [simp]: "to_lower (to_lower s) = to_lower s"
  by (simp add: to_lower_def)

subsection \<open>Decimal numbers\<close>

text \<open>\<open>itoa\<close> is the \<^verbatim>\<open>%d\<close> of an integer.\<close>

definition digit :: "nat \<Rightarrow> char" where
  "digit d = digit_chars ! d"

fun nat_str :: "nat \<Rightarrow> string" where
  "nat_str n = (if n < 10 then [digit n] else nat_str (n div 10) @ [digit (n mod 10)])"

declare nat_str.simps [simp del]

definition itoa :: "int \<Rightarrow> string" where
  "itoa i = (if i < 0 then CHR ''-'' # nat_str (nat (- i)) else nat_str (nat i))"

definition digit_value :: "char \<Rightarrow> nat option" where
  "digit_value c = map_of (zip digit_chars [0..<10]) c"

text \<open>The digits of a string, most significant first, or \<open>None\<close> at the first other byte.\<close>

fun parse_digits :: "nat \<Rightarrow> string \<Rightarrow> nat option" where
  "parse_digits acc [] = Some acc"
| "parse_digits acc (c # cs) =
     (case digit_value c of None \<Rightarrow> None | Some d \<Rightarrow> parse_digits (10 * acc + d) cs)"

text \<open>
  \<^verbatim>\<open>strconv.Atoi\<close>: an optional sign, then at least one digit and nothing else, within the range
  of a 64-bit \<^verbatim>\<open>int\<close>.
\<close>

definition int_min :: int where "int_min = - (2 ^ 63)"

definition int_max :: int where "int_max = 2 ^ 63 - 1"

definition signed_digits :: "string \<Rightarrow> int option" where
  "signed_digits s =
     (case s of
        [] \<Rightarrow> None
      | c # cs \<Rightarrow>
          if c = CHR ''-'' then
            (if cs = [] then None else map_option (\<lambda>n. - int n) (parse_digits 0 cs))
          else if c = CHR ''+'' then
            (if cs = [] then None else map_option int (parse_digits 0 cs))
          else map_option int (parse_digits 0 s))"

definition atoi :: "string \<Rightarrow> goerror + int" where
  "atoi s =
     (case signed_digits s of
        None \<Rightarrow> Inl (errorf (''strconv.Atoi: parsing '' @ [CHR 0x22] @ s @ [CHR 0x22] @ '': invalid syntax''))
      | Some i \<Rightarrow>
          if int_min \<le> i \<and> i \<le> int_max then Inr i
          else Inl (errorf (''strconv.Atoi: parsing '' @ [CHR 0x22] @ s @ [CHR 0x22] @ '': value out of range'')))"

lemma digit_cases: "d < 10 \<Longrightarrow> d \<in> {0, 1, 2, 3, 4, 5, 6, 7, 8, 9::nat}"
  by auto

lemma digit_value_digit: "d < 10 \<Longrightarrow> digit_value (digit d) = Some d"
  by (drule digit_cases) (auto simp: digit_value_def digit_def digit_chars_def upt_rec)

lemma digit_in: "d < 10 \<Longrightarrow> digit d \<in> set digit_chars"
  by (drule digit_cases) (auto simp: digit_def digit_chars_def)

lemma digit_inj: "d < 10 \<Longrightarrow> e < 10 \<Longrightarrow> digit d = digit e \<Longrightarrow> d = e"
  by (metis digit_value_digit option.inject)

lemma parse_digits_append:
  "parse_digits acc (s @ t) =
     (case parse_digits acc s of None \<Rightarrow> None | Some a \<Rightarrow> parse_digits a t)"
  by (induction s arbitrary: acc) (auto split: option.splits)

lemma parse_nat_str: "parse_digits 0 (nat_str n) = Some n"
proof (induction n rule: nat_str.induct)
  case (1 n)
  show ?case
  proof (cases "n < 10")
    case True
    then show ?thesis by (simp add: nat_str.simps digit_value_digit)
  next
    case False
    then have "parse_digits 0 (nat_str (n div 10)) = Some (n div 10)" by (rule "1")
    with False show ?thesis
      by (simp add: nat_str.simps [of n] parse_digits_append digit_value_digit)
  qed
qed

lemma nat_str_inj: "nat_str m = nat_str n \<Longrightarrow> m = n"
  by (metis parse_nat_str option.inject)

lemma nat_str_digits: "set (nat_str n) \<subseteq> set digit_chars"
proof (induction n rule: nat_str.induct)
  case (1 n)
  then show ?case
    by (cases "n < 10") (auto simp: nat_str.simps [of n] digit_in)
qed

lemma nat_str_not_Nil [simp]: "nat_str n \<noteq> []"
  by (subst nat_str.simps) simp

lemma nat_str_hd: "hd (nat_str n) \<in> set digit_chars"
  using nat_str_digits [of n] hd_in_set [OF nat_str_not_Nil [of n]] by blast

lemma atoi_itoa:
  assumes "int_min \<le> i" "i \<le> int_max"
  shows "atoi (itoa i) = Inr i"
proof (cases "i < 0")
  case True
  with assms show ?thesis
    by (simp add: atoi_def itoa_def signed_digits_def parse_nat_str)
next
  case False
  obtain c cs where cs: "nat_str (nat i) = c # cs" by (cases "nat_str (nat i)") auto
  with nat_str_hd [of "nat i"] have c: "c \<noteq> CHR ''-''" "c \<noteq> CHR ''+''"
    by (auto simp: digit_chars_def)
  have "signed_digits (itoa i) = Some i"
    using False c cs parse_nat_str [of "nat i"] by (simp add: itoa_def signed_digits_def)
  with assms show ?thesis by (simp add: atoi_def)
qed

lemma itoa_inj: "itoa i = itoa j \<Longrightarrow> i = j"
proof -
  assume a: "itoa i = itoa j"
  have dash: "hd (nat_str n) \<noteq> CHR ''-''" for n
    using nat_str_hd [of n] by (auto simp: digit_chars_def)
  have "hd (itoa i) = CHR ''-'' \<longleftrightarrow> i < 0" for i
    using dash by (simp add: itoa_def)
  with a have "i < 0 \<longleftrightarrow> j < 0" by metis
  with a show "i = j"
    by (auto simp: itoa_def split: if_splits dest!: nat_str_inj)
qed

definition itoa32 :: "int32 \<Rightarrow> string" where
  "itoa32 x = itoa (sint x)"

text \<open>A text between single quotes.\<close>

definition squote :: "string \<Rightarrow> string" where
  "squote s = CHR 0x27 # s @ [CHR 0x27]"

subsection \<open>Splitting and joining\<close>

text \<open>\<^verbatim>\<open>strings.Split\<close> at a one-byte separator: never empty.\<close>

fun split_char :: "char \<Rightarrow> string \<Rightarrow> string list" where
  "split_char sep [] = [[]]"
| "split_char sep (c # cs) =
     (if c = sep then [] # split_char sep cs
      else (c # hd (split_char sep cs)) # tl (split_char sep cs))"

fun join_char :: "char \<Rightarrow> string list \<Rightarrow> string" where
  "join_char sep [] = []"
| "join_char sep [x] = x"
| "join_char sep (x # y # zs) = x @ sep # join_char sep (y # zs)"

lemma split_char_not_Nil [simp]: "split_char sep s \<noteq> []"
  by (induction s) auto

lemma join_split_char: "join_char sep (split_char sep s) = s"
proof (induction s)
  case (Cons c cs)
  obtain x xs where x: "split_char sep cs = x # xs" by (cases "split_char sep cs") auto
  with Cons show ?case by (cases xs) auto
qed simp

lemma split_char_no_sep: "sep \<notin> set s \<Longrightarrow> split_char sep s = [s]"
  by (induction s) auto

lemma split_char_append:
  "sep \<notin> set s \<Longrightarrow> split_char sep (s @ sep # t) = s # split_char sep t"
  by (induction s) auto

subsection \<open>Lexical paths\<close>

text \<open>
  \<^verbatim>\<open>path.Join\<close> of two elements: empty elements are ignored, the rest joined by a slash and
  cleaned; \<^verbatim>\<open>path.Clean\<close> drops empty and \<^verbatim>\<open>.\<close> components and lets \<^verbatim>\<open>..\<close> remove the component
  before it (at the root it is dropped, in front of a relative path it stays).
\<close>

fun clean_parts :: "bool \<Rightarrow> string list \<Rightarrow> string list \<Rightarrow> string list" where
  "clean_parts rooted out [] = rev out"
| "clean_parts rooted out (p # ps) =
     (if p = [] \<or> p = ''.'' then clean_parts rooted out ps
      else if p = ''..'' then
        (case out of
           [] \<Rightarrow> clean_parts rooted (if rooted then [] else [''..'']) ps
         | q # qs \<Rightarrow> clean_parts rooted (if q = ''..'' then ''..'' # out else qs) ps)
      else clean_parts rooted (p # out) ps)"

definition path_clean :: "string \<Rightarrow> string" where
  "path_clean s =
     (if s = [] then ''.''
      else let rooted = (hd s = CHR ''/'');
               body = join_char (CHR ''/'') (clean_parts rooted [] (split_char (CHR ''/'') s))
           in if rooted then CHR ''/'' # body else if body = [] then ''.'' else body)"

definition path_join :: "string \<Rightarrow> string \<Rightarrow> string" where
  "path_join a b =
     (if a = [] \<and> b = [] then []
      else path_clean (if a = [] then b else if b = [] then a else a @ CHR ''/'' # b))"

end
