(* ===== verification/K8sTypes.thy ===== *)
theory K8sTypes
  imports GoStrings
begin

text \<open>
  The Kubernetes objects the operator builds, reads and compares, as records with the fields the
  source touches; a part of an object that the source only copies (an affinity, a toleration, an
  environment entry) is \<open>raw\<close>, its text. A label or annotation map is a HOL map: the source reads
  and writes keys, and a nil map reads as an empty one. Generations are int64 values that are
  only compared and copied, so they are \<open>int\<close>; replica counts and ports keep their 32 bits.
\<close>

type_synonym raw = string
type_synonym quantity = string
type_synonym str_map = "string \<rightharpoonup> string"

subsection \<open>Names and metadata\<close>

datatype nsname = NsName (nn_namespace: string) (nn_name: string)

record gvk =
  gvk_group :: string
  gvk_version :: string
  gvk_kind :: string

record objectMeta =
  om_name :: string
  om_namespace :: string
  om_labels :: str_map
  om_annotations :: str_map
  om_generation :: int
  om_resourceVersion :: string
  om_finalizers :: "string list"
  om_deletionTimestamp :: "string option"
  om_ownerReferences :: "raw list"

definition empty_meta :: objectMeta where
  "empty_meta =
     \<lparr>om_name = [], om_namespace = [], om_labels = Map.empty, om_annotations = Map.empty,
      om_generation = 0, om_resourceVersion = [], om_finalizers = [],
      om_deletionTimestamp = None, om_ownerReferences = []\<rparr>"

datatype cond_status = ConditionTrue | ConditionFalse | ConditionUnknown

subsection \<open>Pods\<close>

record httpGetAction =
  hg_scheme :: string
  hg_rest :: raw

record probe =
  pr_httpGet :: "httpGetAction option"
  pr_periodSeconds :: int32
  pr_timeoutSeconds :: int32
  pr_successThreshold :: int32
  pr_failureThreshold :: int32
  pr_rest :: raw

record securityContext =
  sc_runAsUser :: "int64 option"
  sc_runAsGroup :: "int64 option"
  sc_rest :: raw

record podSecurityContext =
  psc_fsGroup :: "int64 option"
  psc_rest :: raw

record resourceRequirements =
  rr_limits :: "(string \<times> quantity) list"
  rr_requests :: "(string \<times> quantity) list"

record containerPort =
  cp_name :: string
  cp_containerPort :: int32
  cp_protocol :: string

record volumeMount =
  vm_name :: string
  vm_mountPath :: string
  vm_subPath :: string
  vm_readOnly :: bool

datatype volumeSource =
    ConfigMapVolume string "raw list"
  | SecretVolume string "raw list"
  | PVCVolume string bool
  | OtherVolume raw

record volume =
  vol_name :: string
  vol_source :: volumeSource

record container =
  ct_name :: string
  ct_image :: string
  ct_imagePullPolicy :: string
  ct_command :: "string list"
  ct_args :: "string list"
  ct_ports :: "containerPort list"
  ct_env :: "raw list"
  ct_envFrom :: "raw list"
  ct_resources :: resourceRequirements
  ct_livenessProbe :: "probe option"
  ct_readinessProbe :: "probe option"
  ct_startupProbe :: "probe option"
  ct_securityContext :: "securityContext option"
  ct_volumeMounts :: "volumeMount list"

record podSpec =
  ps_initContainers :: "container list"
  ps_containers :: "container list"
  ps_volumes :: "volume list"
  ps_serviceAccountName :: string
  ps_securityContext :: "podSecurityContext option"
  ps_nodeSelector :: str_map
  ps_tolerations :: "raw list"
  ps_affinity :: "raw option"
  ps_restartPolicy :: string

record podTemplateSpec =
  pt_labels :: str_map
  pt_annotations :: str_map
  pt_spec :: podSpec

subsection \<open>Volume claims and workloads\<close>

record pvcSpec =
  pvc_accessModes :: "string list"
  pvc_requests :: "(string \<times> quantity) list"
  pvc_storageClassName :: "string option"
  pvc_volumeMode :: "string option"

record pvcTemplate =
  vct_name :: string
  vct_labels :: str_map
  vct_spec :: pvcSpec

record rollingUpdate =
  ru_partition :: "int32 option"
  ru_rest :: raw

record updateStrategy =
  us_type :: string
  us_rollingUpdate :: "rollingUpdate option"

record statefulSetSpec =
  sts_replicas :: "int32 option"
  sts_selector :: str_map
  sts_template :: podTemplateSpec
  sts_volumeClaimTemplates :: "pvcTemplate list"
  sts_serviceName :: string
  sts_updateStrategy :: updateStrategy
  sts_podManagementPolicy :: string

record statefulSetStatus =
  sts_observedGeneration :: int
  sts_readyReplicas :: int32
  sts_currentReplicas :: int32
  sts_updatedReplicas :: int32

record deploymentCondition =
  dc_type :: string
  dc_status :: cond_status
  dc_reason :: string
  dc_message :: string

record deploymentSpec =
  dep_replicas :: "int32 option"
  dep_paused :: bool
  dep_rest :: raw

record deploymentStatus =
  dep_observedGeneration :: int
  dep_updatedReplicas :: int32
  dep_readyReplicas :: int32
  dep_availableReplicas :: int32
  dep_conditions :: "deploymentCondition list"

subsection \<open>Services, endpoints, disruption budgets\<close>

datatype intOrString = IntVal int32 | StrVal string

record servicePort =
  svp_name :: string
  svp_port :: int32
  svp_targetPort :: intOrString
  svp_protocol :: string
  svp_nodePort :: int32

record serviceSpec =
  svc_selector :: str_map
  svc_clusterIP :: string
  svc_type :: string
  svc_ports :: "servicePort list"
  svc_sessionAffinity :: string
  svc_sessionAffinityConfig :: "raw option"

record ingressPoint =
  ing_ip :: string
  ing_hostname :: string

record endpointSubset =
  eps_addresses :: "raw list"
  eps_notReadyAddresses :: "raw list"

record pdbStatus =
  pdb_observedGeneration :: int
  pdb_currentHealthy :: int32
  pdb_desiredHealthy :: int32
  pdb_disruptionsAllowed :: int32

subsection \<open>Objects\<close>

text \<open>
  A \<^verbatim>\<open>client.Object\<close>: the \<^verbatim>\<open>TypeMeta\<close> (as set by whoever built the object), the metadata, and the
  Go type with its content, which is what a type switch sees.
\<close>

datatype objectBody =
    Deployment deploymentSpec deploymentStatus
  | StatefulSet statefulSetSpec statefulSetStatus
  | Service serviceSpec "ingressPoint list"
  | PersistentVolumeClaim pvcSpec string
  | ConfigMap str_map "raw option"
  | Secret raw
  | ServiceAccount
  | PodDisruptionBudget pdbStatus
  | PodDisruptionBudgetBeta1 pdbStatus
  | OtherObject raw

record kobject =
  ko_apiVersion :: string
  ko_kind :: string
  ko_meta :: objectMeta
  ko_body :: objectBody

definition get_name :: "kobject \<Rightarrow> string" where
  "get_name obj = om_name (ko_meta obj)"

definition get_namespace :: "kobject \<Rightarrow> string" where
  "get_namespace obj = om_namespace (ko_meta obj)"

definition get_labels :: "kobject \<Rightarrow> str_map" where
  "get_labels obj = om_labels (ko_meta obj)"

definition object_key :: "kobject \<Rightarrow> nsname" where
  "object_key obj = NsName (get_namespace obj) (get_name obj)"

text \<open>Reading a label that is absent gives Go's zero value, the empty string.\<close>

definition lookup_str :: "str_map \<Rightarrow> string \<Rightarrow> string" where
  "lookup_str m k = (case m k of None \<Rightarrow> [] | Some v \<Rightarrow> v)"

lemma lookup_str_simps [simp]:
  "lookup_str Map.empty k = []" "lookup_str (m(k \<mapsto> v)) k = v"
  "k' \<noteq> k \<Longrightarrow> lookup_str (m(k \<mapsto> v)) k' = lookup_str m k'"
  by (simp_all add: lookup_str_def)

lemmas object_defs [go_defs] = get_name_def get_namespace_def get_labels_def object_key_def

definition zero_sts_status :: statefulSetStatus where
  "zero_sts_status =
     \<lparr>sts_observedGeneration = 0, sts_readyReplicas = 0, sts_currentReplicas = 0,
      sts_updatedReplicas = 0\<rparr>"

end
