(* ===== verification/AppTypes.thy ===== *)
theory AppTypes
  imports K8sTypes
begin

text \<open>
  The operator's own API: the \<^verbatim>\<open>ApplicationDefinition\<close> resource of
  \<^verbatim>\<open>api/app/v1/applicationdefinition_types.go\<close> and the configuration structures of
  \<^verbatim>\<open>pkg/apis/common/types.go\<close> that a component's properties are unmarshalled into.
\<close>

subsection \<open>Labels and annotations the operator uses\<close>

definition AppNameLabel :: string where "AppNameLabel = ''infini.cloud/application-name''"
definition CompNameLabel :: string where "CompNameLabel = ''infini.cloud/component-name''"
definition CompInstanceLabel :: string where
  "CompInstanceLabel = ''infini.cloud/component-instance''"
definition ManagedByLabel :: string where "ManagedByLabel = ''app.kubernetes.io/managed-by''"
definition OperatorName :: string where "OperatorName = ''runtime-operator''"
definition InClusterNamespacePath :: string where
  "InClusterNamespacePath = ''/var/run/secrets/kubernetes.io/serviceaccount/namespace''"
definition AnnotationChangeID :: string where "AnnotationChangeID = ''infini.cloud/change-id''"
definition AnnotationClusterID :: string where "AnnotationClusterID = ''infini.cloud/cluster-id''"
definition AnnotationChangeWebhookURL :: string where
  "AnnotationChangeWebhookURL = ''infini.cloud/change-webhook-url''"

lemmas label_defs =
  AppNameLabel_def CompNameLabel_def CompInstanceLabel_def ManagedByLabel_def

lemma labels_distinct [simp]:
  "distinct [AppNameLabel, CompNameLabel, CompInstanceLabel, ManagedByLabel,
     ''app.kubernetes.io/name'', ''app.kubernetes.io/instance'']"
  by (simp add: label_defs)

lemma labels_neq [simp]:
  "AppNameLabel \<noteq> CompNameLabel" "CompNameLabel \<noteq> AppNameLabel"
  "AppNameLabel \<noteq> CompInstanceLabel" "CompInstanceLabel \<noteq> AppNameLabel"
  "AppNameLabel \<noteq> ManagedByLabel" "ManagedByLabel \<noteq> AppNameLabel"
  "CompNameLabel \<noteq> CompInstanceLabel" "CompInstanceLabel \<noteq> CompNameLabel"
  "CompNameLabel \<noteq> ManagedByLabel" "ManagedByLabel \<noteq> CompNameLabel"
  "CompInstanceLabel \<noteq> ManagedByLabel" "ManagedByLabel \<noteq> CompInstanceLabel"
  by (simp_all add: label_defs)

subsection \<open>The ApplicationDefinition\<close>

text \<open>\<open>ApplicationPhaseUnset\<close> is the empty string of a resource that was never processed.\<close>

datatype applicationPhase =
    ApplicationPhaseUnset
  | ApplicationPhasePending
  | ApplicationPhaseCreating
  | ApplicationPhaseUpdateing
  | ApplicationPhaseRunning
  | ApplicationPhaseDegraded
  | ApplicationPhaseSuspended
  | ApplicationPhaseDeleting
  | ApplicationPhaseFailed

definition ConditionReady :: string where "ConditionReady = ''Ready''"

record condition =
  cond_type :: string
  cond_status :: cond_status
  cond_reason :: string
  cond_message :: string
  cond_lastTransitionTime :: string

definition mk_condition :: "string \<Rightarrow> cond_status \<Rightarrow> string \<Rightarrow> string \<Rightarrow> condition" where
  "mk_condition ty st re msg =
     \<lparr>cond_type = ty, cond_status = st, cond_reason = re, cond_message = msg,
      cond_lastTransitionTime = []\<rparr>"

lemma mk_condition_simps [simp]:
  "cond_type (mk_condition ty st re msg) = ty" "cond_status (mk_condition ty st re msg) = st"
  "cond_reason (mk_condition ty st re msg) = re" "cond_message (mk_condition ty st re msg) = msg"
  by (simp_all add: mk_condition_def)

record applicationComponent =
  ac_name :: string
  ac_apiVersion :: string
  ac_kind :: string
  ac_type :: string
  ac_properties :: raw

record applicationSpec =
  as_components :: "applicationComponent list"
  as_suspend :: "bool option"

record componentStatus =
  cs_name :: string
  cs_kind :: string
  cs_apiVersion :: string
  cs_resourceName :: string
  cs_namespace :: string
  cs_health :: bool
  cs_message :: string

record applicationStatus =
  st_observedGeneration :: int
  st_phase :: applicationPhase
  st_conditions :: "condition list"
  st_components :: "componentStatus list"
  st_suspendedReplicas :: "string \<rightharpoonup> int32"
  st_lastChangeID :: string
  st_annotations :: str_map

record appDef =
  ad_meta :: objectMeta
  ad_spec :: applicationSpec
  ad_status :: applicationStatus

definition empty_status :: applicationStatus where
  "empty_status =
     \<lparr>st_observedGeneration = 0, st_phase = ApplicationPhaseUnset, st_conditions = [],
      st_components = [], st_suspendedReplicas = Map.empty, st_lastChangeID = [],
      st_annotations = Map.empty\<rparr>"

definition app_key :: "appDef \<Rightarrow> nsname" where
  "app_key a = NsName (om_namespace (ad_meta a)) (om_name (ad_meta a))"

definition app_name :: "appDef \<Rightarrow> string" where
  "app_name a = om_name (ad_meta a)"

definition app_namespace :: "appDef \<Rightarrow> string" where
  "app_namespace a = om_namespace (ad_meta a)"

definition app_phase :: "appDef \<Rightarrow> applicationPhase" where
  "app_phase a = st_phase (ad_status a)"

definition with_status :: "(applicationStatus \<Rightarrow> applicationStatus) \<Rightarrow> appDef \<Rightarrow> appDef" where
  "with_status f a = a\<lparr>ad_status := f (ad_status a)\<rparr>"

definition set_phase :: "applicationPhase \<Rightarrow> appDef \<Rightarrow> appDef" where
  "set_phase p = with_status (\<lambda>s. s\<lparr>st_phase := p\<rparr>)"

text \<open>\<^verbatim>\<open>appDef.Spec.Suspend != nil && *appDef.Spec.Suspend\<close>\<close>

definition is_suspended :: "appDef \<Rightarrow> bool" where
  "is_suspended a \<longleftrightarrow> as_suspend (ad_spec a) = Some True"

lemma with_status_simps [simp]:
  "ad_status (with_status f a) = f (ad_status a)"
  "ad_meta (with_status f a) = ad_meta a" "ad_spec (with_status f a) = ad_spec a"
  by (simp_all add: with_status_def)

lemma set_phase_simps [simp]:
  "ad_status (set_phase p a) = (ad_status a)\<lparr>st_phase := p\<rparr>"
  "ad_meta (set_phase p a) = ad_meta a" "ad_spec (set_phase p a) = ad_spec a"
  "app_phase (set_phase p a) = p" "is_suspended (set_phase p a) = is_suspended a"
  "is_suspended (with_status f a) = is_suspended a"
  by (simp_all add: set_phase_def app_phase_def is_suspended_def)

subsection \<open>Component configuration\<close>

record imageSpec =
  img_repository :: string
  img_tag :: string
  img_pullPolicy :: string

record resourcesSpec =
  res_limits :: "(string \<times> quantity) list"
  res_requests :: "(string \<times> quantity) list"

record portSpec =
  ps_name :: string
  ps_containerPort :: int32
  ps_protocol :: string
  ps_targetPort :: "intOrString option"
  ps_nodePort :: int32

record probesConfig =
  pc_liveness :: "probe option"
  pc_readiness :: "probe option"
  pc_startup :: "probe option"

record serviceSpecPart =
  ss_type :: "string option"
  ss_ports :: "portSpec list"
  ss_annotations :: str_map
  ss_sessionAffinity :: "string option"
  ss_sessionAffinityConfig :: "raw option"

record persistenceSpec =
  pe_enabled :: bool
  pe_size :: "quantity option"
  pe_volumeName :: string
  pe_mountPath :: string
  pe_storageClassName :: "string option"
  pe_accessModes :: "string list"

record storageSpec =
  so_enabled :: bool
  so_size :: "quantity option"
  so_volumeClaimTemplateName :: string
  so_mountPath :: string
  so_storageClassName :: "string option"
  so_accessModes :: "string list"
  so_dataSubpath :: "string option"

record configMountSpec =
  cm_name :: string
  cm_volumeName :: string
  cm_mountPath :: string
  cm_subPath :: "string option"
  cm_items :: "raw list"
  cm_readOnly :: "bool option"

record secretMountSpec =
  sm_secretName :: string
  sm_volumeName :: string
  sm_mountPath :: string
  sm_items :: "raw list"
  sm_readOnly :: "bool option"

record serviceAccountSpec =
  sa_create :: "bool option"
  sa_name :: string
  sa_annotations :: str_map

text \<open>
  \<^verbatim>\<open>ConfigFiles\<close> is tested for emptiness, so it is an association list. The builder never reads
  the additional volumes, the extra mounts and the two disruption budgets.
\<close>

record runtimeConfig =
  rc_replicas :: "int32 option"
  rc_image :: "imageSpec option"
  rc_command :: "string list"
  rc_args :: "string list"
  rc_ports :: "portSpec list"
  rc_initContainer :: "raw option"
  rc_resources :: "resourcesSpec option"
  rc_env :: "raw list"
  rc_envFrom :: "raw list"
  rc_probes :: "probesConfig option"
  rc_containerSecurityContext :: "securityContext option"
  rc_podSecurityContext :: "podSecurityContext option"
  rc_serviceAccount :: "serviceAccountSpec option"
  rc_nodeSelector :: str_map
  rc_tolerations :: "raw list"
  rc_affinity :: "raw option"
  rc_persistence :: "persistenceSpec option"
  rc_storage :: "storageSpec option"
  rc_service :: "serviceSpecPart option"
  rc_configFiles :: "(string, string) amap"
  rc_configMounts :: "configMountSpec list"
  rc_secretMounts :: "secretMountSpec list"
  rc_additionalVolumes :: "raw list"
  rc_volumeMounts :: "raw list"
  rc_updateStrategy :: "updateStrategy option"
  rc_podManagementPolicy :: "string option"
  rc_podDisruptionBudgetBeta1 :: "raw option"
  rc_podDisruptionBudget :: "raw option"

subsection \<open>The namespace of the operator\<close>

text \<open>
  \<^verbatim>\<open>getInClusterNamespace\<close>, given what the file system answers about the namespace file when it
  is asked for its status and when it is read, and the namespace the package initialiser chooses,
  given the environment variable.
\<close>

datatype statAnswer = StatOk | StatNotExist | StatFailed goerror

definition getInClusterNamespace ::
    "(string \<Rightarrow> statAnswer) \<Rightarrow> (string \<Rightarrow> goerror + string) \<Rightarrow> goerror + string" where
  "getInClusterNamespace stat readFile =
     (case stat InClusterNamespacePath of
        StatNotExist \<Rightarrow> Inl (errorf ''not running in-cluster, please check the Namespace'')
      | StatFailed e \<Rightarrow> Inl (wrapf ''error checking namespace file: '' e)
      | StatOk \<Rightarrow>
          (case readFile InClusterNamespacePath of
             Inl e \<Rightarrow> Inl (wrapf ''error reading namespace file: '' e)
           | Inr content \<Rightarrow> Inr content))"

definition initial_namespace ::
    "string \<Rightarrow> (string \<Rightarrow> statAnswer) \<Rightarrow> (string \<Rightarrow> goerror + string) \<Rightarrow> string" where
  "initial_namespace env stat readFile =
     (if env \<noteq> [] then env
      else case getInClusterNamespace stat readFile of
        Inr n \<Rightarrow> n | Inl _ \<Rightarrow> ''default'')"

end
