(* ===== verification/Helpers.thy ===== *)
theory Helpers
  imports AppTypes
begin

text \<open>
  \<^verbatim>\<open>pkg/builders/k8s/helpers.go\<close> and the pointer defaults of \<^verbatim>\<open>pkg/apis/common/util/util.go\<close>:
  labels, names, images, ports, probes and the small defaulting functions. The lemmas show what
  Kubernetes expects of the results: bounded lower-case names that do not end in a dash, container
  names that start and end with an alphanumeric byte, service ports with distinct names, node
  ports within the allowed range.
\<close>

subsection \<open>Pointer defaults\<close>

definition GetInt32ValueOrDefault :: "int32 option \<Rightarrow> int32 \<Rightarrow> int32" where
  "GetInt32ValueOrDefault ptr d = (case ptr of None \<Rightarrow> d | Some x \<Rightarrow> x)"

definition GetBoolValueOrDefault :: "bool option \<Rightarrow> bool \<Rightarrow> bool" where
  "GetBoolValueOrDefault ptr d = (case ptr of None \<Rightarrow> d | Some x \<Rightarrow> x)"

definition GetStringValueOrDefault :: "string option \<Rightarrow> string \<Rightarrow> string" where
  "GetStringValueOrDefault ptr d = (case ptr of None \<Rightarrow> d | Some x \<Rightarrow> x)"

lemmas pointer_default_defs [simp] =
  GetInt32ValueOrDefault_def GetBoolValueOrDefault_def GetStringValueOrDefault_def

subsection \<open>Labels\<close>

definition BuildCommonLabels :: "string \<Rightarrow> string \<Rightarrow> string \<Rightarrow> str_map" where
  "BuildCommonLabels appName compType instanceName =
     [ManagedByLabel \<mapsto> OperatorName,
      ''app.kubernetes.io/name'' \<mapsto> compType,
      ''app.kubernetes.io/instance'' \<mapsto> instanceName,
      AppNameLabel \<mapsto> appName,
      CompNameLabel \<mapsto> compType,
      CompInstanceLabel \<mapsto> instanceName]"

definition BuildSelectorLabels :: "string \<Rightarrow> string \<Rightarrow> str_map" where
  "BuildSelectorLabels instanceName compType =
     [''app.kubernetes.io/name'' \<mapsto> compType,
      ''app.kubernetes.io/instance'' \<mapsto> instanceName]"

definition MergeMaps :: "str_map \<Rightarrow> str_map \<Rightarrow> str_map" where
  "MergeMaps base override = base ++ override"

lemma selector_in_common:
  "BuildSelectorLabels i t \<subseteq>\<^sub>m BuildCommonLabels a t i"
  by (auto simp: map_le_def BuildSelectorLabels_def BuildCommonLabels_def label_defs)

lemma selector_selects_merged:
  "BuildSelectorLabels i t \<subseteq>\<^sub>m MergeMaps base (BuildSelectorLabels i t)"
  by (auto simp: map_le_def MergeMaps_def map_add_def split: option.splits)

subsection \<open>Names\<close>

definition dash :: char where "dash = CHR ''-''"

definition DeriveResourceName :: "string \<Rightarrow> string" where
  "DeriveResourceName instanceName =
     (let name = to_lower instanceName;
          name = replace_char (CHR ''_'') dash name;
          name = (if length name > 63 then take 63 name else name)
      in trim_right dash name)"

definition lower_alnum :: "char \<Rightarrow> bool" where
  "lower_alnum c \<longleftrightarrow>
     (CHR ''a'' \<le> c \<and> c \<le> CHR ''z'') \<or> (CHR ''0'' \<le> c \<and> c \<le> CHR ''9'')"

definition DeriveContainerName :: "string \<Rightarrow> string" where
  "DeriveContainerName compType =
     (let name = to_lower (replace_char (CHR '' '') dash compType);
          name = replace_char (CHR ''_'') dash name;
          name = (if length name > 63 then take 63 name else name)
      in if length name > 0 then
           (let name =
                  (if lower_alnum (hd name) then name
                   else (let n = ''c-'' @ name in if length n > 63 then take 63 n else n))
            in if length name > 0 \<and> \<not> lower_alnum (last name)
               then butlast name @ ''c'' else name)
         else ''container'')"

definition BuildObjectMeta :: "string \<Rightarrow> string \<Rightarrow> str_map \<Rightarrow> str_map \<Rightarrow> objectMeta" where
  "BuildObjectMeta name namespace labels annotations =
     empty_meta\<lparr>om_name := name, om_namespace := namespace, om_labels := labels,
       om_annotations := annotations\<rparr>"

lemma length_DeriveResourceName: "length (DeriveResourceName s) \<le> 63"
proof -
  let ?n = "replace_char (CHR ''_'') dash (to_lower s)"
  let ?m = "if length ?n > 63 then take 63 ?n else ?n"
  have "length (trim_right dash ?m) \<le> length ?m" by (rule length_trim_right)
  moreover have "length ?m \<le> 63" by simp
  ultimately show ?thesis unfolding DeriveResourceName_def Let_def by linarith
qed

lemma DeriveResourceName_last:
  "DeriveResourceName s \<noteq> [] \<Longrightarrow> last (DeriveResourceName s) \<noteq> dash"
  unfolding DeriveResourceName_def Let_def by (rule trim_right_last)

lemma set_DeriveResourceName:
  assumes "c \<in> set (DeriveResourceName s)"
  shows "c \<noteq> CHR ''_'' \<and> c \<notin> set upper_letters"
proof -
  let ?n = "replace_char (CHR ''_'') dash (to_lower s)"
  have "c \<in> set ?n"
    using assms set_trim_right [of dash] by (auto simp: DeriveResourceName_def Let_def
        dest: in_set_takeD split: if_splits)
  then obtain d where "c = (if lower_char d = CHR ''_'' then dash else lower_char d)"
    unfolding replace_char_def to_lower_def set_map by blast
  moreover have "dash \<noteq> CHR ''_'' \<and> dash \<notin> set upper_letters"
    by (simp add: dash_def upper_letters_def)
  ultimately show ?thesis
    using lower_char_not_upper [of d] by (cases "lower_char d = CHR ''_''") simp_all
qed

text \<open>On a name that is already a DNS label, the derivation changes nothing.\<close>

definition resource_safe :: "string \<Rightarrow> bool" where
  "resource_safe s \<longleftrightarrow>
     length s \<le> 63 \<and> (s = [] \<or> last s \<noteq> dash) \<and>
     (\<forall>c \<in> set s. c \<noteq> CHR ''_'' \<and> c \<notin> set upper_letters)"

lemma DeriveResourceName_safe: "resource_safe (DeriveResourceName s)"
  using length_DeriveResourceName DeriveResourceName_last set_DeriveResourceName
  unfolding resource_safe_def by blast

lemma DeriveResourceName_id: "resource_safe s \<Longrightarrow> DeriveResourceName s = s"
proof -
  assume s: "resource_safe s"
  then have safe: "c \<noteq> CHR ''_'' \<and> c \<notin> set upper_letters" if "c \<in> set s" for c
    using that by (simp add: resource_safe_def)
  have "to_lower s = s"
    unfolding to_lower_def by (rule map_idI) (simp add: lower_char_other safe)
  moreover have "replace_char (CHR ''_'') dash s = s"
    unfolding replace_char_def by (rule map_idI) (simp add: safe)
  ultimately show ?thesis
    using s by (simp add: DeriveResourceName_def resource_safe_def trim_right_id)
qed

lemma lower_alnum_c [simp]: "lower_alnum (CHR ''c'')"
  by (simp add: lower_alnum_def less_eq_char_def)

definition ends_alnum :: "string \<Rightarrow> bool" where
  "ends_alnum n \<longleftrightarrow> n \<noteq> [] \<and> length n \<le> 63 \<and> lower_alnum (hd n) \<and> lower_alnum (last n)"

lemma ends_alnum_fix_last:
  assumes "n \<noteq> []" "length n \<le> 63" "lower_alnum (hd n)"
  shows "ends_alnum (if length n > 0 \<and> \<not> lower_alnum (last n) then butlast n @ ''c'' else n)"
proof (cases "lower_alnum (last n)")
  case False
  from assms(1) obtain m c where n: "n = m @ [c]" by (cases n rule: rev_cases) auto
  from n assms(3) False have "m \<noteq> []" by (cases m) auto
  moreover note n
  ultimately show ?thesis using assms False by (simp add: ends_alnum_def)
qed (use assms in \<open>simp add: ends_alnum_def\<close>)

lemma DeriveContainerName_ends: "ends_alnum (DeriveContainerName s)"
proof -
  define n where
    "n = (let m = replace_char (CHR ''_'') dash (to_lower (replace_char (CHR '' '') dash s))
          in if length m > 63 then take 63 m else m)"
  define f where
    "f = (if lower_alnum (hd n) then n
          else (let k = ''c-'' @ n in if length k > 63 then take 63 k else k))"
  have len: "length n \<le> 63" by (simp add: n_def Let_def)
  have eq: "DeriveContainerName s =
      (if length n > 0
       then if length f > 0 \<and> \<not> lower_alnum (last f) then butlast f @ ''c'' else f
       else ''container'')"
    by (simp only: DeriveContainerName_def n_def f_def Let_def)
  show ?thesis
  proof (cases "n = []")
    case True
    then show ?thesis by (simp add: eq ends_alnum_def lower_alnum_def less_eq_char_def)
  next
    case False
    with len have "f \<noteq> []" "length f \<le> 63" "lower_alnum (hd f)"
      by (auto simp: f_def Let_def)
    then have "ends_alnum (if length f > 0 \<and> \<not> lower_alnum (last f) then butlast f @ ''c'' else f)"
      by (rule ends_alnum_fix_last)
    with False show ?thesis by (simp only: eq) simp
  qed
qed

subsection \<open>Images, resources, probes\<close>

definition BuildImageName :: "string \<Rightarrow> string \<Rightarrow> string" where
  "BuildImageName repository tag =
     (if repository = [] then []
      else if tag \<noteq> [] then repository @ '':'' @ tag
      else repository)"

definition GetImagePullPolicy :: "string \<Rightarrow> string \<Rightarrow> string" where
  "GetImagePullPolicy policy imageTag =
     (if policy \<noteq> [] then policy
      else if has_suffix imageTag '':latest'' \<or> imageTag = [] then ''Always''
      else ''IfNotPresent'')"

definition BuildK8sResourceRequirements :: "resourcesSpec option \<Rightarrow> resourceRequirements" where
  "BuildK8sResourceRequirements spec =
     (case spec of
        None \<Rightarrow> \<lparr>rr_limits = [], rr_requests = []\<rparr>
      | Some s \<Rightarrow> \<lparr>rr_limits = res_limits s, rr_requests = res_requests s\<rparr>)"

definition BuildProbe :: "probe option \<Rightarrow> probe option" where
  "BuildProbe probeSpec =
     (case probeSpec of
        None \<Rightarrow> None
      | Some p \<Rightarrow>
          (let p = (if pr_periodSeconds p = 0 then p\<lparr>pr_periodSeconds := 10\<rparr> else p);
               p = (if pr_timeoutSeconds p = 0 then p\<lparr>pr_timeoutSeconds := 1\<rparr> else p);
               p = (if pr_successThreshold p = 0 then p\<lparr>pr_successThreshold := 1\<rparr> else p);
               p = (if pr_failureThreshold p = 0 then p\<lparr>pr_failureThreshold := 3\<rparr> else p)
           in case pr_httpGet p of
                Some h \<Rightarrow>
                  if hg_scheme h = [] then Some (p\<lparr>pr_httpGet := Some (h\<lparr>hg_scheme := ''HTTP''\<rparr>)\<rparr>)
                  else Some p
              | None \<Rightarrow> Some p))"

lemma BuildProbe_idem: "BuildProbe (BuildProbe p) = BuildProbe p"
  by (cases p) (auto simp: BuildProbe_def Let_def split: option.splits)

subsection \<open>Ports\<close>

definition BuildContainerPorts :: "portSpec list \<Rightarrow> containerPort list" where
  "BuildContainerPorts portSpecs =
     map (\<lambda>ps. \<lparr>cp_name = ps_name ps, cp_containerPort = ps_containerPort ps,
                 cp_protocol = ps_protocol ps\<rparr>) portSpecs"

text \<open>
  The loop that makes a service port's name unique: \<open>port_candidate base i\<close> is the value of
  \<^verbatim>\<open>finalPortName\<close> after \<open>i\<close> rounds, and \<open>unique_port_name\<close> goes on from round \<open>i\<close>. It stops
  because the candidates are distinct and only finitely many names are taken.
\<close>

definition port_candidate :: "string \<Rightarrow> nat \<Rightarrow> string" where
  "port_candidate base i = (if i = 0 then base else base @ ''-'' @ itoa (int i))"

lemma port_candidate_inj: "port_candidate base i = port_candidate base j \<Longrightarrow> i = j"
  by (auto simp: port_candidate_def split: if_splits dest!: itoa_inj)

function unique_port_name :: "string list \<Rightarrow> string \<Rightarrow> nat \<Rightarrow> string" where
  "unique_port_name used base i =
     (if port_candidate base i \<in> set used then unique_port_name used base (Suc i)
      else port_candidate base i)"
  by pat_completeness auto
termination
proof (relation "measure (\<lambda>(used, base, i). card {n \<in> set used. \<exists>k \<ge> i. n = port_candidate base k})")
  fix used base i
  assume taken: "port_candidate base i \<in> set used"
  have "{n \<in> set used. \<exists>k \<ge> Suc i. n = port_candidate base k}
      \<subset> {n \<in> set used. \<exists>k \<ge> i. n = port_candidate base k}" (is "?A \<subset> ?B")
  proof
    show "?A \<subseteq> ?B" by (auto intro: Suc_leD)
    have "port_candidate base i \<notin> ?A" by (auto dest: port_candidate_inj)
    moreover have "port_candidate base i \<in> ?B" using taken by auto
    ultimately show "?A \<noteq> ?B" by blast
  qed
  then show "((used, base, Suc i), (used, base, i))
      \<in> measure (\<lambda>(used, base, i). card {n \<in> set used. \<exists>k \<ge> i. n = port_candidate base k})"
    by (simp add: psubset_card_mono)
qed simp

declare unique_port_name.simps [simp del]

lemma unique_port_name_fresh: "unique_port_name used base i \<notin> set used"
proof (induction used base i rule: unique_port_name.induct)
  case (1 used base i)
  then show ?case by (subst unique_port_name.simps) simp
qed

lemma unique_port_name_free:
  "base \<notin> set used \<Longrightarrow> unique_port_name used base 0 = base"
  by (subst unique_port_name.simps) (simp add: port_candidate_def)

definition port_base_name :: "portSpec \<Rightarrow> string \<Rightarrow> string" where
  "port_base_name ps protocol =
     (if ps_name ps = [] then ''port-'' @ itoa32 (ps_containerPort ps) @ ''-'' @ to_lower protocol
      else ps_name ps)"

definition node_port_ok :: "int32 \<Rightarrow> bool" where
  "node_port_ok p \<longleftrightarrow> p \<noteq> 0 \<and> \<not> (sint p < 30000 \<or> sint p > 32767)"

definition build_service_port :: "string list \<Rightarrow> portSpec \<Rightarrow> servicePort" where
  "build_service_port portNames ps =
     (let targetPort = (case ps_targetPort ps of None \<Rightarrow> IntVal (ps_containerPort ps) | Some t \<Rightarrow> t);
          protocol = (if ps_protocol ps = [] then ''TCP'' else ps_protocol ps);
          portName = port_base_name ps protocol;
          finalPortName = unique_port_name portNames portName 0
      in \<lparr>svp_name = finalPortName, svp_port = ps_containerPort ps, svp_targetPort = targetPort,
          svp_protocol = protocol,
          svp_nodePort = (if node_port_ok (ps_nodePort ps) then ps_nodePort ps else 0)\<rparr>)"

fun build_service_ports_from :: "string list \<Rightarrow> portSpec list \<Rightarrow> servicePort list" where
  "build_service_ports_from portNames [] = []"
| "build_service_ports_from portNames (ps # pss) =
     (let sp = build_service_port portNames ps
      in sp # build_service_ports_from (svp_name sp # portNames) pss)"

definition BuildServicePorts :: "portSpec list \<Rightarrow> servicePort list" where
  "BuildServicePorts portSpecs = build_service_ports_from [] portSpecs"

lemma build_service_port_simps [simp]:
  "svp_port (build_service_port used ps) = ps_containerPort ps"
  "svp_name (build_service_port used ps) \<notin> set used"
  by (simp_all add: build_service_port_def Let_def unique_port_name_fresh)

lemma service_port_names_from:
  "distinct (map svp_name (build_service_ports_from used pss)) \<and>
   set (map svp_name (build_service_ports_from used pss)) \<inter> set used = {}"
proof (induction pss arbitrary: used)
  case (Cons ps pss)
  let ?sp = "build_service_port used ps"
  from Cons [of "svp_name ?sp # used"] show ?case
    by (auto simp: Let_def)
qed simp

lemma BuildServicePorts_names: "distinct (map svp_name (BuildServicePorts pss))"
  using service_port_names_from [of "[]" pss] by (simp add: BuildServicePorts_def)

lemma build_service_ports_from_port:
  "map svp_port (build_service_ports_from used pss) = map ps_containerPort pss"
  by (induction pss arbitrary: used) (simp_all add: Let_def)

lemma build_service_ports_from_keeps:
  assumes "distinct (map ps_name pss)" "[] \<notin> set (map ps_name pss)"
    "set (map ps_name pss) \<inter> set used = {}"
  shows "map svp_name (build_service_ports_from used pss) = map ps_name pss"
  using assms
proof (induction pss arbitrary: used)
  case (Cons ps pss)
  have nm: "svp_name (build_service_port used ps) = ps_name ps"
    using Cons.prems
    by (auto simp: build_service_port_def Let_def port_base_name_def unique_port_name_free)
  have "map svp_name (build_service_ports_from (ps_name ps # used) pss) = map ps_name pss"
    by (rule Cons.IH) (use Cons.prems in auto)
  with nm show ?case by (simp add: Let_def)
qed simp

lemma node_ports_from:
  assumes "sp \<in> set (build_service_ports_from used pss)"
  shows "svp_nodePort sp = 0 \<or> (30000 \<le> sint (svp_nodePort sp) \<and> sint (svp_nodePort sp) \<le> 32767)"
  using assms
  by (induction pss arbitrary: used)
    (auto simp: Let_def build_service_port_def node_port_ok_def)

subsection \<open>Service accounts and strategies\<close>

definition DeriveServiceAccountName :: "string \<Rightarrow> serviceAccountSpec option \<Rightarrow> string" where
  "DeriveServiceAccountName instanceName config =
     (let createSA =
            (case config of
               None \<Rightarrow> False
             | Some c \<Rightarrow> (case sa_create c of None \<Rightarrow> False | Some b \<Rightarrow> b))
      in if \<not> createSA then []
         else case config of
                Some c \<Rightarrow>
                  if sa_name c \<noteq> [] then to_lower (sa_name c)
                  else DeriveResourceName instanceName @ ''-sa''
              | None \<Rightarrow> DeriveResourceName instanceName @ ''-sa'')"

definition GetStatefulSetUpdateStrategyOrDefault :: "updateStrategy option \<Rightarrow> updateStrategy" where
  "GetStatefulSetUpdateStrategyOrDefault strategy =
     (case strategy of
        Some s \<Rightarrow> s
      | None \<Rightarrow> \<lparr>us_type = ''RollingUpdate'', us_rollingUpdate = None\<rparr>)"

definition GetStatefulSetPodManagementPolicyOrDefault :: "string option \<Rightarrow> string" where
  "GetStatefulSetPodManagementPolicyOrDefault policy =
     (case policy of Some p \<Rightarrow> p | None \<Rightarrow> ''OrderedReady'')"

definition GetAffinityOrDefault :: "raw option \<Rightarrow> raw option" where
  "GetAffinityOrDefault affinity = (case affinity of None \<Rightarrow> None | Some a \<Rightarrow> Some a)"

definition GetPodSecurityContextOrDefault ::
    "podSecurityContext option \<Rightarrow> podSecurityContext option" where
  "GetPodSecurityContextOrDefault psc = (case psc of None \<Rightarrow> None | Some p \<Rightarrow> Some p)"

definition GetContainerSecurityContextOrDefault ::
    "securityContext option \<Rightarrow> securityContext option" where
  "GetContainerSecurityContextOrDefault csc = (case csc of None \<Rightarrow> None | Some c \<Rightarrow> Some c)"

subsection \<open>Properties\<close>

text \<open>
  C34. A derived resource name has at most 63 characters, no trailing dash, no underscore and no
  upper-case letter, whatever the component is called, and deriving it again changes nothing.
\<close>

theorem resource_name_safe:
  "resource_safe (DeriveResourceName s) \<and> DeriveResourceName (DeriveResourceName s) = DeriveResourceName s"
  using DeriveResourceName_safe DeriveResourceName_id by blast

text \<open>
  A derived container name is not empty, has at most 63 characters, and begins and ends with a
  lower-case letter or a digit, whatever the component is called.
\<close>

theorem container_name_bounds: "ends_alnum (DeriveContainerName s)"
  by (rule DeriveContainerName_ends)

definition good_node_port :: "servicePort \<Rightarrow> bool" where
  "good_node_port sp \<longleftrightarrow>
     svp_nodePort sp = 0 \<or> (30000 \<le> sint (svp_nodePort sp) \<and> sint (svp_nodePort sp) \<le> 32767)"

text \<open>
  C35. The service ports are those of the configuration, in order, under pairwise distinct names,
  and a node port is either left to the cluster or in the range 30000 to 32767. If all the ports
  have names and the names are distinct, the service ports keep them.
\<close>

theorem service_ports_spec:
  "map svp_port (BuildServicePorts pss) = map ps_containerPort pss \<and>
    distinct (map svp_name (BuildServicePorts pss)) \<and>
    list_all good_node_port (BuildServicePorts pss) \<and>
    (distinct (map ps_name pss) \<and> [] \<notin> set (map ps_name pss) \<longrightarrow>
      map svp_name (BuildServicePorts pss) = map ps_name pss)"
proof (intro conjI impI)
  show "list_all good_node_port (BuildServicePorts pss)"
    using node_ports_from [of _ "[]" pss] by (auto simp: BuildServicePorts_def list_all_iff good_node_port_def)
next
  assume "distinct (map ps_name pss) \<and> [] \<notin> set (map ps_name pss)"
  then show "map svp_name (BuildServicePorts pss) = map ps_name pss"
    using build_service_ports_from_keeps [of pss "[]"] by (simp add: BuildServicePorts_def)
next
  show "distinct (map svp_name (BuildServicePorts pss))" by (rule BuildServicePorts_names)
qed (simp add: BuildServicePorts_def build_service_ports_from_port)

definition example_port :: "string \<Rightarrow> int32 \<Rightarrow> int32 \<Rightarrow> portSpec" where
  "example_port name port nodePort =
     \<lparr>ps_name = name, ps_containerPort = port, ps_protocol = ''TCP'', ps_targetPort = None,
      ps_nodePort = nodePort\<rparr>"

theorem service_ports_spec_witness:
  "map svp_name (BuildServicePorts [example_port ''http'' 9200 80, example_port ''transport'' 9300 31000])
     = [''http'', ''transport'']"
  using service_ports_spec
    [of "[example_port ''http'' 9200 80, example_port ''transport'' 9300 31000]"]
  by (simp add: example_port_def)

end
