(* ===== verification/Volumes.thy ===== *)
theory Volumes
  imports Helpers
begin

text \<open>
  \<^verbatim>\<open>pkg/builders/k8s/volume.go\<close>: pod volumes, container mounts and volume claims. ConfigMap and
  Secret mounts are translated by two functions of the same shape; the interface
  \<open>mount_source\<close> states that shape once, proves that volume names are distinct and that every
  mount has its volume, and is interpreted on both.
\<close>

subsection \<open>ConfigMap mounts\<close>

definition config_volume_name :: "configMountSpec \<Rightarrow> string" where
  "config_volume_name m = (if cm_volumeName m = [] then cm_name m else cm_volumeName m)"

definition config_volume :: "configMountSpec \<Rightarrow> volume" where
  "config_volume m =
     \<lparr>vol_name = config_volume_name m, vol_source = ConfigMapVolume (cm_name m) (cm_items m)\<rparr>"

fun config_volumes_from :: "string list \<Rightarrow> configMountSpec list \<Rightarrow> volume list" where
  "config_volumes_from volumeNames [] = []"
| "config_volumes_from volumeNames (m # ms) =
     (if config_volume_name m \<in> set volumeNames then config_volumes_from volumeNames ms
      else config_volume m # config_volumes_from (config_volume_name m # volumeNames) ms)"

definition BuildVolumesFromConfigMaps :: "configMountSpec list \<Rightarrow> volume list" where
  "BuildVolumesFromConfigMaps configMounts =
     (if configMounts = [] then [] else config_volumes_from [] configMounts)"

definition BuildVolumeMountsFromConfigMaps :: "configMountSpec list \<Rightarrow> volumeMount list" where
  "BuildVolumeMountsFromConfigMaps configMounts =
     map (\<lambda>m. \<lparr>vm_name = config_volume_name m, vm_mountPath = cm_mountPath m,
                vm_subPath = GetStringValueOrDefault (cm_subPath m) [],
                vm_readOnly = GetBoolValueOrDefault (cm_readOnly m) True\<rparr>) configMounts"

subsection \<open>Secret mounts\<close>

definition secret_volume_name :: "secretMountSpec \<Rightarrow> string" where
  "secret_volume_name m = (if sm_volumeName m = [] then sm_secretName m else sm_volumeName m)"

definition secret_volume :: "secretMountSpec \<Rightarrow> volume" where
  "secret_volume m =
     \<lparr>vol_name = secret_volume_name m, vol_source = SecretVolume (sm_secretName m) (sm_items m)\<rparr>"

fun secret_volumes_from :: "string list \<Rightarrow> secretMountSpec list \<Rightarrow> volume list" where
  "secret_volumes_from volumeNames [] = []"
| "secret_volumes_from volumeNames (m # ms) =
     (if secret_volume_name m \<in> set volumeNames then secret_volumes_from volumeNames ms
      else secret_volume m # secret_volumes_from (secret_volume_name m # volumeNames) ms)"

definition BuildVolumesFromSecrets :: "secretMountSpec list \<Rightarrow> volume list" where
  "BuildVolumesFromSecrets secretMounts =
     (if secretMounts = [] then [] else secret_volumes_from [] secretMounts)"

definition BuildVolumeMountsFromSecrets :: "secretMountSpec list \<Rightarrow> volumeMount list" where
  "BuildVolumeMountsFromSecrets secretMounts =
     map (\<lambda>m. \<lparr>vm_name = secret_volume_name m, vm_mountPath = sm_mountPath m, vm_subPath = [],
                vm_readOnly = GetBoolValueOrDefault (sm_readOnly m) True\<rparr>) secretMounts"

subsection \<open>The shared contract of the two translations\<close>

text \<open>
  \<open>loop\<close> builds the volumes that are not yet in the list of names, \<open>mounts\<close> builds one mount
  for each entry; \<open>vname\<close> is the name both use for an entry and \<open>vol\<close> the volume of an entry.
\<close>

locale mount_source =
  fixes loop :: "string list \<Rightarrow> 'm list \<Rightarrow> volume list"
    and mounts :: "'m list \<Rightarrow> volumeMount list"
    and vname :: "'m \<Rightarrow> string"
    and vol :: "'m \<Rightarrow> volume"
  assumes loop_Nil: "loop seen [] = []"
    and loop_Cons: "loop seen (m # ms) =
      (if vname m \<in> set seen then loop seen ms else vol m # loop (vname m # seen) ms)"
    and vol_name_vol: "vol_name (vol m) = vname m"
    and mount_names: "map vm_name (mounts ms) = map vname ms"
begin

lemma loop_names: "set (map vol_name (loop seen ms)) = set (map vname ms) - set seen"
proof (induction ms arbitrary: seen)
  case Nil
  show ?case by (simp add: loop_Nil)
next
  case (Cons m ms)
  show ?case
  proof (cases "vname m \<in> set seen")
    case True
    with Cons.IH [of seen] show ?thesis by (auto simp: loop_Cons)
  next
    case False
    with Cons.IH [of "vname m # seen"] show ?thesis by (auto simp: loop_Cons vol_name_vol)
  qed
qed

lemma loop_distinct: "distinct (map vol_name (loop seen ms))"
proof (induction ms arbitrary: seen)
  case Nil
  show ?case by (simp add: loop_Nil)
next
  case (Cons m ms)
  have "vname m \<notin> set (map vol_name (loop (vname m # seen) ms))"
    by (simp only: loop_names) simp
  with Cons.IH show ?case by (simp add: loop_Cons vol_name_vol)
qed

lemma loop_from_entries: "set (loop seen ms) \<subseteq> vol ` set ms"
proof (induction ms arbitrary: seen)
  case Nil
  show ?case by (simp add: loop_Nil)
next
  case (Cons m ms)
  show ?case using Cons.IH by (auto simp: loop_Cons)
qed

lemma mounts_backed: "set (map vm_name (mounts ms)) = set (map vol_name (loop [] ms))"
  by (simp only: mount_names loop_names) simp

lemma first_entry_kept:
  assumes "vname m \<notin> set (map vname pre)" "vname m \<notin> set seen"
  shows "vol m \<in> set (loop seen (pre @ m # post))"
  using assms
proof (induction pre arbitrary: seen)
  case Nil
  then show ?case by (simp add: loop_Cons)
next
  case (Cons p pre)
  then show ?case by (auto simp: loop_Cons)
qed

end

interpretation config_mounts: mount_source config_volumes_from BuildVolumeMountsFromConfigMaps
    config_volume_name config_volume
  by unfold_locales (simp_all add: config_volume_def BuildVolumeMountsFromConfigMaps_def)

interpretation secret_mounts: mount_source secret_volumes_from BuildVolumeMountsFromSecrets
    secret_volume_name secret_volume
  by unfold_locales (simp_all add: secret_volume_def BuildVolumeMountsFromSecrets_def)

lemma BuildVolumesFromConfigMaps_eq: "BuildVolumesFromConfigMaps ms = config_volumes_from [] ms"
  by (simp add: BuildVolumesFromConfigMaps_def)

lemma BuildVolumesFromSecrets_eq: "BuildVolumesFromSecrets ms = secret_volumes_from [] ms"
  by (simp add: BuildVolumesFromSecrets_def)

subsection \<open>Volume claims\<close>

definition access_modes_or_default :: "string list \<Rightarrow> string list" where
  "access_modes_or_default ms = (if ms = [] then [''ReadWriteOnce''] else ms)"

definition BuildVolumeClaimTemplates ::
    "storageSpec option \<Rightarrow> str_map \<Rightarrow> goerror + pvcTemplate list" where
  "BuildVolumeClaimTemplates storageSpec commonLabels =
     (case storageSpec of
        None \<Rightarrow> Inr []
      | Some s \<Rightarrow>
          if \<not> so_enabled s then Inr []
          else case so_size s of
            None \<Rightarrow> Inl (errorf ''storage is enabled but required field 'size' is missing'')
          | Some q \<Rightarrow>
              (let vctName = (if so_volumeClaimTemplateName s = [] then ''data''
                              else so_volumeClaimTemplateName s)
               in if so_mountPath s = []
                  then Inl (errorf ''storage is enabled but required field 'mountPath' is missing'')
                  else Inr [\<lparr>vct_name = vctName, vct_labels = commonLabels,
                    vct_spec = \<lparr>pvc_accessModes = access_modes_or_default (so_accessModes s),
                      pvc_requests = [(''storage'', q)],
                      pvc_storageClassName = so_storageClassName s,
                      pvc_volumeMode = None\<rparr>\<rparr>]))"

text \<open>
  The shared claim of a Deployment. The source also writes the default volume name back into the
  configuration it was given; the model returns that configuration with the result.
\<close>

definition BuildSharedPVCPVC ::
    "persistenceSpec option \<Rightarrow> string \<Rightarrow> string \<Rightarrow> str_map
      \<Rightarrow> persistenceSpec option \<times> (goerror + kobject option)" where
  "BuildSharedPVCPVC persistenceConfig instanceName namespace commonLabels =
     (case persistenceConfig of
        None \<Rightarrow> (None, Inr None)
      | Some p \<Rightarrow>
          if \<not> pe_enabled p then (Some p, Inr None)
          else case pe_size p of
            None \<Rightarrow>
              (Some p, Inl (errorf (''persistence is enabled but required field 'size' is missing for instance ''
                 @ namespace @ ''/'' @ instanceName)))
          | Some q \<Rightarrow>
              if pe_mountPath p = [] then
                (Some p, Inl (errorf (''persistence is enabled but required field 'mountPath' is missing for instance ''
                   @ namespace @ ''/'' @ instanceName)))
              else
                (Some (if pe_volumeName p = []
                       then p\<lparr>pe_volumeName := DeriveResourceName instanceName @ ''-pvc-vol''\<rparr>
                       else p),
                 Inr (Some \<lparr>ko_apiVersion = ''v1'', ko_kind = ''PersistentVolumeClaim'',
                   ko_meta = BuildObjectMeta (DeriveResourceName instanceName @ ''-pvc'')
                     namespace commonLabels Map.empty,
                   ko_body = PersistentVolumeClaim
                     \<lparr>pvc_accessModes = access_modes_or_default (pe_accessModes p),
                      pvc_requests = [(''storage'', q)],
                      pvc_storageClassName = pe_storageClassName p,
                      pvc_volumeMode = None\<rparr> []\<rparr>)))"

definition BuildPersistentVolumeMounts :: "persistenceSpec option \<Rightarrow> string \<Rightarrow> volumeMount list" where
  "BuildPersistentVolumeMounts persistenceConfig volumeName =
     (case persistenceConfig of
        None \<Rightarrow> []
      | Some p \<Rightarrow>
          if \<not> pe_enabled p \<or> pe_mountPath p = [] \<or> volumeName = [] then []
          else [\<lparr>vm_name = volumeName, vm_mountPath = pe_mountPath p, vm_subPath = [],
                 vm_readOnly = False\<rparr>])"

definition BuildVolumeMountsFromStorage :: "storageSpec option \<Rightarrow> volumeMount list" where
  "BuildVolumeMountsFromStorage storageSpec =
     (case storageSpec of
        None \<Rightarrow> []
      | Some s \<Rightarrow>
          if \<not> so_enabled s \<or> so_mountPath s = [] \<or> so_volumeClaimTemplateName s = [] then []
          else
            \<lparr>vm_name = so_volumeClaimTemplateName s, vm_mountPath = so_mountPath s,
             vm_subPath = [], vm_readOnly = False\<rparr>
            # (case so_dataSubpath s of
                 None \<Rightarrow> []
               | Some sub \<Rightarrow>
                   if sub = [] then []
                   else [\<lparr>vm_name = so_volumeClaimTemplateName s,
                          vm_mountPath = path_join (so_mountPath s) sub,
                          vm_subPath = sub, vm_readOnly = False\<rparr>]))"

lemma storage_mounts_named:
  "vm \<in> set (BuildVolumeMountsFromStorage (Some s)) \<Longrightarrow>
    vm_name vm = so_volumeClaimTemplateName s \<and> so_volumeClaimTemplateName s \<noteq> []"
  by (auto simp: BuildVolumeMountsFromStorage_def split: if_splits option.splits)

lemma BuildVolumeClaimTemplates_cases:
  "BuildVolumeClaimTemplates so labels = Inr vcts \<Longrightarrow>
    length vcts \<le> 1 \<and> (\<forall>v \<in> set vcts. vct_labels v = labels \<and> pvc_accessModes (vct_spec v) \<noteq> [])"
  by (auto simp: BuildVolumeClaimTemplates_def Let_def access_modes_or_default_def
      split: option.splits if_splits)

lemma BuildVolumeClaimTemplates_ok:
  assumes "so_enabled s" "so_size s = Some q" "so_mountPath s \<noteq> []"
  obtains v where "BuildVolumeClaimTemplates (Some s) labels = Inr [v]"
    "vct_name v = (if so_volumeClaimTemplateName s = [] then ''data'' else so_volumeClaimTemplateName s)"
    "vct_labels v = labels" "pvc_requests (vct_spec v) = [(''storage'', q)]"
  using assms by (simp add: BuildVolumeClaimTemplates_def Let_def)

end
