(* ===== verification/Json.thy ===== *)
theory Json
  imports K8sTypes
begin

text \<open>
  What the source uses of \<^verbatim>\<open>encoding/json\<close>: \<^verbatim>\<open>json.Marshal\<close> of maps of strings, and of structures of
  strings, numbers and such maps. The keys of a map are written in byte order, the fields of a structure
  in the order of its declaration; the escapes are those of the package with its HTML-safe default; bytes
  that are not UTF-8 become the replacement character. A Go string is a list of bytes, a \<open>char\<close> each. The
  text determines the document, if its strings are valid UTF-8.
\<close>

subsection \<open>UTF-8\<close>

definition byte_of :: "char \<Rightarrow> nat" where "byte_of c = of_char c"

definition is_tail :: "nat \<Rightarrow> bool" where "is_tail b \<longleftrightarrow> 128 \<le> b \<and> b < 192"

text \<open>\<^verbatim>\<open>utf8.DecodeRune\<close>: the size of the encoding a text starts with, 0 for an invalid one.\<close>

definition rune_size :: "nat list \<Rightarrow> nat" where
  "rune_size bs =
     (case bs of
        [] \<Rightarrow> 0
      | b # r \<Rightarrow>
          if b < 128 then 1
          else if 194 \<le> b \<and> b < 224 then
            (case r of t # _ \<Rightarrow> if is_tail t then 2 else 0 | _ \<Rightarrow> 0)
          else if 224 \<le> b \<and> b < 240 then
            (case r of
               t # u # _ \<Rightarrow>
                 if is_tail t \<and> is_tail u \<and> (b = 224 \<longrightarrow> 160 \<le> t) \<and> (b = 237 \<longrightarrow> t < 160) then 3 else 0
             | _ \<Rightarrow> 0)
          else if 240 \<le> b \<and> b < 245 then
            (case r of
               t # u # v # _ \<Rightarrow>
                 if is_tail t \<and> is_tail u \<and> is_tail v \<and> (b = 240 \<longrightarrow> 144 \<le> t) \<and> (b = 244 \<longrightarrow> t < 144)
                 then 4 else 0
             | _ \<Rightarrow> 0)
          else 0)"

text \<open>The line and paragraph separators, U+2028 and U+2029.\<close>

definition is_separator :: "nat list \<Rightarrow> bool" where
  "is_separator bs \<longleftrightarrow> bs = [226, 128, 168] \<or> bs = [226, 128, 169]"

subsection \<open>JSON\<close>

definition hex_digit :: "nat \<Rightarrow> char" where
  "hex_digit n = (''0123456789abcdef'') ! (n mod 16)"

definition backslash :: char where "backslash = CHR 0x5C"

definition quotes :: char where "quotes = CHR 0x22"

text \<open>A byte below 128, in a JSON text.\<close>

definition json_ascii :: "char \<Rightarrow> string" where
  "json_ascii c =
     (let b = byte_of c in
      if c = backslash \<or> c = quotes then [backslash, c]
      else if b = 8 then [backslash, CHR ''b'']
      else if b = 12 then [backslash, CHR ''f'']
      else if b = 10 then [backslash, CHR ''n'']
      else if b = 13 then [backslash, CHR ''r'']
      else if b = 9 then [backslash, CHR ''t'']
      else if b < 32 \<or> c = CHR ''<'' \<or> c = CHR ''>'' \<or> c = CHR ''&''
      then [backslash, CHR ''u'', CHR ''0'', CHR ''0'', hex_digit (b div 16), hex_digit b]
      else [c])"

function json_chars :: "string \<Rightarrow> string" where
  "json_chars [] = []"
| "json_chars (c # s) =
     (if byte_of c < 128 then json_ascii c @ json_chars s
      else let n = rune_size (map byte_of (c # s)) in
        if n = 0 then backslash # ''ufffd'' @ json_chars s
        else if is_separator (map byte_of (take n (c # s)))
        then backslash # ''u202'' @ [hex_digit (byte_of ((c # s) ! 2))] @ json_chars (drop n (c # s))
        else take n (c # s) @ json_chars (drop n (c # s)))"
  by pat_completeness auto
termination by (relation "measure length") auto

definition json_string :: "string \<Rightarrow> string" where
  "json_string s = quotes # json_chars s @ [quotes]"

text \<open>A document, and its text. The members of an object are written in the order given.\<close>

datatype json =
    JText string
  | JInt int
  | JObject "(string \<times> json) list"

fun json_text :: "json \<Rightarrow> string" and json_members :: "(string \<times> json) list \<Rightarrow> string" where
  "json_text (JText s) = json_string s"
| "json_text (JInt i) = itoa i"
| "json_text (JObject []) = ''{}''"
| "json_text (JObject ((name, v) # ps)) = ''{'' @ json_string name @ '':'' @ json_text v @ json_members ps"
| "json_members [] = ''}''"
| "json_members ((name, v) # ps) = '','' @ json_string name @ '':'' @ json_text v @ json_members ps"

definition sorted_entries :: "str_map \<Rightarrow> (string \<times> string) list" where
  "sorted_entries m = map (\<lambda>key. (key, the (m key))) (sorted_list_of_set (dom m))"

definition json_entries :: "(string \<times> string) list \<Rightarrow> json" where
  "json_entries ps = JObject (map (\<lambda>(key, v). (key, JText v)) ps)"

text \<open>A map without entries is written as an empty object; the source never writes a nil map.\<close>

definition json_map :: "str_map \<Rightarrow> string" where
  "json_map m = json_text (json_entries (sorted_entries m))"

subsection \<open>Reading it back\<close>

text \<open>A string is valid when it is a sequence of encoded runes.\<close>

function valid_utf8 :: "string \<Rightarrow> bool" where
  "valid_utf8 [] = True"
| "valid_utf8 (c # s) =
     (let n = rune_size (map byte_of (c # s)) in if n = 0 then False else valid_utf8 (drop n (c # s)))"
  by pat_completeness auto
termination by (relation "measure length") auto

text \<open>The value of a hexadecimal digit, and the string that the escape \<open>\u\<close> with four of them stands for.\<close>

definition hex_value :: "char \<Rightarrow> nat" where
  "hex_value c = (let b = byte_of c in if b < 58 then b - 48 else b - 87)"

definition unescape_rune :: "char \<Rightarrow> char \<Rightarrow> char \<Rightarrow> char \<Rightarrow> string" where
  "unescape_rune p q x y =
     (if p = CHR ''0'' then [char_of (16 * hex_value x + hex_value y)]
      else [char_of (226::nat), char_of (128::nat), char_of (160 + hex_value y)])"

definition unescape :: "char \<Rightarrow> char" where
  "unescape c =
     (if c = CHR ''b'' then char_of (8::nat) else if c = CHR ''f'' then char_of (12::nat)
      else if c = CHR ''n'' then char_of (10::nat) else if c = CHR ''r'' then char_of (13::nat)
      else if c = CHR ''t'' then char_of (9::nat) else c)"

text \<open>The rest of a JSON string, up to its closing quote.\<close>

fun read_chars :: "string \<Rightarrow> (string \<times> string) option" where
  "read_chars [] = None"
| "read_chars (c # s) =
     (if c = quotes then Some ([], s)
      else if c \<noteq> backslash then map_option (\<lambda>(t, r). (c # t, r)) (read_chars s)
      else case s of
        [] \<Rightarrow> None
      | e # s' \<Rightarrow>
          if e \<noteq> CHR ''u'' then map_option (\<lambda>(t, r). (unescape e # t, r)) (read_chars s')
          else (case s' of
              p # q # x # y # s'' \<Rightarrow> map_option (\<lambda>(t, r). (unescape_rune p q x y @ t, r)) (read_chars s'')
            | _ \<Rightarrow> None))"

lemma byte_of_bound: "byte_of c < 256"
  by (simp add: byte_of_def)

lemma char_of_byte [simp]: "char_of (byte_of c) = c"
  by (simp add: byte_of_def)

lemma byte_of_char [simp]: "n < 256 \<Longrightarrow> byte_of (char_of n) = n"
  by (simp add: byte_of_def)

lemma char_of_eq_byte: "n < 256 \<Longrightarrow> char_of n = c \<longleftrightarrow> byte_of c = n"
  by (metis char_of_byte byte_of_char)

lemma byte_of_inject: "byte_of c = byte_of d \<longleftrightarrow> c = d"
  by (metis char_of_byte)

lemma hex_digit_facts:
  "hex_value (hex_digit n) = n mod 16" "hex_digit n \<noteq> quotes" "hex_digit n \<noteq> backslash"
proof -
  have "list_all (\<lambda>n. hex_value (hex_digit n) = n \<and> hex_digit n \<noteq> quotes \<and> hex_digit n \<noteq> backslash) [0..<16]"
    by code_simp
  then have "hex_value (hex_digit (n mod 16)) = n mod 16 \<and> hex_digit (n mod 16) \<noteq> quotes \<and>
      hex_digit (n mod 16) \<noteq> backslash" by (simp add: list_all_iff)
  then show "hex_value (hex_digit n) = n mod 16" "hex_digit n \<noteq> quotes" "hex_digit n \<noteq> backslash"
    by (simp_all add: hex_digit_def)
qed

lemma backslash_quotes [simp]: "backslash \<noteq> quotes" "quotes \<noteq> backslash"
  by (simp_all add: backslash_def quotes_def)

text \<open>An escape of a byte is read back as the byte.\<close>

lemma read_simple: "e \<noteq> CHR ''u'' \<Longrightarrow>
    read_chars (backslash # e # s) = map_option (\<lambda>(t, r). (unescape e # t, r)) (read_chars s)"
  by simp

lemma read_hex:
  "read_chars (backslash # CHR ''u'' # p # q # x # y # s) =
     map_option (\<lambda>(t, r). (unescape_rune p q x y @ t, r)) (read_chars s)"
  by simp

lemma read_plain:
  "c \<noteq> quotes \<Longrightarrow> c \<noteq> backslash \<Longrightarrow>
    read_chars (c # s) = map_option (\<lambda>(t, r). (c # t, r)) (read_chars s)"
  by simp

lemma char_of_rune [simp]:
  "unescape_rune (CHR ''0'') (CHR ''0'') (hex_digit (byte_of c div 16)) (hex_digit (byte_of c)) = [c]"
proof -
  have "byte_of c div 16 < 16" using byte_of_bound [of c] by (simp add: less_mult_imp_div_less)
  then have "16 * (byte_of c div 16 mod 16) + byte_of c mod 16 = byte_of c" by simp
  then show ?thesis by (simp add: unescape_rune_def hex_digit_facts(1))
qed

lemma read_ascii:
  assumes "byte_of c < 128"
  shows "read_chars (json_ascii c @ s) = map_option (\<lambda>(t, r). (c # t, r)) (read_chars s)"
proof -
  have un: "unescape backslash = backslash" "unescape quotes = quotes" "backslash \<noteq> CHR ''u''" "quotes \<noteq> CHR ''u''"
    by (simp_all add: unescape_def backslash_def quotes_def)
  have letters: "unescape (CHR ''b'') = c \<longleftrightarrow> byte_of c = 8" "unescape (CHR ''f'') = c \<longleftrightarrow> byte_of c = 12"
    "unescape (CHR ''n'') = c \<longleftrightarrow> byte_of c = 10" "unescape (CHR ''r'') = c \<longleftrightarrow> byte_of c = 13"
    "unescape (CHR ''t'') = c \<longleftrightarrow> byte_of c = 9"
    by (simp_all add: unescape_def char_of_eq_byte)
  consider "c = backslash \<or> c = quotes" | "c \<noteq> backslash" "c \<noteq> quotes" "byte_of c \<in> {8, 9, 10, 12, 13}"
    | "c \<noteq> backslash" "c \<noteq> quotes" "byte_of c \<notin> {8, 9, 10, 12, 13}" by blast
  then show ?thesis
  proof cases
    case 1
    then show ?thesis using un by (auto simp: json_ascii_def read_simple simp del: read_chars.simps)
  next
    case 2
    then show ?thesis
      using letters
      by (elim insertE emptyE) (simp_all add: json_ascii_def read_simple Let_def del: read_chars.simps)
  next
    case 3
    then show ?thesis
      by (auto simp: json_ascii_def read_hex read_plain Let_def simp del: read_chars.simps)
  qed
qed

text \<open>The bytes of a longer rune are copied.\<close>

lemma read_raw:
  "\<forall>d \<in> set xs. 128 \<le> byte_of d \<Longrightarrow>
    read_chars (xs @ s) = map_option (\<lambda>(t, r). (xs @ t, r)) (read_chars s)"
proof (induction xs)
  case Nil
  show ?case by (cases "read_chars s") auto
next
  case (Cons c xs)
  have "byte_of quotes = 34" "byte_of backslash = 92" by code_simp+
  with Cons.prems have "c \<noteq> quotes" "c \<noteq> backslash" by auto
  then have "read_chars (c # (xs @ s)) = map_option (\<lambda>(t, r). (c # t, r)) (read_chars (xs @ s))"
    by (rule read_plain)
  with Cons show ?case by (cases "read_chars s") auto
qed

lemma rune_size_high:
  assumes "128 \<le> b" "rune_size (b # bs) = n" "n \<noteq> 0"
  shows "n \<le> length (b # bs) \<and> (\<forall>d \<in> set (take n (b # bs)). 128 \<le> d)"
  using assms
  by (auto simp: rune_size_def is_tail_def numeral_eq_Suc split: list.splits if_splits)

lemma rune_raw:
  assumes "128 \<le> byte_of c" "rune_size (map byte_of (c # s)) = n" "n \<noteq> 0"
  shows "\<forall>d \<in> set (take n (c # s)). 128 \<le> byte_of d"
proof -
  have "map byte_of (take n (c # s)) = take n (byte_of c # map byte_of s)"
    by (metis list.simps(9) take_map)
  with rune_size_high [of "byte_of c" "map byte_of s" n] assms
  have "\<forall>d \<in> set (map byte_of (take n (c # s))). 128 \<le> d" by simp
  then show ?thesis by simp
qed

lemma separator_escape:
  assumes "is_separator (map byte_of (take n (c # s)))"
  shows "unescape_rune (CHR ''2'') (CHR ''0'') (CHR ''2'') (hex_digit (byte_of ((c # s) ! 2))) = take n (c # s)"
proof -
  obtain x y z where xs: "take n (c # s) = [x, y, z]" "byte_of x = 226" "byte_of y = 128" "byte_of z \<in> {168, 169}"
    using assms by (auto simp: is_separator_def map_eq_Cons_conv)
  have "length (take n (c # s)) = 3" using xs(1) by simp
  then have "2 < n" by simp
  then have "(c # s) ! 2 = z" using nth_take [of 2 n "c # s"] xs(1) by simp
  with xs show ?thesis
    by (auto simp: unescape_rune_def hex_digit_facts(1) char_of_eq_byte)
qed

lemma read_json_chars:
  "valid_utf8 s \<Longrightarrow> read_chars (json_chars s @ quotes # r) = Some (s, r)"
proof (induction s rule: json_chars.induct)
  case 1
  then show ?case by simp
next
  case (2 c s)
  let ?n = "rune_size (map byte_of (c # s))"
  from "2.prems" have n: "?n \<noteq> 0" "valid_utf8 (drop ?n (c # s))" by (auto simp: Let_def split: if_splits)
  show ?case
  proof (cases "byte_of c < 128")
    case True
    then have "?n = 1" by (simp add: rune_size_def)
    with "2.IH"(1) [OF True] n(2) True read_ascii [OF True] show ?thesis
      by (simp del: read_chars.simps)
  next
    case False
    have ih: "read_chars (json_chars (drop ?n (c # s)) @ quotes # r) = Some (drop ?n (c # s), r)"
      using "2.IH"(3,4) [OF False refl n(1)] n(2) by blast
    show ?thesis
    proof (cases "is_separator (map byte_of (take ?n (c # s)))")
      case True
      then have "json_chars (c # s) = backslash # CHR ''u'' # CHR ''2'' # CHR ''0'' # CHR ''2'' #
          hex_digit (byte_of ((c # s) ! 2)) # json_chars (drop ?n (c # s))"
        using False n(1) by (simp add: Let_def)
      with ih read_hex separator_escape [OF True] show ?thesis
        by (simp del: read_chars.simps json_chars.simps)
    next
      case raw: False
      then have "json_chars (c # s) = take ?n (c # s) @ json_chars (drop ?n (c # s))"
        using False n(1) by (simp add: Let_def)
      with ih read_raw [OF rune_raw [OF _ refl n(1)]] False show ?thesis
        by (simp del: read_chars.simps json_chars.simps)
    qed
  qed
qed

subsection \<open>The text determines the map\<close>

lemma json_string_inject:
  assumes "json_string a @ x = json_string b @ y" "valid_utf8 a" "valid_utf8 b"
  shows "a = b \<and> x = y"
proof -
  from assms(1) have "json_chars a @ quotes # x = json_chars b @ quotes # y" by (simp add: json_string_def)
  then have "Some (a, x) = Some (b, y)"
    using read_json_chars [OF assms(2), of x] read_json_chars [OF assms(3), of y] by metis
  then show ?thesis by simp
qed

definition valid_entries :: "(string \<times> string) list \<Rightarrow> bool" where
  "valid_entries ps \<longleftrightarrow> list_all (\<lambda>p. valid_utf8 (fst p) \<and> valid_utf8 (snd p)) ps"

fun valid_json :: "json \<Rightarrow> bool" and valid_members :: "(string \<times> json) list \<Rightarrow> bool" where
  "valid_json (JText s) = valid_utf8 s"
| "valid_json (JInt i) = True"
| "valid_json (JObject ps) = valid_members ps"
| "valid_members [] = True"
| "valid_members ((name, v) # ps) = (valid_utf8 name \<and> valid_json v \<and> valid_members ps)"

text \<open>What follows a number in a document does not continue it.\<close>

definition number_ends :: "string \<Rightarrow> bool" where
  "number_ends x \<longleftrightarrow> (\<forall>c y. x = c # y \<longrightarrow> c \<notin> set digit_chars \<union> {CHR ''-''})"

lemma number_ends_simps [simp]: "number_ends []" "number_ends (json_members ps @ x)"
proof -
  show "number_ends []" by (simp add: number_ends_def)
  show "number_ends (json_members ps @ x)"
    by (cases ps rule: json_members.cases) (auto simp: number_ends_def digit_chars_def)
qed

lemma itoa_chars: "set (itoa i) \<subseteq> set digit_chars \<union> {CHR ''-''}"
  using nat_str_digits by (auto simp: itoa_def)

lemma itoa_inject:
  assumes "itoa i @ x = itoa j @ y" "number_ends x" "number_ends y"
  shows "i = j \<and> x = y"
proof -
  let ?P = "\<lambda>c. c \<in> set digit_chars \<union> {CHR ''-''}"
  have "takeWhile ?P (itoa n @ z) = itoa n" if "number_ends z" for n z
  proof -
    have "takeWhile ?P z = []" using that by (cases z) (auto simp: number_ends_def)
    then show ?thesis using itoa_chars [of n] by (subst takeWhile_append2) auto
  qed
  from this [OF assms(2), of i] this [OF assms(3), of j] assms(1) have "itoa i = itoa j" by metis
  with itoa_inj assms(1) show ?thesis by blast
qed

text \<open>The kinds of documents differ in their first character.\<close>

lemma json_text_starts:
  "\<exists>r. json_text (JText s) = quotes # r" "\<exists>r. json_text (JObject ps) = CHR ''{'' # r"
  "\<exists>c r. json_text (JInt i) = c # r \<and> c \<noteq> quotes \<and> c \<noteq> CHR ''{''"
proof -
  show "\<exists>r. json_text (JText s) = quotes # r" by (simp add: json_string_def)
  show "\<exists>r. json_text (JObject ps) = CHR ''{'' # r" by (cases ps) auto
  have "itoa i \<noteq> []" by (simp add: itoa_def)
  then obtain c r where c: "itoa i = c # r" by (cases "itoa i") auto
  with itoa_chars [of i] have "c \<in> set digit_chars \<union> {CHR ''-''}" by simp
  then have "c \<noteq> quotes \<and> c \<noteq> CHR ''{''" by (auto simp: digit_chars_def quotes_def)
  with c show "\<exists>c r. json_text (JInt i) = c # r \<and> c \<noteq> quotes \<and> c \<noteq> CHR ''{''" by simp
qed

lemma json_kinds:
  "json_text (JText s) @ x \<noteq> json_text (JInt i) @ y" "json_text (JText s) @ x \<noteq> json_text (JObject ps) @ y"
  "json_text (JInt i) @ x \<noteq> json_text (JObject ps) @ y"
  using json_text_starts(1) [of s] json_text_starts(2) [of ps] json_text_starts(3) [of i]
  by (force simp: quotes_def)+

lemma member_inject:
  assumes "json_string name @ '':'' @ x = json_string other @ '':'' @ y" "valid_utf8 name" "valid_utf8 other"
  shows "name = other \<and> x = y"
  using json_string_inject [OF assms] by simp

lemma json_text_inject:
  "json_text a @ x = json_text b @ y \<Longrightarrow> valid_json a \<Longrightarrow> valid_json b \<Longrightarrow> number_ends x \<Longrightarrow> number_ends y \<Longrightarrow>
    a = b \<and> x = y"
  "json_members ps @ x = json_members qs @ y \<Longrightarrow> valid_members ps \<Longrightarrow> valid_members qs \<Longrightarrow> ps = qs \<and> x = y"
proof (induction a and ps arbitrary: b x y and qs x y rule: json_text_json_members.induct)
  case (1 s)
  then obtain t where "b = JText t" using json_kinds by (cases b) metis+
  with 1 json_string_inject [of s x t y] show ?case by simp
next
  case (2 i)
  then obtain j where "b = JInt j" using json_kinds by (cases b) metis+
  with 2 itoa_inject [of i x j y] show ?case by simp
next
  case 3
  then obtain qs where "b = JObject qs" using json_kinds by (cases b) metis+
  with 3 show ?case by (cases qs rule: json_members.cases) (auto simp: json_string_def quotes_def)
next
  case (4 name v ps)
  then obtain qs where b: "b = JObject qs" using json_kinds by (cases b) metis+
  with "4.prems"(1) obtain other u qs' where qs: "qs = (other, u) # qs'"
    by (cases qs rule: json_members.cases) (auto simp: json_string_def quotes_def)
  have "name = other \<and> json_text v @ json_members ps @ x = json_text u @ json_members qs' @ y"
    by (rule member_inject) (use "4.prems" b qs in simp_all)
  then have m: "name = other" "json_text v @ json_members ps @ x = json_text u @ json_members qs' @ y" by simp_all
  with "4.IH"(1) [OF m(2)] "4.IH"(2) [of x qs' y] "4.prems"(2,3) b qs show ?case by simp
next
  case 5
  then show ?case by (cases qs rule: json_members.cases) auto
next
  case (6 name v ps)
  from "6.prems"(1) obtain other u qs' where qs: "qs = (other, u) # qs'"
    by (cases qs rule: json_members.cases) auto
  have "name = other \<and> json_text v @ json_members ps @ x = json_text u @ json_members qs' @ y"
    by (rule member_inject) (use "6.prems" qs in simp_all)
  then have m: "name = other" "json_text v @ json_members ps @ x = json_text u @ json_members qs' @ y" by simp_all
  with "6.IH"(1) [OF m(2)] "6.IH"(2) [of x qs' y] "6.prems"(2,3) qs show ?case by simp
qed

text \<open>A text is the text of one valid document at most.\<close>

lemma json_document:
  "json_text a = json_text b \<Longrightarrow> valid_json a \<Longrightarrow> valid_json b \<Longrightarrow> a = b"
  using json_text_inject(1) [of a "[]" b "[]"] by simp

lemma valid_json_entries [simp]: "valid_json (json_entries ps) = valid_entries ps"
  by (induction ps) (auto simp: json_entries_def valid_entries_def)

lemma json_entries_inject: "json_entries ps = json_entries qs \<longleftrightarrow> ps = qs"
  by (auto simp: json_entries_def prod.case_eq_if inj_on_def prod_eq_iff dest!: map_injective)

lemma sorted_entries_map_of:
  assumes "finite (dom m)"
  shows "map_of (sorted_entries m) = m"
proof
  fix key
  show "map_of (sorted_entries m) key = m key"
    using assms by (cases "m key") (auto simp: sorted_entries_def map_of_map_restrict restrict_map_def domIff)
qed

definition valid_map :: "str_map \<Rightarrow> bool" where
  "valid_map m \<longleftrightarrow> finite (dom m) \<and> valid_entries (sorted_entries m)"

lemma json_map_inject:
  assumes "json_map a = json_map b" "valid_map a" "valid_map b"
  shows "a = b"
proof -
  from assms json_document have "sorted_entries a = sorted_entries b"
    unfolding json_map_def valid_map_def by (metis json_entries_inject valid_json_entries)
  with sorted_entries_map_of assms(2,3) show ?thesis unfolding valid_map_def by metis
qed

text \<open>The entries of an association list, computed.\<close>

lemma sorted_entries_list:
  assumes "distinct (map fst m)"
  shows "sorted_entries (map_of m) = map (\<lambda>key. (key, the (map_of m key))) (sort (map fst m))"
proof -
  have "dom (map_of m) = set (map fst m)" by (simp add: dom_map_of_conv_image_fst)
  then show ?thesis
    using sorted_list_of_set_sort_remdups [of "map fst m"] assms by (simp add: sorted_entries_def distinct_remdups_id)
qed

end
