(* ===== verification/Sha256.thy ===== *)
theory Sha256
  imports Json
begin

text \<open>
  \<^verbatim>\<open>sha256.Sum256\<close> of the standard library, on 32-bit words, and the verb \<^verbatim>\<open>%x\<close>. The constants of the
  algorithm are computed from their definition: the first bits of the fractional parts of the roots of
  the first primes.
\<close>

unbundle bit_operations_syntax

subsection \<open>The constants\<close>

text \<open>The largest number whose \<open>p\<close>-th power does not exceed \<open>n\<close>, bit by bit from the highest.\<close>

fun root_below :: "nat \<Rightarrow> nat \<Rightarrow> nat \<Rightarrow> nat \<Rightarrow> nat" where
  "root_below p n 0 r = r"
| "root_below p n (Suc i) r = root_below p n i (if (r + 2 ^ i) ^ p \<le> n then r + 2 ^ i else r)"

lemma root_below_correct:
  assumes "r ^ p \<le> n" "n < (r + 2 ^ i) ^ p"
  shows "root_below p n i r ^ p \<le> n \<and> n < Suc (root_below p n i r) ^ p"
  using assms
proof (induction i arbitrary: r)
  case (Suc i)
  then show ?case by (cases "(r + 2 ^ i) ^ p \<le> n") (simp_all add: add.assoc mult_2)
qed simp

definition first_primes :: "nat list" where
  "first_primes = filter (\<lambda>n. 1 < n \<and> list_all (\<lambda>d. n mod d \<noteq> 0) [2..<n]) [0..<312]"

text \<open>Forty bits are enough: the square of the result is below \<open>2 ^ 74\<close>, its cube below \<open>2 ^ 105\<close>.\<close>

definition root_fraction :: "nat \<Rightarrow> nat \<Rightarrow> 32 word" where
  "root_fraction p q = of_nat (root_below p (q * 2 ^ (32 * p)) 40 0)"

definition initial_hash :: "32 word list" where
  "initial_hash = map (root_fraction 2) (take 8 first_primes)"

definition round_constants :: "32 word list" where
  "round_constants = map (root_fraction 3) first_primes"

subsection \<open>Padding\<close>

definition big_endian :: "nat \<Rightarrow> nat \<Rightarrow> string" where
  "big_endian k n = map (\<lambda>i. char_of (n div 256 ^ i mod 256)) (rev [0..<k])"

definition padded :: "string \<Rightarrow> string" where
  "padded s =
     s @ char_of (128::nat) # replicate ((119 - length s mod 64) mod 64) (char_of (0::nat))
     @ big_endian 8 (8 * length s)"

fun words_of :: "string \<Rightarrow> 32 word list" where
  "words_of (a # b # c # d # s) =
     of_nat (((byte_of a * 256 + byte_of b) * 256 + byte_of c) * 256 + byte_of d) # words_of s"
| "words_of _ = []"

subsection \<open>The compression of a block\<close>

definition sigma :: "nat \<Rightarrow> nat \<Rightarrow> 32 word \<Rightarrow> 32 word \<Rightarrow> 32 word" where
  "sigma i j third x = word_rotr i x XOR word_rotr j x XOR third"

text \<open>The message schedule, newest word first.\<close>

definition next_word :: "32 word list \<Rightarrow> 32 word" where
  "next_word ws =
     sigma 17 19 (drop_bit 10 (ws ! 1)) (ws ! 1) + ws ! 6
     + sigma 7 18 (drop_bit 3 (ws ! 14)) (ws ! 14) + ws ! 15"

definition schedule :: "32 word list \<Rightarrow> 32 word list" where
  "schedule block = rev (((\<lambda>ws. next_word ws # ws) ^^ 48) (rev block))"

type_synonym working = "32 word \<times> 32 word \<times> 32 word \<times> 32 word \<times> 32 word \<times> 32 word \<times> 32 word \<times> 32 word"

fun sha_round :: "32 word \<times> 32 word \<Rightarrow> working \<Rightarrow> working" where
  "sha_round (k, w) (a, b, c, d, e, f, g, h) =
     (let t1 = h + sigma 6 11 (word_rotr 25 e) e + (e AND f XOR NOT e AND g) + k + w;
          t2 = sigma 2 13 (word_rotr 22 a) a + (a AND b XOR a AND c XOR b AND c)
      in (t1 + t2, a, b, c, d + t1, e, f, g))"

fun add_working :: "working \<Rightarrow> working \<Rightarrow> working" where
  "add_working (a, b, c, d, e, f, g, h) (a', b', c', d', e', f', g', h') =
     (a + a', b + b', c + c', d + d', e + e', f + f', g + g', h + h')"

definition compress :: "working \<Rightarrow> 32 word list \<Rightarrow> working" where
  "compress s block = add_working s (fold sha_round (zip round_constants (schedule block)) s)"

function compress_all :: "working \<Rightarrow> 32 word list \<Rightarrow> working" where
  "compress_all s ws = (if ws = [] then s else compress_all (compress s (take 16 ws)) (drop 16 ws))"
  by pat_completeness auto
termination by (relation "measure (\<lambda>(s, ws). length ws)") auto

declare compress_all.simps [simp del]

definition start_working :: working where
  "start_working =
     (case initial_hash of
        [a, b, c, d, e, f, g, h] \<Rightarrow> (a, b, c, d, e, f, g, h) | _ \<Rightarrow> (0, 0, 0, 0, 0, 0, 0, 0))"

definition Sum256 :: "string \<Rightarrow> string" where
  "Sum256 s =
     (case compress_all start_working (words_of (padded s)) of
        (a, b, c, d, e, f, g, h) \<Rightarrow>
          concat (map (\<lambda>w. big_endian 4 (unat w)) [a, b, c, d, e, f, g, h]))"

definition hex_text :: "string \<Rightarrow> string" where
  "hex_text s = concat (map (\<lambda>c. [hex_digit (byte_of c div 16), hex_digit (byte_of c)]) s)"

subsection \<open>Sizes\<close>

lemma padding_fills: "m < 64 \<Longrightarrow> 64 dvd m + 9 + (119 - m) mod (64::nat)"
proof -
  have "list_all (\<lambda>m. (m + 9 + (119 - m) mod 64) mod 64 = (0::nat)) [0..<64]" by code_simp
  then show "m < 64 \<Longrightarrow> 64 dvd m + 9 + (119 - m) mod 64"
    unfolding list_all_iff dvd_eq_mod_eq_0 by (simp del: mod_mod_trivial)
qed

lemma padded_length: "64 dvd length (padded s)"
proof -
  let ?m = "length s mod 64" and ?q = "length s div 64"
  obtain q where q: "?m + 9 + (119 - ?m) mod 64 = 64 * q" using padding_fills [of ?m] by (rule dvdE) simp_all
  have "length (padded s) = length s + 9 + (119 - ?m) mod 64" by (simp add: padded_def big_endian_def)
  also have "\<dots> = 64 * ?q + (?m + 9 + (119 - ?m) mod 64)" by (simp only: add.assoc [symmetric] mult_div_mod_eq)
  also have "\<dots> = 64 * (?q + q)" unfolding q by (rule distrib_left [symmetric])
  finally show ?thesis by simp
qed

lemma Sum256_length: "length (Sum256 s) = 32"
  by (simp add: Sum256_def big_endian_def split: prod.splits)

lemma hex_text_length: "length (hex_text s) = 2 * length s"
  by (induction s) (simp_all add: hex_text_def)

lemma hex_text_inject: "hex_text a = hex_text b \<Longrightarrow> a = b"
proof (induction a arbitrary: b)
  case Nil
  then show ?case by (cases b) (simp_all add: hex_text_def)
next
  case (Cons c a)
  then obtain d b' where b: "b = d # b'" by (cases b) (simp_all add: hex_text_def)
  have digits: "byte_of e = 16 * hex_value (hex_digit (byte_of e div 16)) + hex_value (hex_digit (byte_of e))" for e
  proof -
    have "byte_of e div 16 < 16" using byte_of_bound [of e] by (simp add: less_mult_imp_div_less)
    then show ?thesis by (simp add: hex_digit_facts(1))
  qed
  from Cons.prems b have "hex_digit (byte_of c div 16) = hex_digit (byte_of d div 16)"
    "hex_digit (byte_of c) = hex_digit (byte_of d)" "hex_text a = hex_text b'"
    by (simp_all add: hex_text_def)
  with digits [of c] digits [of d] Cons.IH b show ?case by (simp add: byte_of_inject [symmetric])
qed

text \<open>Two texts that do not collide: if their sums are the same, so are they.\<close>

definition no_collision :: "string \<Rightarrow> string \<Rightarrow> bool" where
  "no_collision x y \<longleftrightarrow> (Sum256 x = Sum256 y \<longrightarrow> x = y)"

end
