(* ===== verification/Builder.thy ===== *)
theory Builder
  imports Volumes Sha256
begin

text \<open>
  The object builders: \<^verbatim>\<open>configmap.go\<close>, \<^verbatim>\<open>pod.go\<close>, \<^verbatim>\<open>service.go\<close>, \<^verbatim>\<open>serviceaccount.go\<close> and
  \<^verbatim>\<open>statefulset.go\<close> of \<^verbatim>\<open>pkg/builders/k8s\<close>, and the runtime builder strategy of
  \<^verbatim>\<open>pkg/builders/runtime/builder.go\<close>, which turns one component of an application into its
  ConfigMap, StatefulSet, Services and ServiceAccount.

  Parameters: \<open>hash\<close> is the hash of configuration data, in the controller \<open>HashConfigMap\<close>; \<open>now\<close> is the
  formatted current time. The strategy writes configuration hashes into the status annotations of the application it is given, so
  \<open>BuildObjects\<close> returns the application with the result.
\<close>

subsection \<open>Single objects\<close>

definition BuildConfigMap :: "objectMeta \<Rightarrow> str_map \<Rightarrow> raw option \<Rightarrow> kobject" where
  "BuildConfigMap cmMeta data binaryData =
     \<lparr>ko_apiVersion = ''v1'', ko_kind = ''ConfigMap'', ko_meta = cmMeta,
      ko_body = ConfigMap data binaryData\<rparr>"

definition BuildConfigMapsFromAppData ::
    "(string, string) amap \<Rightarrow> string \<Rightarrow> string \<Rightarrow> str_map \<Rightarrow> goerror + kobject list" where
  "BuildConfigMapsFromAppData appConfigData resourceName namespace labels =
     (if appConfigData = [] then Inr []
      else let cmMeta = BuildObjectMeta resourceName namespace labels Map.empty
           in Inr [BuildConfigMap cmMeta (map_of appConfigData) None])"

text \<open>Marshalling a map of strings cannot fail, so there is no error.\<close>

definition HashConfigMap :: "str_map \<Rightarrow> string" where
  "HashConfigMap data = hex_text (Sum256 (json_map data))"

text \<open>The keys of a map given as a function are not computable, so the examples do not unfold the hash.\<close>

declare HashConfigMap_def [code del]

lemma HashConfigMap_list:
  "distinct (map fst m) \<Longrightarrow>
    HashConfigMap (map_of m) =
      hex_text (Sum256 (json_text (json_entries (map (\<lambda>key. (key, the (map_of m key))) (sort (map fst m))))))"
  by (simp add: HashConfigMap_def json_map_def sorted_entries_list)

lemma HashConfigMap_length: "length (HashConfigMap data) = 64"
  by (simp add: HashConfigMap_def hex_text_length Sum256_length)

definition BuildPodTemplateSpec ::
    "container list \<Rightarrow> container list \<Rightarrow> volume list \<Rightarrow> podSecurityContext option \<Rightarrow> string
      \<Rightarrow> str_map \<Rightarrow> raw list \<Rightarrow> raw option \<Rightarrow> str_map \<Rightarrow> str_map \<Rightarrow> goerror + podTemplateSpec" where
  "BuildPodTemplateSpec containers initContainers volumes psc saName nodeSelector tolerations
       affinity podLabels podAnnotations =
     (if containers = []
      then Inl (errorf ''pod template spec requires at least one container'')
      else Inr \<lparr>pt_labels = podLabels, pt_annotations = podAnnotations,
        pt_spec = \<lparr>ps_initContainers = initContainers, ps_containers = containers,
          ps_volumes = volumes, ps_serviceAccountName = saName, ps_securityContext = psc,
          ps_nodeSelector = nodeSelector, ps_tolerations = tolerations, ps_affinity = affinity,
          ps_restartPolicy = ''Always''\<rparr>\<rparr>)"

definition BuildEnsureDirectoryContainer ::
    "string \<Rightarrow> string \<Rightarrow> string \<Rightarrow> int64 \<Rightarrow> int64 \<Rightarrow> container" where
  "BuildEnsureDirectoryContainer name img path ownerUID ownerGID =
     (let command = ''echo '' @ squote (''Ensuring directory exists: '' @ path)
            @ ''; mkdir -p '' @ squote path
            @ ''; chown '' @ itoa (sint ownerUID) @ '':'' @ itoa (sint ownerGID) @ '' '' @ squote path
            @ ''; echo '' @ squote ''Directory setup complete.'' @ ''; exit 0'';
          initImage = (if img = [] then ''busybox:latest'' else img)
      in \<lparr>ct_name = name, ct_image = initImage, ct_imagePullPolicy = ''IfNotPresent'',
          ct_command = [''sh'', ''-c''], ct_args = [command], ct_ports = [], ct_env = [],
          ct_envFrom = [],
          ct_resources = \<lparr>rr_limits = [(''memory'', ''50Mi'')],
            rr_requests = [(''cpu'', ''10m''), (''memory'', ''20Mi'')]\<rparr>,
          ct_livenessProbe = None, ct_readinessProbe = None, ct_startupProbe = None,
          ct_securityContext = None, ct_volumeMounts = []\<rparr>)"

definition BuildService :: "objectMeta \<Rightarrow> str_map \<Rightarrow> serviceSpec \<Rightarrow> kobject" where
  "BuildService serviceMeta selectorLabels spec =
     \<lparr>ko_apiVersion = ''v1'', ko_kind = ''Service'', ko_meta = serviceMeta,
      ko_body = Service spec []\<rparr>"

definition ClusterIPNone :: string where "ClusterIPNone = ''None''"

definition BuildHeadlessService :: "objectMeta \<Rightarrow> str_map \<Rightarrow> servicePort list \<Rightarrow> kobject" where
  "BuildHeadlessService serviceMeta selectorLabels ports =
     \<lparr>ko_apiVersion = ''v1'', ko_kind = ''Service'', ko_meta = serviceMeta,
      ko_body = Service \<lparr>svc_selector = selectorLabels, svc_clusterIP = ClusterIPNone,
        svc_type = ''ClusterIP'', svc_ports = ports, svc_sessionAffinity = [],
        svc_sessionAffinityConfig = None\<rparr> []\<rparr>"

definition BuildServiceAccount :: "objectMeta \<Rightarrow> kobject" where
  "BuildServiceAccount saMeta =
     \<lparr>ko_apiVersion = ''v1'', ko_kind = ''ServiceAccount'', ko_meta = saMeta,
      ko_body = ServiceAccount\<rparr>"

definition BuildStatefulSet :: "objectMeta \<Rightarrow> statefulSetSpec \<Rightarrow> kobject" where
  "BuildStatefulSet stsMeta stsSpec =
     \<lparr>ko_apiVersion = ''apps/v1'', ko_kind = ''StatefulSet'', ko_meta = stsMeta,
      ko_body = StatefulSet stsSpec zero_sts_status\<rparr>"

subsection \<open>The runtime strategy: validation\<close>

text \<open>
  The workload the strategy manages is the constant \<^verbatim>\<open>apps/v1 StatefulSet\<close>; the branches for a
  Deployment stay in the model as they stay in the code.
\<close>

definition StatefulSetType :: string where "StatefulSetType = ''StatefulSet''"

definition workload_kind :: string where "workload_kind = StatefulSetType"

definition is_stateful_set :: bool where
  "is_stateful_set \<longleftrightarrow> workload_kind = StatefulSetType"

lemma is_stateful_set [simp]: is_stateful_set
  by (simp add: is_stateful_set_def workload_kind_def)

definition verifyParameters :: "runtimeConfig option \<Rightarrow> applicationComponent \<Rightarrow> goerror option" where
  "verifyParameters runtimeConfig appComp =
     (let acomp = squote (ac_name appComp) in
      case runtimeConfig of
        None \<Rightarrow> Some (errorf (''runtime configuration (properties) is mandatory but missing or empty for component '' @ acomp))
      | Some rc \<Rightarrow>
          if rc_replicas rc = None then
            Some (errorf (''runtime config missing required 'replicas' for component '' @ acomp))
          else if (case rc_image rc of None \<Rightarrow> True
                   | Some i \<Rightarrow> img_repository i = [] \<and> img_tag i = []) then
            Some (errorf (''runtime config is missing required 'image' for component '' @ acomp))
          else if rc_ports rc = [] then
            Some (errorf (''runtime config is missing required 'ports' configuration for component '' @ acomp))
          else if is_stateful_set then
            (case rc_storage rc of
               None \<Rightarrow> Some (errorf (''runtime workload is StatefulSet but Storage configuration is missing or disabled for component '' @ acomp))
             | Some s \<Rightarrow>
                 if \<not> so_enabled s then
                   Some (errorf (''runtime workload is StatefulSet but Storage configuration is missing or disabled for component '' @ acomp))
                 else if so_enabled s \<and> so_size s = None then
                   Some (errorf (''runtime Storage is enabled but 'size' is missing for component '' @ acomp))
                 else if so_enabled s \<and> so_mountPath s = [] then
                   Some (errorf (''runtime Storage is enabled but 'mountPath' is missing for component '' @ acomp))
                 else None)
          else None)"

text \<open>What a configuration that passes has.\<close>

lemma verifyParameters_None:
  assumes "verifyParameters (Some rc) acomp = None"
  obtains n i s q where "rc_replicas rc = Some n" "rc_image rc = Some i"
    "img_repository i \<noteq> [] \<or> img_tag i \<noteq> []" "rc_ports rc \<noteq> []"
    "rc_storage rc = Some s" "so_enabled s" "so_size s = Some q" "so_mountPath s \<noteq> []"
  using assms by (auto simp: verifyParameters_def Let_def split: option.splits if_splits)

subsection \<open>The runtime strategy: pod parts\<close>

text \<open>
  Reading through a nil \<^verbatim>\<open>Image\<close> would panic; the model returns \<open>nil_dereference\<close> there, and
  \<open>BuildObjects\<close> never reaches it because the validation has checked the image.
\<close>

definition nil_dereference :: goerror where
  "nil_dereference = errorf ''runtime error: invalid memory address or nil pointer dereference''"

definition buildRuntimeMainContainerSpec :: "runtimeConfig \<Rightarrow> string \<Rightarrow> goerror + container" where
  "buildRuntimeMainContainerSpec rc instanceName =
     (case rc_image rc of
        None \<Rightarrow> Inl nil_dereference
      | Some i \<Rightarrow>
          Inr \<lparr>ct_name = DeriveContainerName instanceName,
            ct_image = BuildImageName (img_repository i) (img_tag i),
            ct_imagePullPolicy = GetImagePullPolicy (img_pullPolicy i) (img_tag i),
            ct_command = rc_command rc, ct_args = rc_args rc,
            ct_ports = BuildContainerPorts (rc_ports rc),
            ct_env = rc_env rc, ct_envFrom = rc_envFrom rc,
            ct_resources = BuildK8sResourceRequirements (rc_resources rc),
            ct_livenessProbe =
              (case rc_probes rc of None \<Rightarrow> None | Some p \<Rightarrow> BuildProbe (pc_liveness p)),
            ct_readinessProbe =
              (case rc_probes rc of None \<Rightarrow> None | Some p \<Rightarrow> BuildProbe (pc_readiness p)),
            ct_startupProbe =
              (case rc_probes rc of None \<Rightarrow> None | Some p \<Rightarrow> BuildProbe (pc_startup p)),
            ct_securityContext =
              GetContainerSecurityContextOrDefault (rc_containerSecurityContext rc),
            ct_volumeMounts = []\<rparr>)"

definition enabled_storage :: "runtimeConfig \<Rightarrow> storageSpec option" where
  "enabled_storage rc =
     (case rc_storage rc of
        None \<Rightarrow> None | Some s \<Rightarrow> if is_stateful_set \<and> so_enabled s then Some s else None)"

definition enabled_persistence :: "runtimeConfig \<Rightarrow> persistenceSpec option" where
  "enabled_persistence rc =
     (case rc_persistence rc of
        None \<Rightarrow> None | Some p \<Rightarrow> if \<not> is_stateful_set \<and> pe_enabled p then Some p else None)"

text \<open>The address of a field is never nil, so the two defaults below are never taken.\<close>

definition persistence_volume_name :: "persistenceSpec \<Rightarrow> string \<Rightarrow> string" where
  "persistence_volume_name p instanceName =
     GetStringValueOrDefault (Some (pe_volumeName p)) (DeriveResourceName instanceName @ ''-pvc-vol'')"

definition init_container_target :: "runtimeConfig \<Rightarrow> string \<Rightarrow> string \<times> string" where
  "init_container_target rc instanceName =
     (case enabled_storage rc of
        Some s \<Rightarrow>
          (so_mountPath s, GetStringValueOrDefault (Some (so_volumeClaimTemplateName s)) ''data'')
      | None \<Rightarrow>
          (case enabled_persistence rc of
             Some p \<Rightarrow> (pe_mountPath p, persistence_volume_name p instanceName)
           | None \<Rightarrow> ([], [])))"

definition init_container_owner :: "runtimeConfig \<Rightarrow> int64 \<times> int64" where
  "init_container_owner rc =
     (let gid = (case rc_podSecurityContext rc of None \<Rightarrow> 1000
                 | Some p \<Rightarrow> value_or (psc_fsGroup p) 1000)
      in case rc_containerSecurityContext rc of
           None \<Rightarrow> (1000, gid)
         | Some c \<Rightarrow> (value_or (sc_runAsUser c) 1000, value_or (sc_runAsGroup c) gid))"

definition buildRuntimeInitContainers :: "runtimeConfig \<Rightarrow> string \<Rightarrow> container list" where
  "buildRuntimeInitContainers rc instanceName =
     (if rc_initContainer rc = None then []
      else
        let (persistentMountPath, persistentVolumeName) = init_container_target rc instanceName;
            (ownerUID, ownerGID) = init_container_owner rc
        in if persistentMountPath \<noteq> [] \<and> persistentVolumeName \<noteq> [] then
             [(BuildEnsureDirectoryContainer ''init-ensure-data-dir'' [] persistentMountPath
                 ownerUID ownerGID)
               \<lparr>ct_volumeMounts := [\<lparr>vm_name = persistentVolumeName,
                  vm_mountPath = persistentMountPath, vm_subPath = [], vm_readOnly = False\<rparr>]\<rparr>]
           else [])"

definition buildRuntimeVolumes :: "runtimeConfig \<Rightarrow> string \<Rightarrow> volume list" where
  "buildRuntimeVolumes rc instanceName =
     BuildVolumesFromConfigMaps (rc_configMounts rc)
     @ BuildVolumesFromSecrets (rc_secretMounts rc)
     @ (case enabled_persistence rc of
          None \<Rightarrow> []
        | Some p \<Rightarrow>
            [\<lparr>vol_name = persistence_volume_name p instanceName,
              vol_source = PVCVolume (DeriveResourceName instanceName @ ''-pvc'') False\<rparr>])"

definition buildRuntimeVolumeMounts :: "runtimeConfig \<Rightarrow> string \<Rightarrow> volumeMount list" where
  "buildRuntimeVolumeMounts rc instanceName =
     BuildVolumeMountsFromConfigMaps (rc_configMounts rc)
     @ BuildVolumeMountsFromSecrets (rc_secretMounts rc)
     @ (case enabled_persistence rc of
          None \<Rightarrow> []
        | Some p \<Rightarrow>
            BuildPersistentVolumeMounts (Some p) (persistence_volume_name p instanceName))
     @ (case enabled_storage rc of
          None \<Rightarrow> []
        | Some s \<Rightarrow> BuildVolumeMountsFromStorage (Some s))"

definition ShouldBuildClientService :: "serviceSpecPart option \<Rightarrow> bool" where
  "ShouldBuildClientService svcConfig =
     (case svcConfig of
        None \<Rightarrow> False
      | Some s \<Rightarrow>
          if ss_ports s = [] then False
          else if ss_type s = Some ''ClusterIP'' then True
          else if ss_type s = Some ClusterIPNone then False
          else True)"

end
