(* ===== verification/RuntimeBuilder.thy ===== *)
theory RuntimeBuilder
  imports Builder
begin

text \<open>
  \<^verbatim>\<open>RuntimeBuilderStrategy.BuildObjects\<close> of \<^verbatim>\<open>pkg/builders/runtime/builder.go\<close>, in its parts (the
  configuration maps with their hashes, the workload, the services, the service account, the
  shared claim) and composed. The lemmas state what is built from a valid configuration: the
  object list, the consistency between the pod, its volumes and the selectors, and when a
  configuration change stamps the pods for a restart. The contract of a builder strategy that
  the controller relies on is the interface \<open>builder_strategy\<close>, interpreted on this one.
\<close>

subsection \<open>Configuration maps and the restart stamp\<close>

definition restart_key :: string where
  "restart_key = ''runtime-operator/restartedAt''"

text \<open>One ConfigMap: remember its hash in the status annotations; did it change?\<close>

definition note_config_hash ::
    "(str_map \<Rightarrow> string) \<Rightarrow> kobject \<Rightarrow> bool \<times> appDef \<Rightarrow> bool \<times> appDef" where
  "note_config_hash hash cmObj st =
     (case ko_body cmObj of
        ConfigMap data _ \<Rightarrow>
          (let hashV = hash data; (needRestart, app) = st in
           if st_annotations (ad_status app) (get_name cmObj) \<noteq> Some hashV
           then (True, with_status (\<lambda>s. s\<lparr>st_annotations :=
                   (st_annotations s)(get_name cmObj \<mapsto> hashV)\<rparr>) app)
           else (needRestart, app))
      | _ \<Rightarrow> st)"

definition build_config_objects ::
    "(str_map \<Rightarrow> string) \<Rightarrow> string \<Rightarrow> runtimeConfig \<Rightarrow> string \<Rightarrow> string \<Rightarrow> str_map \<Rightarrow> appDef
      \<Rightarrow> (goerror + kobject list \<times> str_map) \<times> appDef" where
  "build_config_objects hash now rc instanceName namespace commonLabels app =
     (if rc_configFiles rc = [] then (Inr ([], Map.empty), app)
      else case BuildConfigMapsFromAppData (rc_configFiles rc)
                  (DeriveResourceName instanceName @ ''-config'') namespace commonLabels of
        Inl e \<Rightarrow> (Inl (wrapf (''failed to build ConfigMaps from ConfigFiles for '' @ instanceName @ '': '') e), app)
      | Inr cmObjects \<Rightarrow>
          (let (needRestart, app) = fold (note_config_hash hash) cmObjects (False, app)
           in (Inr (cmObjects, if needRestart then [restart_key \<mapsto> now] else Map.empty), app)))"

subsection \<open>Workload, services, service account, shared claim\<close>

definition build_workload ::
    "runtimeConfig \<Rightarrow> string \<Rightarrow> string \<Rightarrow> str_map \<Rightarrow> str_map \<Rightarrow> podTemplateSpec \<Rightarrow> pvcTemplate list
      \<Rightarrow> kobject" where
  "build_workload rc instanceName namespace commonLabels selectorLabels template vcts =
     BuildStatefulSet
       (BuildObjectMeta (DeriveResourceName instanceName) namespace commonLabels Map.empty)
       \<lparr>sts_replicas = Some (GetInt32ValueOrDefault (rc_replicas rc) 1),
        sts_selector = selectorLabels,
        sts_template = template,
        sts_volumeClaimTemplates = vcts,
        sts_serviceName = DeriveResourceName instanceName @ ''-headless'',
        sts_updateStrategy = GetStatefulSetUpdateStrategyOrDefault (rc_updateStrategy rc),
        sts_podManagementPolicy =
          GetStatefulSetPodManagementPolicyOrDefault (rc_podManagementPolicy rc)\<rparr>"

definition build_headless ::
    "runtimeConfig \<Rightarrow> string \<Rightarrow> string \<Rightarrow> str_map \<Rightarrow> str_map \<Rightarrow> kobject" where
  "build_headless rc instanceName namespace commonLabels selectorLabels =
     BuildHeadlessService
       (BuildObjectMeta (DeriveResourceName instanceName @ ''-headless'') namespace commonLabels Map.empty)
       selectorLabels (BuildServicePorts (rc_ports rc))"

definition build_client_service ::
    "runtimeConfig \<Rightarrow> string \<Rightarrow> string \<Rightarrow> str_map \<Rightarrow> str_map \<Rightarrow> kobject list" where
  "build_client_service rc instanceName namespace commonLabels selectorLabels =
     (case rc_service rc of
        None \<Rightarrow> []
      | Some s \<Rightarrow>
          if ShouldBuildClientService (Some s) then
            [BuildService
               (BuildObjectMeta (DeriveResourceName instanceName) namespace commonLabels (ss_annotations s))
               selectorLabels
               \<lparr>svc_selector = selectorLabels, svc_clusterIP = [],
                svc_type = value_or (ss_type s) ''ClusterIP'',
                svc_ports = BuildServicePorts (ss_ports s),
                svc_sessionAffinity = value_or (ss_sessionAffinity s) [],
                svc_sessionAffinityConfig = ss_sessionAffinityConfig s\<rparr>]
          else [])"

definition build_service_account ::
    "runtimeConfig \<Rightarrow> string \<Rightarrow> string \<Rightarrow> str_map \<Rightarrow> kobject list" where
  "build_service_account rc serviceAccountName namespace commonLabels =
     (case rc_serviceAccount rc of
        None \<Rightarrow> []
      | Some sa \<Rightarrow>
          if GetBoolValueOrDefault (sa_create sa) True
          then [BuildServiceAccount
                  (BuildObjectMeta serviceAccountName namespace commonLabels (sa_annotations sa))]
          else [])"

definition build_shared_pvc ::
    "runtimeConfig \<Rightarrow> string \<Rightarrow> string \<Rightarrow> str_map \<Rightarrow> goerror + kobject list" where
  "build_shared_pvc rc instanceName namespace commonLabels =
     (case enabled_persistence rc of
        None \<Rightarrow> Inr []
      | Some p \<Rightarrow>
          (case snd (BuildSharedPVCPVC (Some p) instanceName namespace commonLabels) of
             Inl e \<Rightarrow> Inl (wrapf (''failed to build shared PVC for '' @ instanceName @ '': '') e)
           | Inr None \<Rightarrow> Inr []
           | Inr (Some pvc) \<Rightarrow>
               Inr [pvc\<lparr>ko_meta := (ko_meta pvc)\<lparr>
                 om_name := DeriveResourceName instanceName @ ''-pvc'',
                 om_namespace := namespace, om_labels := commonLabels\<rparr>\<rparr>]))"

subsection \<open>BuildObjects\<close>

definition pod_template ::
    "runtimeConfig \<Rightarrow> string \<Rightarrow> str_map \<Rightarrow> str_map \<Rightarrow> container \<Rightarrow> str_map
      \<Rightarrow> goerror + podTemplateSpec" where
  "pod_template rc instanceName commonLabels selectorLabels mainContainer podAnnotations =
     BuildPodTemplateSpec
       [mainContainer\<lparr>ct_volumeMounts := buildRuntimeVolumeMounts rc instanceName\<rparr>]
       (buildRuntimeInitContainers rc instanceName)
       (buildRuntimeVolumes rc instanceName)
       (GetPodSecurityContextOrDefault (rc_podSecurityContext rc))
       (DeriveServiceAccountName instanceName (rc_serviceAccount rc))
       (rc_nodeSelector rc) (rc_tolerations rc) (GetAffinityOrDefault (rc_affinity rc))
       (MergeMaps commonLabels selectorLabels) podAnnotations"

definition build_from_config ::
    "(str_map \<Rightarrow> string) \<Rightarrow> string \<Rightarrow> appDef \<Rightarrow> applicationComponent \<Rightarrow> runtimeConfig
      \<Rightarrow> (goerror + kobject list) \<times> appDef" where
  "build_from_config hash now app appComp rc =
     (let instanceName = ac_name appComp;
          namespace = app_namespace app;
          commonLabels = BuildCommonLabels (app_name app) (ac_type appComp) instanceName;
          selectorLabels = BuildSelectorLabels instanceName (ac_type appComp)
      in case buildRuntimeMainContainerSpec rc instanceName of
           Inl e \<Rightarrow> (Inl (wrapf (''failed to build runtime main container spec for '' @ instanceName @ '': '') e), app)
         | Inr mainContainer \<Rightarrow>
      (case build_config_objects hash now rc instanceName namespace commonLabels app of
         (Inl e, app') \<Rightarrow> (Inl e, app')
       | (Inr (cmObjects, podAnnotations), app') \<Rightarrow>
      (case pod_template rc instanceName commonLabels selectorLabels mainContainer podAnnotations of
         Inl e \<Rightarrow> (Inl (wrapf (''failed to build final PodTemplateSpec for runtime '' @ instanceName @ '': '') e), app')
       | Inr template \<Rightarrow>
      (case BuildVolumeClaimTemplates (rc_storage rc) commonLabels of
         Inl e \<Rightarrow> (Inl (wrapf (''failed to build VCTs for Runtime '' @ instanceName @ '': '') e), app')
       | Inr vcts \<Rightarrow>
      (case build_shared_pvc rc instanceName namespace commonLabels of
         Inl e \<Rightarrow> (Inl e, app')
       | Inr pvcObjects \<Rightarrow>
           (Inr (cmObjects
             @ [build_workload rc instanceName namespace commonLabels selectorLabels template vcts,
                build_headless rc instanceName namespace commonLabels selectorLabels]
             @ build_client_service rc instanceName namespace commonLabels selectorLabels
             @ build_service_account rc (DeriveServiceAccountName instanceName (rc_serviceAccount rc))
                 namespace commonLabels
             @ pvcObjects), app'))))))"

definition BuildObjects ::
    "(str_map \<Rightarrow> string) \<Rightarrow> string \<Rightarrow> appDef \<Rightarrow> applicationComponent \<Rightarrow> runtimeConfig option
      \<Rightarrow> (goerror + kobject list) \<times> appDef" where
  "BuildObjects hash now app appComp appSpecificConfig =
     (case appSpecificConfig of
        None \<Rightarrow> (Inl (errorf (''internal error: expected *common.RuntimeConfig for component ''
                  @ squote (ac_name appComp) @ '' but received type <nil>'')), app)
      | Some rc \<Rightarrow>
          (case verifyParameters (Some rc) appComp of
             Some e \<Rightarrow> (Inl (wrapf (''failed to validate RuntimeConfig for component ''
                         @ squote (ac_name appComp) @ '': '') e), app)
           | None \<Rightarrow> build_from_config hash now app appComp rc))"

subsection \<open>What the parts build\<close>

definition config_map_name :: "string \<Rightarrow> string" where
  "config_map_name instanceName = DeriveResourceName instanceName @ ''-config''"

definition config_changed :: "(str_map \<Rightarrow> string) \<Rightarrow> runtimeConfig \<Rightarrow> string \<Rightarrow> appDef \<Rightarrow> bool" where
  "config_changed hash rc instanceName app \<longleftrightarrow>
     rc_configFiles rc \<noteq> [] \<and>
     st_annotations (ad_status app) (config_map_name instanceName) \<noteq> Some (hash (map_of (rc_configFiles rc)))"

definition config_map_object :: "runtimeConfig \<Rightarrow> string \<Rightarrow> string \<Rightarrow> str_map \<Rightarrow> kobject" where
  "config_map_object rc instanceName namespace labels =
     BuildConfigMap (BuildObjectMeta (config_map_name instanceName) namespace labels Map.empty)
       (map_of (rc_configFiles rc)) None"

definition record_hash :: "(str_map \<Rightarrow> string) \<Rightarrow> runtimeConfig \<Rightarrow> string \<Rightarrow> appDef \<Rightarrow> appDef" where
  "record_hash hash rc instanceName app =
     (if config_changed hash rc instanceName app
      then with_status (\<lambda>s. s\<lparr>st_annotations := (st_annotations s)
             (config_map_name instanceName \<mapsto> hash (map_of (rc_configFiles rc)))\<rparr>) app
      else app)"

lemma build_config_objects_eq:
  "build_config_objects hash now rc i ns labels app =
     (Inr (if rc_configFiles rc = [] then [] else [config_map_object rc i ns labels],
           if config_changed hash rc i app then [restart_key \<mapsto> now] else Map.empty),
      record_hash hash rc i app)"
  by (simp add: build_config_objects_def BuildConfigMapsFromAppData_def note_config_hash_def
      config_changed_def config_map_object_def record_hash_def config_map_name_def BuildConfigMap_def
      BuildObjectMeta_def get_name_def Let_def)

lemma record_hash_simps [simp]:
  "ad_meta (record_hash hash rc i app) = ad_meta app"
  "ad_spec (record_hash hash rc i app) = ad_spec app"
  by (simp_all add: record_hash_def)

lemma record_hash_frame:
  "st_phase (ad_status (record_hash hash rc i app)) = st_phase (ad_status app)"
  "st_suspendedReplicas (ad_status (record_hash hash rc i app)) = st_suspendedReplicas (ad_status app)"
  "st_conditions (ad_status (record_hash hash rc i app)) = st_conditions (ad_status app)"
  "st_lastChangeID (ad_status (record_hash hash rc i app)) = st_lastChangeID (ad_status app)"
  by (simp_all add: record_hash_def)

lemma record_hash_settles: "\<not> config_changed hash rc i (record_hash hash rc i app)"
  by (simp add: record_hash_def config_changed_def)

lemma no_enabled_persistence [simp]: "enabled_persistence rc = None"
  by (simp add: enabled_persistence_def split: option.splits)

lemma build_shared_pvc_Nil [simp]: "build_shared_pvc rc i ns labels = Inr []"
  by (simp add: build_shared_pvc_def)

text \<open>The pod template of a component, and the objects of a component, as plain expressions.\<close>

definition template_of ::
    "runtimeConfig \<Rightarrow> string \<Rightarrow> container \<Rightarrow> str_map \<Rightarrow> str_map \<Rightarrow> str_map \<Rightarrow> podTemplateSpec" where
  "template_of rc i ct commonLabels selectorLabels podAnnotations =
     \<lparr>pt_labels = MergeMaps commonLabels selectorLabels, pt_annotations = podAnnotations,
      pt_spec = \<lparr>ps_initContainers = buildRuntimeInitContainers rc i,
        ps_containers = [ct\<lparr>ct_volumeMounts := buildRuntimeVolumeMounts rc i\<rparr>],
        ps_volumes = buildRuntimeVolumes rc i,
        ps_serviceAccountName = DeriveServiceAccountName i (rc_serviceAccount rc),
        ps_securityContext = rc_podSecurityContext rc, ps_nodeSelector = rc_nodeSelector rc,
        ps_tolerations = rc_tolerations rc, ps_affinity = rc_affinity rc,
        ps_restartPolicy = ''Always''\<rparr>\<rparr>"

lemma pod_template_eq:
  "pod_template rc i cl sl ct ann = Inr (template_of rc i ct cl sl ann)"
  by (simp add: pod_template_def BuildPodTemplateSpec_def template_of_def
      GetPodSecurityContextOrDefault_def GetAffinityOrDefault_def option.case_eq_if)

definition component_objects ::
    "(str_map \<Rightarrow> string) \<Rightarrow> string \<Rightarrow> appDef \<Rightarrow> applicationComponent \<Rightarrow> runtimeConfig \<Rightarrow> container \<Rightarrow> pvcTemplate
      \<Rightarrow> kobject list" where
  "component_objects hash now app c rc ct vct =
     (let i = ac_name c; ns = app_namespace app;
          cl = BuildCommonLabels (app_name app) (ac_type c) i;
          sl = BuildSelectorLabels i (ac_type c);
          ann = (if config_changed hash rc i app then [restart_key \<mapsto> now] else Map.empty)
      in (if rc_configFiles rc = [] then [] else [config_map_object rc i ns cl])
         @ [build_workload rc i ns cl sl (template_of rc i ct cl sl ann) [vct],
            build_headless rc i ns cl sl]
         @ build_client_service rc i ns cl sl
         @ build_service_account rc (DeriveServiceAccountName i (rc_serviceAccount rc)) ns cl)"

text \<open>
  A configuration that passes validation is built: none of the later errors of \<^verbatim>\<open>BuildObjects\<close>
  (a missing container, volume claim size or mount path, a shared claim) can occur.
\<close>

lemma BuildObjects_valid:
  assumes "verifyParameters (Some rc) c = None"
  obtains s q ct vct where "buildRuntimeMainContainerSpec rc (ac_name c) = Inr ct"
    "rc_storage rc = Some s" "so_enabled s" "so_size s = Some q"
    "vct_name vct = (if so_volumeClaimTemplateName s = [] then ''data'' else so_volumeClaimTemplateName s)"
    "vct_labels vct = BuildCommonLabels (app_name app) (ac_type c) (ac_name c)"
    "BuildObjects hash now app c (Some rc) =
       (Inr (component_objects hash now app c rc ct vct), record_hash hash rc (ac_name c) app)"
proof -
  from assms obtain n im s q where rc: "rc_image rc = Some im" "rc_storage rc = Some s"
      "so_enabled s" "so_size s = Some q" "so_mountPath s \<noteq> []"
    by (rule verifyParameters_None)
  let ?cl = "BuildCommonLabels (app_name app) (ac_type c) (ac_name c)"
  obtain v where v: "BuildVolumeClaimTemplates (Some s) ?cl = Inr [v]" "vct_labels v = ?cl"
      "vct_name v = (if so_volumeClaimTemplateName s = [] then ''data'' else so_volumeClaimTemplateName s)"
    using BuildVolumeClaimTemplates_ok rc by metis
  from rc obtain ct where ct: "buildRuntimeMainContainerSpec rc (ac_name c) = Inr ct"
    by (simp add: buildRuntimeMainContainerSpec_def)
  have "BuildObjects hash now app c (Some rc) =
      (Inr (component_objects hash now app c rc ct v), record_hash hash rc (ac_name c) app)"
    using rc v
    by (simp add: BuildObjects_def assms build_from_config_def Let_def ct build_config_objects_eq
        pod_template_eq component_objects_def)
  with that ct rc v show ?thesis by blast
qed

lemma BuildObjects_invalid:
  assumes "fst (BuildObjects hash now app c cfg) = Inl e"
  shows "cfg = None \<or> (\<exists>rc e'. cfg = Some rc \<and> verifyParameters (Some rc) c = Some e')"
proof (cases cfg)
  case (Some rc)
  show ?thesis
  proof (cases "verifyParameters (Some rc) c")
    case None
    then show ?thesis
      by (rule BuildObjects_valid [of rc c app hash now]) (use assms Some in auto)
  qed (use Some in auto)
qed simp

subsection \<open>The objects of one component\<close>

lemma object_name_simps [simp]:
  "get_name (config_map_object rc i ns cl) = config_map_name i"
  "get_name (build_workload rc i ns cl sl t vcts) = DeriveResourceName i"
  "get_name (build_headless rc i ns cl sl) = DeriveResourceName i @ ''-headless''"
  "get_namespace (config_map_object rc i ns cl) = ns"
  "get_namespace (build_workload rc i ns cl sl t vcts) = ns"
  "get_namespace (build_headless rc i ns cl sl) = ns"
  "ko_kind (config_map_object rc i ns cl) = ''ConfigMap''"
  "ko_kind (build_workload rc i ns cl sl t vcts) = ''StatefulSet''"
  "ko_kind (build_headless rc i ns cl sl) = ''Service''"
  "ko_apiVersion (config_map_object rc i ns cl) = ''v1''"
  "ko_apiVersion (build_workload rc i ns cl sl t vcts) = ''apps/v1''"
  "ko_apiVersion (build_headless rc i ns cl sl) = ''v1''"
  by (simp_all add: object_defs config_map_object_def build_workload_def build_headless_def
      BuildConfigMap_def BuildStatefulSet_def BuildHeadlessService_def BuildObjectMeta_def)

lemma client_service_objects:
  "build_client_service rc i ns cl sl = [] \<or>
   (\<exists>s. build_client_service rc i ns cl sl = [s] \<and> get_name s = DeriveResourceName i \<and>
        get_namespace s = ns \<and> ko_kind s = ''Service'' \<and> ko_apiVersion s = ''v1'')"
  by (auto simp: build_client_service_def BuildService_def BuildObjectMeta_def object_defs
      split: option.splits)

lemma service_account_objects:
  "build_service_account rc san ns cl = [] \<or>
   (\<exists>s. build_service_account rc san ns cl = [s] \<and> get_name s = san \<and> get_namespace s = ns \<and>
        ko_kind s = ''ServiceAccount'' \<and> ko_apiVersion s = ''v1'')"
  by (auto simp: build_service_account_def BuildServiceAccount_def BuildObjectMeta_def object_defs
      split: option.splits)

lemma component_objects_keys:
  "distinct (map (\<lambda>obj. (ko_kind obj, get_name obj)) (component_objects hash now app c rc ct vct))"
proof -
  let ?i = "ac_name c" and ?ns = "app_namespace app"
  let ?cl = "BuildCommonLabels (app_name app) (ac_type c) ?i"
    and ?sl = "BuildSelectorLabels ?i (ac_type c)"
    and ?san = "DeriveServiceAccountName ?i (rc_serviceAccount rc)"
  show ?thesis
    using client_service_objects [of rc ?i ?ns ?cl ?sl]
      service_account_objects [of rc ?san ?ns ?cl]
    unfolding component_objects_def Let_def
    by (elim disjE exE conjE) simp_all
qed

lemma DeriveServiceAccountName_named:
  assumes "sa_create sa = Some True"
  shows "DeriveServiceAccountName i (Some sa) \<noteq> []"
  using assms by (auto simp: DeriveServiceAccountName_def Let_def to_lower_def)

text \<open>What the controller asks of every object: a name, a namespace and a kind.\<close>

definition well_named :: "string \<Rightarrow> kobject \<Rightarrow> bool" where
  "well_named ns obj \<longleftrightarrow>
     get_name obj \<noteq> [] \<and> get_namespace obj = ns \<and> ko_kind obj \<noteq> [] \<and>
     ko_apiVersion obj \<in> {''v1'', ''apps/v1''}"

definition service_account_named :: "runtimeConfig \<Rightarrow> bool" where
  "service_account_named rc \<longleftrightarrow>
     (case rc_serviceAccount rc of None \<Rightarrow> True | Some sa \<Rightarrow> sa_create sa \<noteq> None)"

lemma service_account_well_named:
  assumes "service_account_named rc"
    "obj \<in> set (build_service_account rc (DeriveServiceAccountName i (rc_serviceAccount rc)) ns cl)"
  shows "well_named ns obj"
proof -
  from assms obtain sa where "rc_serviceAccount rc = Some sa" "sa_create sa = Some True"
    by (auto simp: build_service_account_def service_account_named_def split: option.splits if_splits)
  with DeriveServiceAccountName_named
    service_account_objects [of rc "DeriveServiceAccountName i (rc_serviceAccount rc)" ns cl]
    assms(2) show ?thesis
    by (auto simp: well_named_def)
qed

lemma component_objects_well_named:
  assumes "service_account_named rc" "DeriveResourceName (ac_name c) \<noteq> []"
    "obj \<in> set (component_objects hash now app c rc ct vct)"
  shows "well_named (app_namespace app) obj"
proof -
  let ?i = "ac_name c" and ?ns = "app_namespace app"
  let ?cl = "BuildCommonLabels (app_name app) (ac_type c) ?i"
    and ?sl = "BuildSelectorLabels ?i (ac_type c)"
  have "well_named ?ns s" if "s \<in> set (build_client_service rc ?i ?ns ?cl ?sl)" for s
    using that client_service_objects [of rc ?i ?ns ?cl ?sl] assms(2) by (auto simp: well_named_def)
  moreover have "well_named ?ns s"
    if "s \<in> set (build_service_account rc (DeriveServiceAccountName ?i (rc_serviceAccount rc)) ?ns ?cl)" for s
    by (rule service_account_well_named [OF assms(1) that])
  moreover have "well_named ?ns (config_map_object rc ?i ?ns ?cl)"
    by (simp add: well_named_def config_map_name_def)
  ultimately show ?thesis
    using assms(2,3) by (auto simp: component_objects_def Let_def well_named_def split: if_splits)
qed

subsection \<open>The contract of a builder strategy\<close>

text \<open>
  What the controller relies on when it dispatches to a strategy: an accepted configuration is
  built, its objects carry name, namespace and kind, and of the application only the status
  annotations change.
\<close>

definition same_but_annotations :: "appDef \<Rightarrow> appDef \<Rightarrow> bool" where
  "same_but_annotations a b \<longleftrightarrow>
     ad_meta b = ad_meta a \<and> ad_spec b = ad_spec a \<and>
     ad_status b = (ad_status a)\<lparr>st_annotations := st_annotations (ad_status b)\<rparr>"

lemma same_but_annotations_refl [simp]: "same_but_annotations a a"
  by (simp add: same_but_annotations_def)

lemma same_but_annotations_trans:
  "same_but_annotations a b \<Longrightarrow> same_but_annotations b c \<Longrightarrow> same_but_annotations a c"
  unfolding same_but_annotations_def by (metis applicationStatus.surjective applicationStatus.update_convs(7))

lemma same_but_annotations_frame:
  assumes "same_but_annotations a b"
  shows "app_namespace b = app_namespace a" "app_name b = app_name a" "app_phase b = app_phase a"
    "is_suspended b = is_suspended a"
    "st_suspendedReplicas (ad_status b) = st_suspendedReplicas (ad_status a)"
    "st_conditions (ad_status b) = st_conditions (ad_status a)"
    "st_observedGeneration (ad_status b) = st_observedGeneration (ad_status a)"
    "st_lastChangeID (ad_status b) = st_lastChangeID (ad_status a)"
proof -
  from assms have m: "ad_meta b = ad_meta a" "ad_spec b = ad_spec a"
    and s: "ad_status b = (ad_status a)\<lparr>st_annotations := st_annotations (ad_status b)\<rparr>"
    by (simp_all add: same_but_annotations_def)
  show "app_namespace b = app_namespace a" "app_name b = app_name a" "is_suspended b = is_suspended a"
    using m by (simp_all add: app_namespace_def app_name_def is_suspended_def)
  show "app_phase b = app_phase a" unfolding app_phase_def by (subst s) simp
  show "st_suspendedReplicas (ad_status b) = st_suspendedReplicas (ad_status a)" by (subst s) simp
  show "st_conditions (ad_status b) = st_conditions (ad_status a)" by (subst s) simp
  show "st_observedGeneration (ad_status b) = st_observedGeneration (ad_status a)" by (subst s) simp
  show "st_lastChangeID (ad_status b) = st_lastChangeID (ad_status a)" by (subst s) simp
qed

locale builder_strategy =
  fixes build :: "appDef \<Rightarrow> applicationComponent \<Rightarrow> 'cfg \<Rightarrow> (goerror + kobject list) \<times> appDef"
    and accepts :: "applicationComponent \<Rightarrow> 'cfg \<Rightarrow> bool"
  assumes build_accepted:
      "accepts c cfg \<Longrightarrow> \<exists>objs app'. build app c cfg = (Inr objs, app')"
    and build_well_named:
      "accepts c cfg \<Longrightarrow> build app c cfg = (Inr objs, app') \<Longrightarrow> obj \<in> set objs \<Longrightarrow>
        well_named (app_namespace app) obj"
    and build_frame: "build app c cfg = (r, app') \<Longrightarrow> same_but_annotations app app'"

definition runtime_accepts :: "applicationComponent \<Rightarrow> runtimeConfig option \<Rightarrow> bool" where
  "runtime_accepts c cfg \<longleftrightarrow>
     (case cfg of
        None \<Rightarrow> False
      | Some rc \<Rightarrow> verifyParameters (Some rc) c = None \<and> DeriveResourceName (ac_name c) \<noteq> [] \<and>
          service_account_named rc)"

lemma record_hash_same: "same_but_annotations app (record_hash hash rc i app)"
  by (simp add: same_but_annotations_def record_hash_def)

lemma BuildObjects_frame:
  "BuildObjects hash now app c cfg = (r, app') \<Longrightarrow> same_but_annotations app app'"
  by (auto simp: BuildObjects_def build_from_config_def Let_def build_config_objects_eq
      record_hash_same split: option.splits sum.splits prod.splits)

interpretation runtime_strategy: builder_strategy "BuildObjects hash now" runtime_accepts
  for hash :: "str_map \<Rightarrow> string" and now :: string
proof unfold_locales
  fix c cfg app
  assume "runtime_accepts c cfg"
  then obtain rc where "cfg = Some rc" "verifyParameters (Some rc) c = None"
    by (auto simp: runtime_accepts_def split: option.splits)
  then show "\<exists>objs app'. BuildObjects hash now app c cfg = (Inr objs, app')"
    by (metis BuildObjects_valid)
next
  fix c cfg app objs app' obj
  assume acc: "runtime_accepts c cfg" and b: "BuildObjects hash now app c cfg = (Inr objs, app')"
    and obj: "obj \<in> set objs"
  from acc obtain rc where rc: "cfg = Some rc" "verifyParameters (Some rc) c = None"
      "DeriveResourceName (ac_name c) \<noteq> []" "service_account_named rc"
    by (auto simp: runtime_accepts_def split: option.splits)
  obtain ct vct where "objs = component_objects hash now app c rc ct vct"
    by (rule BuildObjects_valid [OF rc(2), of app hash now]) (use b rc(1) in auto)
  with component_objects_well_named [OF rc(4,3)] obj
  show "well_named (app_namespace app) obj" by simp
next
  fix app c cfg r app'
  assume "BuildObjects hash now app c cfg = (r, app')"
  then show "same_but_annotations app app'" by (rule BuildObjects_frame)
qed

subsection \<open>Properties\<close>

text \<open>
  C26. The builder refuses a component exactly when its configuration is missing or does not pass the
  validation; it then leaves the application as it was. Otherwise no later step of \<^verbatim>\<open>BuildObjects\<close> fails,
  and the objects it returns differ in kind or name.
\<close>

theorem build_decided_by_validation:
  "case BuildObjects hash now app c cfg of
     (Inl e, app') \<Rightarrow> \<not> (\<exists>rc. cfg = Some rc \<and> verifyParameters (Some rc) c = None) \<and> app' = app
   | (Inr objs, app') \<Rightarrow> (\<exists>rc. cfg = Some rc \<and> verifyParameters (Some rc) c = None) \<and>
       distinct (map (\<lambda>obj. (ko_kind obj, get_name obj)) objs)"
proof (cases cfg)
  case (Some rc)
  show ?thesis
  proof (cases "verifyParameters (Some rc) c")
    case None
    then show ?thesis
      by (rule BuildObjects_valid [of rc c app hash now]) (simp add: Some component_objects_keys None)
  qed (simp add: Some BuildObjects_def)
qed (simp add: BuildObjects_def)

lemma workload_of_objects:
  assumes "obj \<in> set (component_objects hash now app c rc ct vct)" "ko_body obj = StatefulSet spec st"
  shows "obj = build_workload rc (ac_name c) (app_namespace app)
    (BuildCommonLabels (app_name app) (ac_type c) (ac_name c)) (BuildSelectorLabels (ac_name c) (ac_type c))
    (template_of rc (ac_name c) ct (BuildCommonLabels (app_name app) (ac_type c) (ac_name c))
       (BuildSelectorLabels (ac_name c) (ac_type c))
       (if config_changed hash rc (ac_name c) app then [restart_key \<mapsto> now] else Map.empty)) [vct]"
  using assms
  by (auto simp: component_objects_def Let_def config_map_object_def BuildConfigMap_def build_headless_def
      BuildHeadlessService_def build_client_service_def BuildService_def build_service_account_def
      BuildServiceAccount_def split: if_splits option.splits)

text \<open>The workload of a build that succeeded, with its parts.\<close>

lemma built_workload:
  assumes "BuildObjects hash now app c (Some rc) = (Inr objs, app')"
    and "obj \<in> set objs" "ko_body obj = StatefulSet spec st"
  obtains s q ct vct ann where "rc_storage rc = Some s" "so_enabled s" "so_size s = Some q"
    "vct_name vct = (if so_volumeClaimTemplateName s = [] then ''data'' else so_volumeClaimTemplateName s)"
    "objs = component_objects hash now app c rc ct vct" "app' = record_hash hash rc (ac_name c) app"
    "sts_volumeClaimTemplates spec = [vct]" "sts_selector spec = BuildSelectorLabels (ac_name c) (ac_type c)"
    "sts_serviceName spec = DeriveResourceName (ac_name c) @ ''-headless''"
    "sts_template spec = template_of rc (ac_name c) ct (BuildCommonLabels (app_name app) (ac_type c) (ac_name c))
       (BuildSelectorLabels (ac_name c) (ac_type c)) ann"
    "ann = (if config_changed hash rc (ac_name c) app then [restart_key \<mapsto> now] else Map.empty)"
proof -
  from assms(1) have v: "verifyParameters (Some rc) c = None"
    by (auto simp: BuildObjects_def split: option.splits)
  show thesis
  proof (rule BuildObjects_valid [OF v, of app hash now])
    fix s q ct vct
    assume a: "rc_storage rc = Some s" "so_enabled s" "so_size s = Some q"
      "vct_name vct = (if so_volumeClaimTemplateName s = [] then ''data'' else so_volumeClaimTemplateName s)"
      "BuildObjects hash now app c (Some rc) =
       (Inr (component_objects hash now app c rc ct vct), record_hash hash rc (ac_name c) app)"
    with assms have o: "objs = component_objects hash now app c rc ct vct"
      "app' = record_hash hash rc (ac_name c) app" by simp_all
    with workload_of_objects assms(2,3) have "obj = build_workload rc (ac_name c) (app_namespace app)
      (BuildCommonLabels (app_name app) (ac_type c) (ac_name c)) (BuildSelectorLabels (ac_name c) (ac_type c))
      (template_of rc (ac_name c) ct (BuildCommonLabels (app_name app) (ac_type c) (ac_name c))
         (BuildSelectorLabels (ac_name c) (ac_type c))
         (if config_changed hash rc (ac_name c) app then [restart_key \<mapsto> now] else Map.empty)) [vct]"
      by metis
    with assms(3) show thesis
      by (intro that [OF a(1-4) o]) (auto simp: build_workload_def BuildStatefulSet_def)
  qed
qed

definition example_config :: runtimeConfig where
  "example_config =
     \<lparr>rc_replicas = Some 3,
      rc_image = Some \<lparr>img_repository = ''infinilabs/easysearch'', img_tag = ''1.8'', img_pullPolicy = []\<rparr>,
      rc_command = [], rc_args = [], rc_ports = [example_port ''http'' 9200 0], rc_initContainer = None,
      rc_resources = None, rc_env = [], rc_envFrom = [], rc_probes = None,
      rc_containerSecurityContext = None, rc_podSecurityContext = None, rc_serviceAccount = None,
      rc_nodeSelector = Map.empty, rc_tolerations = [], rc_affinity = None, rc_persistence = None,
      rc_storage = Some \<lparr>so_enabled = True, so_size = Some ''10Gi'', so_volumeClaimTemplateName = ''store'',
        so_mountPath = ''/data'', so_storageClassName = None, so_accessModes = [], so_dataSubpath = None\<rparr>,
      rc_service = None, rc_configFiles = [(''app.yml'', ''a: 1'')], rc_configMounts = [],
      rc_secretMounts = [], rc_additionalVolumes = [], rc_volumeMounts = [],
      rc_updateStrategy = None, rc_podManagementPolicy = None,
      rc_podDisruptionBudgetBeta1 = None, rc_podDisruptionBudget = None\<rparr>"

definition example_component :: applicationComponent where
  "example_component =
     \<lparr>ac_name = ''web'', ac_apiVersion = ''apps/v1'', ac_kind = ''StatefulSet'', ac_type = [],
      ac_properties = ''{}''\<rparr>"

definition example_app :: appDef where
  "example_app =
     \<lparr>ad_meta = empty_meta\<lparr>om_name := ''shop'', om_namespace := ''default'', om_generation := 1\<rparr>,
      ad_spec = \<lparr>as_components = [example_component], as_suspend = None\<rparr>, ad_status = empty_status\<rparr>"

lemma example_config_valid: "verifyParameters (Some example_config) example_component = None"
  by (simp add: verifyParameters_def example_config_def Let_def)

text \<open>Building a valid configuration gives a workload.\<close>

lemma valid_build:
  assumes "verifyParameters (Some rc) c = None"
  obtains objs app' obj spec where "BuildObjects hash now app c (Some rc) = (Inr objs, app')"
    "obj \<in> set objs" "ko_body obj = StatefulSet spec zero_sts_status"
proof (rule BuildObjects_valid [OF assms, of app hash now])
  fix ct vct
  assume b: "BuildObjects hash now app c (Some rc) =
       (Inr (component_objects hash now app c rc ct vct), record_hash hash rc (ac_name c) app)"
  let ?cl = "BuildCommonLabels (app_name app) (ac_type c) (ac_name c)"
    and ?sl = "BuildSelectorLabels (ac_name c) (ac_type c)"
  let ?w = "build_workload rc (ac_name c) (app_namespace app) ?cl ?sl (template_of rc (ac_name c) ct ?cl ?sl
      (if config_changed hash rc (ac_name c) app then [restart_key \<mapsto> now] else Map.empty)) [vct]"
  have w: "?w \<in> set (component_objects hash now app c rc ct vct)"
    unfolding component_objects_def Let_def by simp
  obtain spec where "ko_body ?w = StatefulSet spec zero_sts_status"
    by (simp add: build_workload_def BuildStatefulSet_def)
  then show thesis by (rule that [OF b w])
qed

lemmas example_build = valid_build [OF example_config_valid]

text \<open>Every service of a component selects by its labels.\<close>

lemma services_of_objects:
  assumes "svc \<in> set (component_objects hash now app c rc ct vct)" "ko_body svc = Service ss ingress"
  shows "svc_selector ss = BuildSelectorLabels (ac_name c) (ac_type c) \<and> get_namespace svc = app_namespace app"
  using assms
  by (auto simp: component_objects_def Let_def config_map_object_def BuildConfigMap_def build_headless_def
      BuildHeadlessService_def build_client_service_def BuildService_def build_service_account_def
      BuildServiceAccount_def build_workload_def BuildStatefulSet_def BuildObjectMeta_def object_defs
      split: if_splits option.splits)

text \<open>
  C27. The workload a build returns is consistent with itself and with the services that are built with
  it: its selector selects the pods of its template, its service is a headless service among the objects,
  and every service among them, the client service too, is in its namespace and selects the same pods.
\<close>

theorem workload_selects_its_pods:
  assumes "BuildObjects hash now app c (Some rc) = (Inr objs, app')"
    and "obj \<in> set objs" "ko_body obj = StatefulSet spec st"
  shows "sts_selector spec \<subseteq>\<^sub>m pt_labels (sts_template spec) \<and>
    (\<exists>svc \<in> set objs. get_name svc = sts_serviceName spec \<and>
      (\<exists>ss ingress. ko_body svc = Service ss ingress \<and> svc_clusterIP ss = ClusterIPNone)) \<and>
    (\<forall>svc \<in> set objs. \<forall>ss ingress. ko_body svc = Service ss ingress \<longrightarrow>
      svc_selector ss = sts_selector spec \<and> get_namespace svc = get_namespace obj)"
proof (rule built_workload [OF assms])
  fix s q ct vct ann
  let ?cl = "BuildCommonLabels (app_name app) (ac_type c) (ac_name c)"
    and ?sl = "BuildSelectorLabels (ac_name c) (ac_type c)"
  let ?svc = "build_headless rc (ac_name c) (app_namespace app) ?cl ?sl"
  assume o: "objs = component_objects hash now app c rc ct vct" and sel: "sts_selector spec = ?sl"
    and svc: "sts_serviceName spec = DeriveResourceName (ac_name c) @ ''-headless''"
    and t: "sts_template spec = template_of rc (ac_name c) ct ?cl ?sl ann"
  have "?svc \<in> set objs" by (simp add: o component_objects_def Let_def)
  moreover have "\<exists>ss ingress. ko_body ?svc = Service ss ingress \<and> svc_clusterIP ss = ClusterIPNone"
    by (simp add: build_headless_def BuildHeadlessService_def)
  moreover have "get_namespace obj = app_namespace app"
    using workload_of_objects assms(2,3) unfolding o by (metis object_name_simps(5))
  moreover have "?sl \<subseteq>\<^sub>m pt_labels (sts_template spec)"
    by (simp add: t template_of_def selector_selects_merged)
  moreover have "svc_selector ss = ?sl \<and> get_namespace svc' = app_namespace app"
    if "svc' \<in> set objs" "ko_body svc' = Service ss ingress" for svc' ss ingress
    using services_of_objects that unfolding o by blast
  ultimately show ?thesis unfolding sel svc by (metis object_name_simps(3))
qed

text \<open>The example with a client service on port 9200.\<close>

definition served_config :: runtimeConfig where
  "served_config = example_config\<lparr>rc_service := Some
     \<lparr>ss_type = None, ss_ports = [example_port ''http'' 9200 0], ss_annotations = Map.empty,
      ss_sessionAffinity = None, ss_sessionAffinityConfig = None\<rparr>\<rparr>"

theorem workload_selects_its_pods_witness:
  "\<exists>objs app' obj spec svc ss ingress. BuildObjects (\<lambda>_. ''h'') ''now'' example_app example_component (Some served_config)
      = (Inr objs, app') \<and> obj \<in> set objs \<and> ko_body obj = StatefulSet spec zero_sts_status \<and>
     svc \<in> set objs \<and> get_name svc = ''web'' \<and> ko_body svc = Service ss ingress \<and> svc_selector ss = sts_selector spec"
proof -
  have v: "verifyParameters (Some served_config) example_component = None"
    by (simp add: served_config_def verifyParameters_def example_config_def Let_def)
  show ?thesis
  proof (rule valid_build [OF v, of "\<lambda>_. ''h''" "''now''" example_app])
    fix objs app' obj spec
    assume a: "BuildObjects (\<lambda>_. ''h'') ''now'' example_app example_component (Some served_config) = (Inr objs, app')"
      "obj \<in> set objs" "ko_body obj = StatefulSet spec zero_sts_status"
    have "list_ex (\<lambda>svc. get_name svc = ''web'' \<and> (case ko_body svc of Service ss ingress \<Rightarrow> True | _ \<Rightarrow> False))
        (projr (fst (BuildObjects (\<lambda>_. ''h'') ''now'' example_app example_component (Some served_config))))" by code_simp
    with a(1) obtain svc where svc: "svc \<in> set objs" "get_name svc = ''web''"
      "case ko_body svc of Service ss ingress \<Rightarrow> True | _ \<Rightarrow> False"
      by (simp only: fst_conv sum.sel list_ex_iff) blast
    then obtain ss ingress where "ko_body svc = Service ss ingress" by (cases "ko_body svc") simp_all
    note s = svc(1,2) this
    from workload_selects_its_pods [OF a] s(1,3) have "svc_selector ss = sts_selector spec" by blast
    with a s show ?thesis by - (intro exI conjI, assumption+)
  qed
qed

text \<open>
  C28. Every volume mount of the main container names a volume of the pod or a volume claim template
  of the workload.
\<close>

theorem mounts_are_backed:
  assumes "BuildObjects hash now app c (Some rc) = (Inr objs, app')"
    and "obj \<in> set objs" "ko_body obj = StatefulSet spec st"
    and "ct \<in> set (ps_containers (pt_spec (sts_template spec)))" "m \<in> set (ct_volumeMounts ct)"
  shows "vm_name m \<in> set (map vol_name (ps_volumes (pt_spec (sts_template spec)))) \<union>
    set (map vct_name (sts_volumeClaimTemplates spec))"
proof (rule built_workload [OF assms(1-3)])
  fix s q ct0 vct ann
  assume s: "rc_storage rc = Some s" "so_enabled s"
    and v: "vct_name vct = (if so_volumeClaimTemplateName s = [] then ''data'' else so_volumeClaimTemplateName s)"
    and vs: "sts_volumeClaimTemplates spec = [vct]"
    and t: "sts_template spec = template_of rc (ac_name c) ct0 (BuildCommonLabels (app_name app) (ac_type c) (ac_name c))
       (BuildSelectorLabels (ac_name c) (ac_type c)) ann"
  from assms(4,5) t have m: "m \<in> set (buildRuntimeVolumeMounts rc (ac_name c))"
    by (simp add: template_of_def)
  have vols: "ps_volumes (pt_spec (sts_template spec)) = buildRuntimeVolumes rc (ac_name c)"
    by (simp add: t template_of_def)
  have "vm_name m \<in> set (map vol_name (config_volumes_from [] (rc_configMounts rc)))"
    if "m \<in> set (BuildVolumeMountsFromConfigMaps (rc_configMounts rc))"
    using that config_mounts.mounts_backed [of "rc_configMounts rc"] by auto
  moreover have "vm_name m \<in> set (map vol_name (secret_volumes_from [] (rc_secretMounts rc)))"
    if "m \<in> set (BuildVolumeMountsFromSecrets (rc_secretMounts rc))"
    using that secret_mounts.mounts_backed [of "rc_secretMounts rc"] by auto
  moreover have "vm_name m = vct_name vct" if "m \<in> set (BuildVolumeMountsFromStorage (Some s))"
    using storage_mounts_named [OF that] v by simp
  ultimately show ?thesis
    using m vs s unfolding vols
    by (auto simp: buildRuntimeVolumeMounts_def buildRuntimeVolumes_def enabled_storage_def
        BuildVolumesFromConfigMaps_eq BuildVolumesFromSecrets_eq)
qed

theorem mounts_are_backed_witness:
  "\<exists>objs app' obj spec. BuildObjects (\<lambda>_. ''h'') ''now'' example_app example_component (Some example_config)
      = (Inr objs, app') \<and> obj \<in> set objs \<and> ko_body obj = StatefulSet spec zero_sts_status \<and>
     (\<exists>ct \<in> set (ps_containers (pt_spec (sts_template spec))). \<exists>m \<in> set (ct_volumeMounts ct).
        vm_name m = ''store'' \<and> ''store'' \<in> set (map vol_name (ps_volumes (pt_spec (sts_template spec)))) \<union>
          set (map vct_name (sts_volumeClaimTemplates spec)))"
proof (rule example_build [of "\<lambda>_. ''h''" "''now''" example_app])
  fix objs app' obj spec
  assume a: "BuildObjects (\<lambda>_. ''h'') ''now'' example_app example_component (Some example_config) = (Inr objs, app')"
    "obj \<in> set objs" "ko_body obj = StatefulSet spec zero_sts_status"
  show ?thesis
  proof (rule built_workload [OF a])
    fix s q ct0 vct ann
    assume t: "sts_template spec = template_of example_config (ac_name example_component) ct0
      (BuildCommonLabels (app_name example_app) (ac_type example_component) (ac_name example_component))
      (BuildSelectorLabels (ac_name example_component) (ac_type example_component)) ann"
    let ?ct = "ct0\<lparr>ct_volumeMounts := buildRuntimeVolumeMounts example_config (ac_name example_component)\<rparr>"
    let ?m = "\<lparr>vm_name = ''store'', vm_mountPath = ''/data'', vm_subPath = [], vm_readOnly = False\<rparr>"
    have ct: "?ct \<in> set (ps_containers (pt_spec (sts_template spec)))" by (simp add: t template_of_def)
    have m: "?m \<in> set (ct_volumeMounts ?ct)"
      by (simp add: buildRuntimeVolumeMounts_def example_config_def enabled_storage_def
          BuildVolumeMountsFromStorage_def)
    from mounts_are_backed [OF a ct m] have "''store'' \<in> set (map vol_name (ps_volumes (pt_spec (sts_template spec)))) \<union>
        set (map vct_name (sts_volumeClaimTemplates spec))" by (simp only: volumeMount.simps)
    moreover have "vm_name ?m = ''store''" by simp
    ultimately show ?thesis using a ct m by - (intro exI conjI bexI, assumption+)
  qed
qed

text \<open>
  C29. The pods are stamped for a restart exactly when the configuration files differ from those whose
  hash the status remembers; the build remembers the new hash, so that the next one does not stamp.
\<close>

theorem restart_stamp:
  assumes "BuildObjects hash now app c (Some rc) = (Inr objs, app')"
    and "obj \<in> set objs" "ko_body obj = StatefulSet spec st"
  shows "(pt_annotations (sts_template spec) restart_key =
      (if config_changed hash rc (ac_name c) app then Some now else None)) \<and>
    \<not> config_changed hash rc (ac_name c) app'"
  by (rule built_workload [OF assms]) (simp add: template_of_def record_hash_settles)

theorem restart_stamp_witness:
  "\<exists>objs app'. BuildObjects (\<lambda>_. ''h'') ''now'' example_app example_component (Some example_config)
      = (Inr objs, app') \<and> config_changed (\<lambda>_. ''h'') example_config ''web'' example_app \<and>
     \<not> config_changed (\<lambda>_. ''h'') example_config ''web'' app'"
proof (rule example_build [of "\<lambda>_. ''h''" "''now''" example_app])
  fix objs app' obj spec
  assume a: "BuildObjects (\<lambda>_. ''h'') ''now'' example_app example_component (Some example_config) = (Inr objs, app')"
    "obj \<in> set objs" "ko_body obj = StatefulSet spec zero_sts_status"
  have "config_changed (\<lambda>_. ''h'') example_config ''web'' example_app"
    by (simp add: config_changed_def example_config_def example_app_def empty_status_def)
  with restart_stamp [OF a] a(1) show ?thesis by (auto simp: example_component_def)
qed

text \<open>
  Storage without a template name is claimed under the name \<open>data\<close>, but the main container gets no
  mount for it: its mounts are those of the configuration maps and the secrets.
\<close>

theorem unnamed_storage_not_mounted:
  assumes "BuildObjects hash now app c (Some rc) = (Inr objs, app')"
    and "obj \<in> set objs" "ko_body obj = StatefulSet spec st"
    and "rc_storage rc = Some s" "so_volumeClaimTemplateName s = []"
  shows "map vct_name (sts_volumeClaimTemplates spec) = [''data''] \<and>
    map ct_volumeMounts (ps_containers (pt_spec (sts_template spec))) =
      [BuildVolumeMountsFromConfigMaps (rc_configMounts rc) @ BuildVolumeMountsFromSecrets (rc_secretMounts rc)]"
  by (rule built_workload [OF assms(1-3)])
    (use assms(4,5) in \<open>simp add: template_of_def buildRuntimeVolumeMounts_def enabled_storage_def
      BuildVolumeMountsFromStorage_def\<close>)

text \<open>The hash of configuration data stands for the data.\<close>

lemma HashConfigMap_inject:
  assumes "HashConfigMap a = HashConfigMap b" "valid_map a" "valid_map b" "no_collision (json_map a) (json_map b)"
  shows "a = b"
proof -
  from assms(1) have "Sum256 (json_map a) = Sum256 (json_map b)"
    unfolding HashConfigMap_def by (rule hex_text_inject)
  with assms(4) have "json_map a = json_map b" by (simp add: no_collision_def)
  from json_map_inject [OF this assms(2,3)] show ?thesis .
qed

text \<open>
  C30. A component was built with configuration files, and is built again for an application that still
  has the hash that build left in its status: the pods are stamped for a restart exactly when there are
  configuration files and their data differs from that of the last build, whatever the order the files are
  given in. The stored hash is that of the JSON text, which determines the data: the files hold valid UTF-8,
  and the two texts are no collision of SHA-256. When all files are removed, the pods are not stamped.
\<close>

theorem restarts_exactly_on_change:
  assumes "BuildObjects HashConfigMap now app c (Some rc) = (Inr objs, app1)"
    and "st_annotations (ad_status app') (config_map_name (ac_name c)) =
      st_annotations (ad_status app1) (config_map_name (ac_name c))"
    and "BuildObjects HashConfigMap now' app' c (Some rc') = (Inr objs', app2)"
    and "obj \<in> set objs'" "ko_body obj = StatefulSet spec status"
    and "rc_configFiles rc \<noteq> []"
    and "valid_map (map_of (rc_configFiles rc))" "valid_map (map_of (rc_configFiles rc'))"
    and "no_collision (json_map (map_of (rc_configFiles rc))) (json_map (map_of (rc_configFiles rc')))"
  shows "pt_annotations (sts_template spec) restart_key \<noteq> None \<longleftrightarrow>
    rc_configFiles rc' \<noteq> [] \<and> map_of (rc_configFiles rc') \<noteq> map_of (rc_configFiles rc)"
proof -
  let ?data = "map_of (rc_configFiles rc)" and ?data' = "map_of (rc_configFiles rc')"
  have "verifyParameters (Some rc) c = None" using assms(1) by (auto simp: BuildObjects_def split: option.splits)
  then have "app1 = record_hash HashConfigMap rc (ac_name c) app"
    by (rule BuildObjects_valid [of rc c app HashConfigMap now]) (use assms(1) in simp)
  with record_hash_settles [of HashConfigMap rc "ac_name c" app] assms(2,6)
  have stored: "st_annotations (ad_status app') (config_map_name (ac_name c)) = Some (HashConfigMap ?data)"
    by (simp add: config_changed_def)
  have "pt_annotations (sts_template spec) restart_key \<noteq> None \<longleftrightarrow> config_changed HashConfigMap rc' (ac_name c) app'"
    by (rule built_workload [OF assms(3-5)]) (simp add: template_of_def)
  also have "\<dots> \<longleftrightarrow> rc_configFiles rc' \<noteq> [] \<and> HashConfigMap ?data \<noteq> HashConfigMap ?data'"
    using stored by (simp add: config_changed_def)
  also have "\<dots> \<longleftrightarrow> rc_configFiles rc' \<noteq> [] \<and> ?data' \<noteq> ?data"
    using HashConfigMap_inject [OF _ assms(7-9)] by metis
  finally show ?thesis .
qed

text \<open>Two files, and the same in another order.\<close>

definition two_files :: "(string, string) amap" where
  "two_files = [(''app.yml'', ''a: 1''), (''log.yml'', ''b: 2'')]"

lemma two_files_valid: "valid_map (map_of two_files)"
proof -
  have "valid_entries (map (\<lambda>key. (key, the (map_of two_files key))) (sort (map fst two_files)))" by code_simp
  moreover have "distinct (map fst two_files)" by (simp add: two_files_def)
  ultimately show ?thesis by (simp add: valid_map_def sorted_entries_list finite_dom_map_of)
qed

theorem restarts_exactly_on_change_witness:
  "\<exists>spec status. pt_annotations (sts_template spec) restart_key = None \<and>
    StatefulSet spec status \<in> ko_body ` set (projr (fst (BuildObjects HashConfigMap ''now''
      (snd (BuildObjects HashConfigMap ''now'' example_app example_component
        (Some (example_config\<lparr>rc_configFiles := two_files\<rparr>)))) example_component
      (Some (example_config\<lparr>rc_configFiles := rev two_files\<rparr>)))))"
proof -
  let ?rc = "example_config\<lparr>rc_configFiles := two_files\<rparr>"
    and ?rc' = "example_config\<lparr>rc_configFiles := rev two_files\<rparr>"
  have v: "verifyParameters (Some ?rc) example_component = None" "verifyParameters (Some ?rc') example_component = None"
    by (simp_all add: verifyParameters_def example_config_def Let_def)
  obtain objs app1 where b1: "BuildObjects HashConfigMap ''now'' example_app example_component (Some ?rc) = (Inr objs, app1)"
    using valid_build [OF v(1)] by metis
  obtain objs' app2 obj spec where b2: "BuildObjects HashConfigMap ''now'' app1 example_component (Some ?rc') = (Inr objs', app2)"
    and obj: "obj \<in> set objs'" "ko_body obj = StatefulSet spec zero_sts_status"
    using valid_build [OF v(2)] by metis
  have same: "map_of (rev two_files) = map_of two_files"
    by (simp add: two_files_def fun_upd_twist)
  then have "pt_annotations (sts_template spec) restart_key = None"
    using restarts_exactly_on_change [OF b1 refl b2 obj] two_files_valid
    by (simp add: two_files_def no_collision_def)
  with obj b1 b2 show ?thesis by (intro exI [of _ spec] exI [of _ zero_sts_status]) force
qed

end
