(* ===== verification/Cluster.thy ===== *)
theory Cluster
  imports RuntimeBuilder
begin

text \<open>
  The operator's view of what is not in the repository: the Kubernetes API as its clients present
  it, and the functions of \<^verbatim>\<open>apimachinery\<close>, \<^verbatim>\<open>controller-runtime\<close> and \<^verbatim>\<open>operator-tools\<close> that the
  source calls. They are the fields of one record, an argument of every definition that uses them;
  \<open>'w\<close> is the state of the world outside the operator, passed through every call. What the
  documentation of those libraries promises is stated by the predicates at the end, which are
  hypotheses of the theorems that need them.
\<close>

record 'w cluster =
  kc_get_app :: "nsname \<Rightarrow> 'w \<Rightarrow> (goerror + appDef) \<times> 'w"
  kc_update_app :: "appDef \<Rightarrow> 'w \<Rightarrow> (goerror + appDef) \<times> 'w"
  kc_status_update :: "appDef \<Rightarrow> 'w \<Rightarrow> (goerror + appDef) \<times> 'w"
  kc_get_service :: "nsname \<Rightarrow> 'w \<Rightarrow> (goerror + serviceSpec) \<times> 'w"
  kc_get_endpoints :: "nsname \<Rightarrow> 'w \<Rightarrow> (goerror + endpointSubset list) \<times> 'w"
  kc_get_unstructured :: "gvk \<Rightarrow> nsname \<Rightarrow> 'w \<Rightarrow> (goerror + raw) \<times> 'w"
  kc_get_object :: "kobject \<Rightarrow> 'w \<Rightarrow> (goerror + kobject) \<times> 'w"
  kc_create :: "kobject \<Rightarrow> 'w \<Rightarrow> goerror option \<times> 'w"
  kc_patch :: "kobject \<Rightarrow> string \<Rightarrow> 'w \<Rightarrow> goerror option \<times> 'w"
  kc_list_pvcs :: "string \<Rightarrow> string \<times> string \<Rightarrow> 'w \<Rightarrow> (goerror + nsname list) \<times> 'w"
  kc_delete_pvc :: "nsname \<Rightarrow> 'w \<Rightarrow> goerror option \<times> 'w"
  kc_delete_all_of :: "string \<Rightarrow> string \<Rightarrow> string \<times> string \<Rightarrow> 'w \<Rightarrow> goerror option \<times> 'w"
  kc_create_if_not_exist :: "kobject \<Rightarrow> 'w \<Rightarrow> (goerror + bool) \<times> 'w"
  kc_reconcile_resource :: "kobject \<Rightarrow> 'w \<Rightarrow> (goerror + bool) \<times> 'w"
  lib_gvk :: "string \<Rightarrow> string \<Rightarrow> gvk"
  lib_gvk_string :: "gvk \<Rightarrow> string"
  lib_gv_string :: "gvk \<Rightarrow> string"
  lib_key_string :: "nsname \<Rightarrow> string"
  lib_scheme_new :: "gvk \<Rightarrow> goerror option"
  lib_from_unstructured :: "raw \<Rightarrow> gvk \<Rightarrow> goerror + kobject"
  lib_set_controller_ref :: "appDef \<Rightarrow> kobject \<Rightarrow> goerror + kobject"
  lib_set_condition :: "condition list \<Rightarrow> condition \<Rightarrow> condition list"
  lib_contains_finalizer :: "string list \<Rightarrow> string \<Rightarrow> bool"
  lib_add_finalizer :: "string list \<Rightarrow> string \<Rightarrow> string list"
  lib_remove_finalizer :: "string list \<Rightarrow> string \<Rightarrow> string list"
  lib_unmarshal :: "raw \<Rightarrow> goerror + runtimeConfig"
  lib_now :: string
  lib_seconds :: nat
  lib_range :: "string list \<Rightarrow> string list"

text \<open>
  The calls, in the order of the fields: reading, updating and status-updating the
  \<^verbatim>\<open>ApplicationDefinition\<close> (an accepted update returns the stored object); reading a Service, its
  Endpoints, an unstructured object, the live form of an object; creating and patching (with a
  field owner); listing the volume claims of a namespace with a label, deleting one, deleting all
  objects of a kind in a namespace with a label; \<^verbatim>\<open>CreateIfNotExist\<close> (was it created?) and
  \<^verbatim>\<open>ReconcileResource\<close> (is the result non-nil?) of \<^verbatim>\<open>operator-tools\<close>.

  The pure functions: \<^verbatim>\<open>schema.FromAPIVersionAndKind\<close>, the texts of a kind, of its group and
  version and of a key; \<^verbatim>\<open>scheme.New\<close> and the conversion of an unstructured object;
  \<^verbatim>\<open>SetControllerReference\<close>; \<^verbatim>\<open>meta.SetStatusCondition\<close>; the finalizer helpers of
  \<^verbatim>\<open>controllerutil\<close>; \<^verbatim>\<open>json.Unmarshal\<close> into a \<^verbatim>\<open>RuntimeConfig\<close>; the formatted time, the time
  in seconds; the order in which \<^verbatim>\<open>range\<close> visits the keys of a map. The clock is read once for a run.
\<close>

definition object_gvk :: "'w cluster \<Rightarrow> kobject \<Rightarrow> gvk" where
  "object_gvk k obj = lib_gvk k (ko_apiVersion obj) (ko_kind obj)"

subsection \<open>What the documentation promises\<close>

definition cond_of :: "condition list \<Rightarrow> string \<Rightarrow> condition option" where
  "cond_of cs t = find (\<lambda>c. cond_type c = t) cs"

definition same_condition :: "condition \<Rightarrow> condition \<Rightarrow> bool" where
  "same_condition a b \<longleftrightarrow>
     cond_type a = cond_type b \<and> cond_status a = cond_status b \<and>
     cond_reason a = cond_reason b \<and> cond_message a = cond_message b"

text \<open>
  \<^verbatim>\<open>SetStatusCondition\<close>: the condition of the given type has the new status, reason and message,
  the others are unchanged, and types stay distinct.
\<close>

definition condition_law :: "'w cluster \<Rightarrow> bool" where
  "condition_law k \<longleftrightarrow>
     (\<forall>cs c. (\<exists>c'. cond_of (lib_set_condition k cs c) (cond_type c) = Some c' \<and> same_condition c' c) \<and>
        (\<forall>t. t \<noteq> cond_type c \<longrightarrow> cond_of (lib_set_condition k cs c) t = cond_of cs t) \<and>
        (distinct (map cond_type cs) \<longrightarrow> distinct (map cond_type (lib_set_condition k cs c))))"

definition finalizer_law :: "'w cluster \<Rightarrow> bool" where
  "finalizer_law k \<longleftrightarrow>
     (\<forall>fs f. (lib_contains_finalizer k fs f \<longleftrightarrow> f \<in> set fs) \<and>
        set (lib_add_finalizer k fs f) = insert f (set fs) \<and>
        set (lib_remove_finalizer k fs f) = set fs - {f})"

text \<open>Reads do not conflict: a conflict is the answer to a write with an old resource version.\<close>

definition get_never_conflicts :: "'w cluster \<Rightarrow> bool" where
  "get_never_conflicts k \<longleftrightarrow>
     (\<forall>key w e w'. kc_get_app k key w = (Inl e, w') \<longrightarrow> \<not> is_conflict e)"

text \<open>The answer to an accepted status update carries the status that was sent.\<close>

definition status_echo :: "'w cluster \<Rightarrow> bool" where
  "status_echo k \<longleftrightarrow>
     (\<forall>app w app' w'. kc_status_update k app w = (Inr app', w') \<longrightarrow> ad_status app' = ad_status app)"

text \<open>The range order is a permutation; the text of a kind has the kind it was made from.\<close>

definition range_law :: "'w cluster \<Rightarrow> bool" where
  "range_law k \<longleftrightarrow> permutes (lib_range k)"

definition gvk_law :: "'w cluster \<Rightarrow> bool" where
  "gvk_law k \<longleftrightarrow>
     (\<forall>av kd. gvk_kind (lib_gvk k av kd) = kd) \<and>
     (\<forall>kd. gvk_version (lib_gvk k ''v1'' kd) = ''v1'' \<and> gvk_version (lib_gvk k ''apps/v1'' kd) = ''v1'')"

text \<open>The owner reference is all that \<^verbatim>\<open>SetControllerReference\<close> changes.\<close>

definition owner_ref_law :: "'w cluster \<Rightarrow> bool" where
  "owner_ref_law k \<longleftrightarrow>
     (\<forall>app obj obj'. lib_set_controller_ref k app obj = Inr obj' \<longrightarrow>
        (\<exists>refs. obj' = obj\<lparr>ko_meta := (ko_meta obj)\<lparr>om_ownerReferences := refs\<rparr>\<rparr>))"

lemma condition_lawD:
  assumes "condition_law k"
  obtains c' where "cond_of (lib_set_condition k cs c) (cond_type c) = Some c'" "same_condition c' c"
  using assms unfolding condition_law_def by blast

lemma condition_law_other:
  "condition_law k \<Longrightarrow> t \<noteq> cond_type c \<Longrightarrow> cond_of (lib_set_condition k cs c) t = cond_of cs t"
  by (simp add: condition_law_def)

lemma owner_ref_law_frame:
  assumes "owner_ref_law k" "lib_set_controller_ref k app obj = Inr obj'"
  shows "get_name obj' = get_name obj" "get_namespace obj' = get_namespace obj"
    "get_labels obj' = get_labels obj" "ko_kind obj' = ko_kind obj"
    "ko_apiVersion obj' = ko_apiVersion obj" "ko_body obj' = ko_body obj"
proof -
  from assms obtain refs where "obj' = obj\<lparr>ko_meta := (ko_meta obj)\<lparr>om_ownerReferences := refs\<rparr>\<rparr>"
    unfolding owner_ref_law_def by blast
  then show "get_name obj' = get_name obj" "get_namespace obj' = get_namespace obj"
    "get_labels obj' = get_labels obj" "ko_kind obj' = ko_kind obj"
    "ko_apiVersion obj' = ko_apiVersion obj" "ko_body obj' = ko_body obj"
    by (simp_all add: object_defs)
qed

subsection \<open>A cluster for examples\<close>

text \<open>
  The promises can be kept: \<open>bare_cluster\<close> holds no object, accepts every write and implements the
  pure functions as their documentation says. Examples replace the answers they are about.
\<close>

definition not_found_error :: goerror where
  "not_found_error = GoError NotFound ''not found''"

definition conflict_error :: goerror where
  "conflict_error = GoError Conflict ''the object has been modified''"

lemma example_errors [simp]:
  "is_not_found not_found_error" "\<not> is_conflict not_found_error" "is_conflict conflict_error"
  "\<not> is_not_found conflict_error"
  by (simp_all add: not_found_error_def conflict_error_def is_not_found_def is_conflict_def)

definition example_gvk :: "string \<Rightarrow> string \<Rightarrow> gvk" where
  "example_gvk apiVersion kind =
     (case split_char (CHR ''/'') apiVersion of
        g # v # _ \<Rightarrow> \<lparr>gvk_group = g, gvk_version = v, gvk_kind = kind\<rparr>
      | _ \<Rightarrow> \<lparr>gvk_group = [], gvk_version = apiVersion, gvk_kind = kind\<rparr>)"

definition example_gv_string :: "gvk \<Rightarrow> string" where
  "example_gv_string g =
     (if gvk_group g = [] then gvk_version g else gvk_group g @ ''/'' @ gvk_version g)"

definition bare_cluster :: "'w cluster" where
  "bare_cluster =
     \<lparr>kc_get_app = \<lambda>key w. (Inl not_found_error, w),
      kc_update_app = \<lambda>app w. (Inr app, w),
      kc_status_update = \<lambda>app w. (Inr app, w),
      kc_get_service = \<lambda>key w. (Inl not_found_error, w),
      kc_get_endpoints = \<lambda>key w. (Inl not_found_error, w),
      kc_get_unstructured = \<lambda>g key w. (Inl not_found_error, w),
      kc_get_object = \<lambda>obj w. (Inl not_found_error, w),
      kc_create = \<lambda>obj w. (None, w),
      kc_patch = \<lambda>obj fieldManager w. (None, w),
      kc_list_pvcs = \<lambda>ns label w. (Inr [], w),
      kc_delete_pvc = \<lambda>key w. (None, w),
      kc_delete_all_of = \<lambda>kind ns label w. (None, w),
      kc_create_if_not_exist = \<lambda>obj w. (Inr True, w),
      kc_reconcile_resource = \<lambda>obj w. (Inr True, w),
      lib_gvk = example_gvk,
      lib_gvk_string = \<lambda>g. example_gv_string g @ '', Kind='' @ gvk_kind g,
      lib_gv_string = example_gv_string,
      lib_key_string = \<lambda>key. nn_namespace key @ ''/'' @ nn_name key,
      lib_scheme_new = \<lambda>g. None,
      lib_from_unstructured = \<lambda>u g. Inl (errorf ''no conversion''),
      lib_set_controller_ref = \<lambda>app obj.
        Inr (obj\<lparr>ko_meta := (ko_meta obj)\<lparr>om_ownerReferences := [app_name app]\<rparr>\<rparr>),
      lib_set_condition = \<lambda>cs c. filter (\<lambda>x. cond_type x \<noteq> cond_type c) cs @ [c],
      lib_contains_finalizer = \<lambda>fs f. f \<in> set fs,
      lib_add_finalizer = \<lambda>fs f. if f \<in> set fs then fs else fs @ [f],
      lib_remove_finalizer = \<lambda>fs f. filter (\<lambda>x. x \<noteq> f) fs,
      lib_unmarshal = \<lambda>properties. Inl (errorf ''invalid character''),
      lib_now = ''2024-01-01T00:00:00Z'',
      lib_seconds = 0,
      lib_range = \<lambda>keys. keys\<rparr>"

lemma bare_condition_law: "condition_law bare_cluster"
proof -
  have "cond_of (filter (\<lambda>x. cond_type x \<noteq> cond_type c) cs @ [c]) t =
      (if t = cond_type c then Some c else cond_of cs t)" for cs c t
    by (induction cs) (auto simp: cond_of_def)
  then show ?thesis
    by (auto simp: condition_law_def bare_cluster_def same_condition_def distinct_map_filter)
qed

lemma bare_laws:
  "finalizer_law bare_cluster" "get_never_conflicts bare_cluster" "status_echo bare_cluster"
  "range_law bare_cluster" "owner_ref_law bare_cluster"
  by (auto simp: finalizer_law_def get_never_conflicts_def status_echo_def range_law_def
      owner_ref_law_def bare_cluster_def)

lemma bare_gvk_law: "gvk_law bare_cluster"
  by (auto simp: gvk_law_def bare_cluster_def example_gvk_def split: list.splits)

definition example_object :: kobject where
  "example_object =
     \<lparr>ko_apiVersion = ''v1'', ko_kind = ''ConfigMap'',
      ko_meta = empty_meta\<lparr>om_name := ''web-config'', om_namespace := ''default''\<rparr>,
      ko_body = ConfigMap Map.empty None\<rparr>"

end
