(* ===== verification/Apply.thy ===== *)
theory Apply
  imports Cluster
begin

text \<open>
  \<^verbatim>\<open>internal/controller/common/kubeutil/apply.go\<close>: the two functions that bring one object to the
  cluster. \<open>ApplyObject\<close> reads the live object into the one it was given and patches with that;
  \<open>ApplyObjectV2\<close> creates a missing object and otherwise reconciles it, with up to three attempts
  while the API server reports a conflict.
\<close>

datatype operationResult =
    OperationResultUnset
  | OperationResultNone
  | OperationResultCreated
  | OperationResultUpdated

record applyResult =
  ar_operation :: operationResult
  ar_error :: "goerror option"

definition apply_failed :: "goerror \<Rightarrow> applyResult" where
  "apply_failed e = \<lparr>ar_operation = OperationResultUnset, ar_error = Some e\<rparr>"

definition apply_done :: "operationResult \<Rightarrow> applyResult" where
  "apply_done r = \<lparr>ar_operation = r, ar_error = None\<rparr>"

lemma apply_result_simps [simp]:
  "ar_error (apply_failed e) = Some e" "ar_error (apply_done r) = None"
  "ar_operation (apply_done r) = r" "ar_operation (apply_failed e) = OperationResultUnset"
  by (simp_all add: apply_failed_def apply_done_def)

text \<open>The check both functions make before they call the API.\<close>

definition missing_identity :: "'w cluster \<Rightarrow> kobject \<Rightarrow> bool" where
  "missing_identity k obj \<longleftrightarrow>
     gvk_kind (object_gvk k obj) = [] \<or> gvk_version (object_gvk k obj) = [] \<or>
     get_name obj = [] \<or> get_namespace obj = []"

definition missing_identity_error :: "'w cluster \<Rightarrow> kobject \<Rightarrow> goerror" where
  "missing_identity_error k obj =
     errorf (''object is missing essential GVK or Name/Namespace for apply (GVK: ''
       @ lib_gvk_string k (object_gvk k obj) @ '', NsName: ''
       @ lib_key_string k (object_key obj) @ '')'')"

text \<open>
  \<open>ApplyObject\<close> returns the object as well: \<^verbatim>\<open>Get\<close> decodes the live object into it, so what is
  patched is what was read.
\<close>

definition ApplyObject ::
    "'w cluster \<Rightarrow> kobject \<Rightarrow> string \<Rightarrow> 'w \<Rightarrow> (applyResult \<times> kobject) \<times> 'w" where
  "ApplyObject k obj fieldManager w =
     (if missing_identity k obj then ((apply_failed (missing_identity_error k obj), obj), w)
      else case kc_get_object k obj w of
        (Inl e, w1) \<Rightarrow>
          if \<not> is_not_found e
          then ((apply_failed (wrapf ''failed to get resource: '' e), obj), w1)
          else (case kc_create k obj w1 of
              (Some e', w2) \<Rightarrow> ((apply_failed (wrapf ''failed to create resource: '' e'), obj), w2)
            | (None, w2) \<Rightarrow> ((apply_done OperationResultCreated, obj), w2))
      | (Inr live, w1) \<Rightarrow>
          (case kc_patch k live fieldManager w1 of
             (Some e, w2) \<Rightarrow> ((apply_failed e, live), w2)
           | (None, w2) \<Rightarrow> ((apply_done OperationResultNone, live), w2)))"

text \<open>The retry loop of \<open>ApplyObjectV2\<close>; the number is the attempts that remain.\<close>

definition max_retries :: nat where "max_retries = 3"

fun reconcile_attempts :: "'w cluster \<Rightarrow> kobject \<Rightarrow> nat \<Rightarrow> 'w \<Rightarrow> goerror option \<times> 'w" where
  "reconcile_attempts k obj 0 w = (None, w)"
| "reconcile_attempts k obj (Suc n) w =
     (case kc_reconcile_resource k obj w of
        (Inr _, w') \<Rightarrow> (None, w')
      | (Inl e, w') \<Rightarrow>
          if is_conflict e \<and> n > 0 then reconcile_attempts k obj n w' else (Some e, w'))"

definition ApplyObjectV2 :: "'w cluster \<Rightarrow> kobject \<Rightarrow> string \<Rightarrow> 'w \<Rightarrow> applyResult \<times> 'w" where
  "ApplyObjectV2 k obj fieldManager w =
     (if missing_identity k obj then (apply_failed (missing_identity_error k obj), w)
      else case kc_create_if_not_exist k obj w of
        (Inl e, w1) \<Rightarrow> (apply_failed e, w1)
      | (Inr True, w1) \<Rightarrow> (apply_done OperationResultCreated, w1)
      | (Inr False, w1) \<Rightarrow>
          (case reconcile_attempts k obj max_retries w1 of
             (Some e, w2) \<Rightarrow> (apply_failed e, w2)
           | (None, w2) \<Rightarrow> (apply_done OperationResultNone, w2)))"

definition BuildObjectResultMapKey :: "'w cluster \<Rightarrow> kobject option \<Rightarrow> string" where
  "BuildObjectResultMapKey k obj =
     (case obj of
        None \<Rightarrow> []
      | Some x \<Rightarrow> lib_gvk_string k (object_gvk k x) @ ''/'' @ lib_key_string k (object_key x))"

subsection \<open>The attempts\<close>

text \<open>
  The answers of a run of calls, as the attempts see them: \<open>conflicts_then k obj n w w'\<close> says that
  the first \<open>n\<close> calls from \<open>w\<close> all conflict and lead to \<open>w'\<close>.
\<close>

inductive conflicts_then :: "'w cluster \<Rightarrow> kobject \<Rightarrow> nat \<Rightarrow> 'w \<Rightarrow> 'w \<Rightarrow> bool"
  for k :: "'w cluster" and obj :: kobject where
  none: "conflicts_then k obj 0 w w"
| more: "kc_reconcile_resource k obj w = (Inl e, w1) \<Longrightarrow> is_conflict e \<Longrightarrow>
    conflicts_then k obj n w1 w2 \<Longrightarrow> conflicts_then k obj (Suc n) w w2"

inductive_cases conflicts_then_0: "conflicts_then k obj 0 w w'"
inductive_cases conflicts_then_Suc: "conflicts_then k obj (Suc n) w w'"

lemma reconcile_attempts_skip:
  "conflicts_then k obj n w w' \<Longrightarrow> m > 0 \<Longrightarrow>
    reconcile_attempts k obj (n + m) w = reconcile_attempts k obj m w'"
  by (induction rule: conflicts_then.induct) (auto split: prod.splits)

lemma reconcile_attempts_split:
  assumes "reconcile_attempts k obj (Suc n) w = (r, w')"
  shows "\<exists>i w1. i \<le> n \<and> conflicts_then k obj i w w1 \<and>
    (case r of
       None \<Rightarrow> \<exists>b. kc_reconcile_resource k obj w1 = (Inr b, w')
     | Some e \<Rightarrow> kc_reconcile_resource k obj w1 = (Inl e, w') \<and> (is_conflict e \<longrightarrow> i = n))"
  using assms
proof (induction n arbitrary: w)
  case 0
  then show ?case
    by (intro exI [of _ 0] exI [of _ w]) (auto intro: conflicts_then.none split: prod.splits sum.splits)
next
  case (Suc n)
  obtain a w1 where call: "kc_reconcile_resource k obj w = (a, w1)" by fastforce
  show ?case
  proof (cases "\<exists>e. a = Inl e \<and> is_conflict e")
    case True
    then obtain e where e: "a = Inl e" "is_conflict e" by blast
    with Suc.prems call have "reconcile_attempts k obj (Suc n) w1 = (r, w')" by simp
    then obtain i w2 where i: "i \<le> n" "conflicts_then k obj i w1 w2"
      and rest: "case r of
         None \<Rightarrow> \<exists>b. kc_reconcile_resource k obj w2 = (Inr b, w')
       | Some e \<Rightarrow> kc_reconcile_resource k obj w2 = (Inl e, w') \<and> (is_conflict e \<longrightarrow> i = n)"
      using Suc.IH by blast
    have "conflicts_then k obj (Suc i) w w2"
      by (rule conflicts_then.more [OF _ e(2) i(2)]) (simp add: call e(1))
    with i(1) rest show ?thesis
      by (intro exI [of _ "Suc i"] exI [of _ w2]) (auto split: option.splits)
  next
    case False
    with Suc.prems call show ?thesis
      by (intro exI [of _ 0] exI [of _ w])
        (auto intro: conflicts_then.none split: sum.splits)
  qed
qed

lemma ApplyObjectV2_operation:
  "ar_operation (fst (ApplyObjectV2 k obj fm w)) \<noteq> OperationResultUpdated"
  by (auto simp: ApplyObjectV2_def split: prod.splits sum.splits bool.splits option.splits)

lemma ApplyObjectV2_error_iff:
  "ar_error (fst (ApplyObjectV2 k obj fm w)) = None \<longleftrightarrow>
    ar_operation (fst (ApplyObjectV2 k obj fm w)) \<noteq> OperationResultUnset"
  by (auto simp: ApplyObjectV2_def split: prod.splits sum.splits bool.splits option.splits)

subsection \<open>Properties\<close>

text \<open>
  An object that exists is reconciled as soon as at most two attempts conflict: the apply
  succeeds with the world of the attempt that did.
\<close>

theorem apply_survives_conflicts:
  assumes "\<not> missing_identity k obj" "kc_create_if_not_exist k obj w = (Inr False, w1)"
    and "conflicts_then k obj n w1 w2" "n < 3" "kc_reconcile_resource k obj w2 = (Inr b, w3)"
  shows "ApplyObjectV2 k obj fm w = (apply_done OperationResultNone, w3)"
proof -
  from assms(4) obtain m where m: "max_retries = n + Suc m"
    unfolding max_retries_def using less_iff_Suc_add [of n 3] by auto
  have "reconcile_attempts k obj max_retries w1 = (None, w3)"
    unfolding m using reconcile_attempts_skip [OF assms(3), of "Suc m"] assms(5) by simp
  with assms(1,2) show ?thesis by (simp add: ApplyObjectV2_def)
qed

text \<open>An object that exists; the number of the world is that of the conflicts to come.\<close>

definition contended_cluster :: "nat cluster" where
  "contended_cluster = bare_cluster
     \<lparr>kc_create_if_not_exist := \<lambda>obj w. (Inr False, w),
      kc_reconcile_resource := \<lambda>obj w. if w > 0 then (Inl conflict_error, w - 1) else (Inr True, w)\<rparr>"

lemma contended_example:
  "\<not> missing_identity contended_cluster example_object"
  "kc_create_if_not_exist contended_cluster example_object w = (Inr False, w)"
  by (simp_all add: missing_identity_def contended_cluster_def bare_cluster_def example_object_def
      object_gvk_def example_gvk_def object_defs empty_meta_def)

lemma contended_run: "n \<le> w \<Longrightarrow> conflicts_then contended_cluster example_object n w (w - n)"
proof (induction n arbitrary: w)
  case 0
  show ?case by (simp add: conflicts_then.none)
next
  case (Suc n)
  have "conflicts_then contended_cluster example_object n (w - 1) (w - Suc n)"
    using Suc.IH [of "w - 1"] Suc.prems by simp
  then show ?case
    using Suc.prems
    by (intro conflicts_then.more [of contended_cluster example_object w conflict_error "w - 1"])
      (auto simp: contended_cluster_def)
qed

theorem apply_survives_conflicts_witness:
  "ApplyObjectV2 contended_cluster example_object ''runtime-operator'' 2 =
     (apply_done OperationResultNone, 0)"
  by (rule apply_survives_conflicts [OF contended_example(1,2) contended_run [of 2 2], of True])
    (simp_all add: contended_cluster_def)

text \<open>
  When an apply fails with a conflict after the creation step, all three attempts conflicted;
  every other error is reported as it came, with no further attempt.
\<close>

theorem apply_error_origin:
  assumes "\<not> missing_identity k obj" "kc_create_if_not_exist k obj w = (Inr False, w1)"
    and "ApplyObjectV2 k obj fm w = (r, w')" "ar_error r = Some e"
  shows "\<exists>i w2. i < 3 \<and> conflicts_then k obj i w1 w2 \<and>
    kc_reconcile_resource k obj w2 = (Inl e, w') \<and> (is_conflict e \<longrightarrow> i = 2)"
proof -
  from assms have "reconcile_attempts k obj (Suc 2) w1 = (Some e, w')"
    by (auto simp: ApplyObjectV2_def max_retries_def eval_nat_numeral split: prod.splits option.splits)
  from reconcile_attempts_split [OF this] show ?thesis by (force simp: less_Suc_eq_le)
qed

theorem apply_error_origin_witness:
  "\<exists>i w2. i < 3 \<and> conflicts_then contended_cluster example_object i 5 w2 \<and>
     kc_reconcile_resource contended_cluster example_object w2 = (Inl conflict_error, 2) \<and> i = 2"
proof -
  have run: "ApplyObjectV2 contended_cluster example_object ''fm'' 5 = (apply_failed conflict_error, 2)"
    using contended_example(1) contended_example(2) [of 5]
    by (simp add: ApplyObjectV2_def max_retries_def eval_nat_numeral) (simp add: contended_cluster_def)
  from apply_error_origin [OF contended_example(1,2) run, of conflict_error] show ?thesis by auto
qed

end
