(* ===== verification/Status.thy ===== *)
theory Status
  imports Apply
begin

text \<open>
  The status bookkeeping of \<^verbatim>\<open>internal/controller/app/applicationdefinition_controller.go\<close>: the
  comparisons that decide whether a status is written, the conversion of the per-component map to
  the sorted list of the status, and the updates of the component statuses. The map from component
  names to statuses is an association list; the pointers in it are never nil, and each entry
  carries its own key as its name (\<open>statuses_ok\<close>), which every update keeps.
\<close>

subsection \<open>Comparisons\<close>

definition by_type :: "condition list \<Rightarrow> string \<rightharpoonup> condition" where
  "by_type cs = fold (\<lambda>c m. m(cond_type c \<mapsto> c)) cs Map.empty"

definition conditionsEqual :: "condition list \<Rightarrow> condition list \<Rightarrow> bool" where
  "conditionsEqual c1 c2 \<longleftrightarrow>
     length c1 = length c2 \<and>
     (let map1 = by_type c1 in
      list_all (\<lambda>c. case map1 (cond_type c) of
          None \<Rightarrow> False
        | Some existing \<Rightarrow>
            cond_status existing = cond_status c \<and> cond_reason existing = cond_reason c \<and>
            cond_message existing = cond_message c) c2)"

definition by_name :: "componentStatus list \<Rightarrow> string \<rightharpoonup> componentStatus" where
  "by_name ss = fold (\<lambda>s m. m(cs_name s \<mapsto> s)) ss Map.empty"

definition componentStatusesEqual :: "componentStatus list \<Rightarrow> componentStatus list \<Rightarrow> bool" where
  "componentStatusesEqual s1 s2 \<longleftrightarrow>
     length s1 = length s2 \<and>
     (let map1 = by_name s1 in
      list_all (\<lambda>s. case map1 (cs_name s) of
          None \<Rightarrow> False
        | Some existing \<Rightarrow>
            cs_kind existing = cs_kind s \<and> cs_apiVersion existing = cs_apiVersion s \<and>
            cs_resourceName existing = cs_resourceName s \<and> cs_namespace existing = cs_namespace s \<and>
            cs_health existing = cs_health s \<and> cs_message existing = cs_message s) s2)"

subsection \<open>Conditions and the status list\<close>

definition setCondition :: "'w cluster \<Rightarrow> condition \<Rightarrow> appDef \<Rightarrow> appDef" where
  "setCondition k c = with_status (\<lambda>s. s\<lparr>st_conditions := lib_set_condition k (st_conditions s) c\<rparr>)"

type_synonym status_map = "(string, componentStatus) amap"

definition statuses_ok :: "status_map \<Rightarrow> bool" where
  "statuses_ok m \<longleftrightarrow> amap_ok m \<and> (\<forall>(key, cs) \<in> set m. cs_name cs = key)"

definition mapToSliceComponentStatus :: "'w cluster \<Rightarrow> status_map \<Rightarrow> componentStatus list" where
  "mapToSliceComponentStatus k m =
     sort_key cs_name (List.map_filter (map_of m) (lib_range k (map fst m)))"

subsection \<open>Updates\<close>

definition initial_status :: "string \<Rightarrow> componentStatus" where
  "initial_status name =
     \<lparr>cs_name = name, cs_kind = [], cs_apiVersion = [], cs_resourceName = [], cs_namespace = [],
      cs_health = False, cs_message = ''Initializing''\<rparr>"

text \<open>The loop over the components of the spec, with the names seen so far.\<close>

fun initialize_loop ::
    "applicationComponent list \<Rightarrow> string list \<Rightarrow> status_map \<Rightarrow> (goerror option \<times> string list) \<times> status_map" where
  "initialize_loop [] names m = ((None, names), m)"
| "initialize_loop (c # comps) names m =
     (if ac_name c = [] then
        ((Some (errorf ''component name cannot be empty in spec''), names), m)
      else if ac_name c \<in> set names then
        ((Some (errorf (''duplicate component name found in spec: '' @ ac_name c)), names), m)
      else initialize_loop comps (ac_name c # names)
             (AList.update (ac_name c) (initial_status (ac_name c)) m))"

definition initializeComponentStatuses ::
    "applicationComponent list \<Rightarrow> status_map \<Rightarrow> goerror option \<times> status_map" where
  "initializeComponentStatuses comps m =
     (case initialize_loop comps [] m of
        ((Some e, names), m') \<Rightarrow> (Some e, m')
      | ((None, names), m') \<Rightarrow> (None, filter (\<lambda>(key, cs). key \<in> set names) m'))"

text \<open>\<^verbatim>\<open>status\<close> is a pointer, and a nil one is left alone.\<close>

definition updateComponentStatusWithError ::
    "componentStatus option \<Rightarrow> string \<Rightarrow> string \<Rightarrow> componentStatus option" where
  "updateComponentStatusWithError status reason errMsg =
     map_option (\<lambda>cs. cs\<lparr>cs_health := False, cs_message := reason @ '': '' @ errMsg\<rparr>) status"

definition reports_error :: "componentStatus \<Rightarrow> bool" where
  "reports_error cs \<longleftrightarrow> str_contains (cs_message cs) ''Error:'' \<or> str_contains (cs_message cs) ''Failed''"

definition updateComponentStatusForApplyError ::
    "'w cluster \<Rightarrow> status_map \<Rightarrow> kobject \<Rightarrow> goerror \<Rightarrow> status_map" where
  "updateComponentStatusForApplyError k m failedObj applyErr =
     (let name = lookup_str (get_labels failedObj) CompInstanceLabel in
      if name = [] then m
      else case map_of m name of
        None \<Rightarrow> m
      | Some cs \<Rightarrow>
          if \<not> reports_error cs then
            (let errMsg = ''ApplyError: Failed for '' @ gvk_kind (object_gvk k failedObj) @ '' ''
                   @ lib_key_string k (object_key failedObj) @ '': '' @ err_msg applyErr
             in case updateComponentStatusWithError (Some cs) ''ApplyFailed'' errMsg of
                  None \<Rightarrow> m | Some cs' \<Rightarrow> AList.update name cs' m)
          else m)"

definition apply_failed_for ::
    "'w cluster \<Rightarrow> kobject list \<Rightarrow> (string \<rightharpoonup> applyResult) \<Rightarrow> string \<Rightarrow> bool" where
  "apply_failed_for k objs applyResults name \<longleftrightarrow>
     list_ex (\<lambda>obj. lookup_str (get_labels obj) CompInstanceLabel = name \<and> name \<noteq> [] \<and>
       (case applyResults (BuildObjectResultMapKey k (Some obj)) of
          None \<Rightarrow> True | Some r \<Rightarrow> ar_error r \<noteq> None)) objs"

definition updateComponentStatusesFromApplyResults ::
    "'w cluster \<Rightarrow> status_map \<Rightarrow> kobject list \<Rightarrow> (string \<rightharpoonup> applyResult) \<Rightarrow> status_map" where
  "updateComponentStatusesFromApplyResults k m desiredObjectList applyResults =
     map (\<lambda>(name, cs).
       (name, if \<not> apply_failed_for k desiredObjectList applyResults name \<and>
                 cs_message cs \<in> {''Initializing'', ''Processing'', ''Built successfully''}
              then cs\<lparr>cs_message := ''Applied successfully, awaiting health check''\<rparr> else cs)) m"

definition overall_error :: "string \<Rightarrow> componentStatus \<Rightarrow> componentStatus" where
  "overall_error msg cs =
     (if \<not> reports_error cs
      then cs\<lparr>cs_health := False, cs_message := ''OverallReconcileError: '' @ msg\<rparr> else cs)"

definition updateComponentStatusesForError :: "status_map \<Rightarrow> goerror \<Rightarrow> status_map" where
  "updateComponentStatusesForError m e = amap_map (overall_error (err_msg e)) m"

subsection \<open>What the comparisons decide\<close>

lemma fold_upd_eq:
  "distinct (map f xs) \<Longrightarrow>
    fold (\<lambda>x m. m(f x \<mapsto> x)) xs m0 key = (case find (\<lambda>x. f x = key) xs of None \<Rightarrow> m0 key | Some x \<Rightarrow> Some x)"
proof (induction xs arbitrary: m0)
  case (Cons x xs)
  have "find (\<lambda>y. f y = f x) xs = None" using Cons.prems by (auto simp: find_None_iff image_iff)
  with Cons show ?case by (auto split: option.splits)
qed simp

lemma find_some_eq:
  "find P xs = Some x \<Longrightarrow> x \<in> set xs \<and> P x"
  by (induction xs) (auto split: if_splits)

lemma find_distinct:
  "distinct (map f xs) \<Longrightarrow> x \<in> set xs \<Longrightarrow> find (\<lambda>y. f y = f x) xs = Some x"
  by (induction xs) (auto simp: image_iff)

text \<open>
  Equality up to order: two lists with the same keys, each once, are equal for the comparison when
  the entries of each key agree in the fields compared.
\<close>

definition agree_on :: "('a \<Rightarrow> 'k) \<Rightarrow> ('a \<Rightarrow> 'a \<Rightarrow> bool) \<Rightarrow> 'a list \<Rightarrow> 'a list \<Rightarrow> bool" where
  "agree_on f R xs ys \<longleftrightarrow>
     f ` set xs = f ` set ys \<and> (\<forall>x \<in> set xs. \<forall>y \<in> set ys. f x = f y \<longrightarrow> R x y)"

lemma equal_up_to_order:
  assumes dx: "distinct (map f xs)" and dy: "distinct (map f ys)"
  shows "(length xs = length ys \<and>
      (\<forall>y \<in> set ys. case find (\<lambda>x. f x = f y) xs of None \<Rightarrow> False | Some x \<Rightarrow> R x y)) \<longleftrightarrow>
    agree_on f R xs ys" (is "?L \<longleftrightarrow> ?R")
proof
  assume L: ?L
  have pick: "\<exists>x \<in> set xs. f x = f y \<and> R x y" if "y \<in> set ys" for y
  proof -
    from L that obtain x where "find (\<lambda>x. f x = f y) xs = Some x" "R x y"
      by (force split: option.splits)
    then show ?thesis using find_some_eq by fast
  qed
  have sub: "f ` set ys \<subseteq> f ` set xs"
  proof
    fix v assume "v \<in> f ` set ys"
    then obtain y where "y \<in> set ys" "v = f y" by blast
    with pick obtain x where "x \<in> set xs" "f x = v" by metis
    then show "v \<in> f ` set xs" by blast
  qed
  have "card (f ` set xs) = length xs" "card (f ` set ys) = length ys"
    using dx dy distinct_card by force+
  with L sub have "f ` set ys = f ` set xs" by (intro card_subset_eq) auto
  moreover have "R x y" if "x \<in> set xs" "y \<in> set ys" "f x = f y" for x y
  proof -
    from pick [OF that(2)] obtain x' where x': "x' \<in> set xs" "f x' = f y" "R x' y" by blast
    with that dx have "x' = x" by (auto simp: distinct_map inj_on_def)
    with x' show ?thesis by simp
  qed
  ultimately show ?R by (auto simp: agree_on_def)
next
  assume R: ?R
  have "length xs = card (f ` set xs)" "length ys = card (f ` set ys)"
    using dx dy by (metis distinct_card list.set_map length_map)+
  with R have "length xs = length ys" by (simp add: agree_on_def)
  moreover have "case find (\<lambda>x. f x = f y) xs of None \<Rightarrow> False | Some x \<Rightarrow> R x y" if "y \<in> set ys" for y
  proof -
    from R that obtain x where x: "x \<in> set xs" "f x = f y" unfolding agree_on_def by fastforce
    with find_distinct [OF dx, of x] have "find (\<lambda>x. f x = f y) xs = Some x" by simp
    with R x that show ?thesis by (simp add: agree_on_def)
  qed
  ultimately show ?L by simp
qed

lemma by_type_find:
  "distinct (map cond_type cs) \<Longrightarrow> by_type cs t = find (\<lambda>c. cond_type c = t) cs"
  by (simp add: by_type_def fold_upd_eq split: option.splits)

lemma by_name_find:
  "distinct (map cs_name ss) \<Longrightarrow> by_name ss t = find (\<lambda>s. cs_name s = t) ss"
  by (simp add: by_name_def fold_upd_eq split: option.splits)

lemma conditionsEqual_agree:
  assumes "distinct (map cond_type c1)" "distinct (map cond_type c2)"
  shows "conditionsEqual c1 c2 \<longleftrightarrow>
    agree_on cond_type (\<lambda>a b. cond_status a = cond_status b \<and> cond_reason a = cond_reason b \<and>
      cond_message a = cond_message b) c1 c2"
  unfolding conditionsEqual_def Let_def list_all_iff by_type_find [OF assms(1)]
  by (rule equal_up_to_order [OF assms])

lemma componentStatus_ext:
  "cs_name a = cs_name b \<Longrightarrow> cs_kind a = cs_kind b \<Longrightarrow> cs_apiVersion a = cs_apiVersion b \<Longrightarrow>
   cs_resourceName a = cs_resourceName b \<Longrightarrow> cs_namespace a = cs_namespace b \<Longrightarrow>
   cs_health a = cs_health b \<Longrightarrow> cs_message a = cs_message b \<Longrightarrow> a = (b :: componentStatus)"
  by simp

lemma componentStatusesEqual_agree:
  assumes "distinct (map cs_name s1)" "distinct (map cs_name s2)"
  shows "componentStatusesEqual s1 s2 \<longleftrightarrow> set s1 = set s2"
proof -
  let ?R = "\<lambda>a b. cs_kind a = cs_kind b \<and> cs_apiVersion a = cs_apiVersion b \<and>
      cs_resourceName a = cs_resourceName b \<and> cs_namespace a = cs_namespace b \<and>
      cs_health a = cs_health b \<and> cs_message a = cs_message b"
  have "componentStatusesEqual s1 s2 \<longleftrightarrow> agree_on cs_name ?R s1 s2"
    unfolding componentStatusesEqual_def Let_def list_all_iff by_name_find [OF assms(1)]
    by (rule equal_up_to_order [OF assms])
  also have "\<dots> \<longleftrightarrow> set s1 = set s2"
  proof
    assume a: "agree_on cs_name ?R s1 s2"
    have "x \<in> set s2" if "x \<in> set s1" for x
    proof -
      from a that obtain y where y: "y \<in> set s2" "cs_name x = cs_name y"
        unfolding agree_on_def by (metis (no_types, lifting) image_iff)
      with a that have "x = y" unfolding agree_on_def by (intro componentStatus_ext) blast+
      with y show ?thesis by simp
    qed
    moreover have "y \<in> set s1" if "y \<in> set s2" for y
    proof -
      from a that obtain x where x: "x \<in> set s1" "cs_name x = cs_name y"
        unfolding agree_on_def by (metis (no_types, lifting) image_iff)
      with a that have "x = y" unfolding agree_on_def by (intro componentStatus_ext) blast+
      with x show ?thesis by simp
    qed
    ultimately show "set s1 = set s2" by blast
  next
    assume "set s1 = set s2"
    moreover have "x = y" if "x \<in> set s2" "y \<in> set s2" "cs_name x = cs_name y" for x y
      using assms(2) that by (auto simp: distinct_map inj_on_def)
    ultimately show "agree_on cs_name ?R s1 s2" by (auto simp: agree_on_def)
  qed
  finally show ?thesis .
qed

subsection \<open>What the updates keep\<close>

lemma statuses_ok_amap_map:
  "statuses_ok m \<Longrightarrow> (\<And>cs. cs_name (f cs) = cs_name cs) \<Longrightarrow> statuses_ok (amap_map f m)"
  by (auto simp: statuses_ok_def) (auto simp: amap_map_def)

lemma statuses_ok_update:
  assumes "statuses_ok m" "cs_name cs = key"
  shows "statuses_ok (AList.update key cs m)"
proof -
  have "set (AList.update key cs m) \<subseteq> insert (key, cs) (set m)" by (induction m) auto
  with assms show ?thesis unfolding statuses_ok_def by (auto simp: amap_ok_update)
qed

lemma statuses_ok_lookup: "statuses_ok m \<Longrightarrow> map_of m key = Some cs \<Longrightarrow> cs_name cs = key"
  by (auto simp: statuses_ok_def dest: map_of_SomeD)

lemma statuses_ok_filter: "statuses_ok m \<Longrightarrow> statuses_ok (filter P m)"
  by (auto simp: statuses_ok_def amap_ok_def distinct_map_filter)

lemma statuses_ok_apply_results:
  assumes "statuses_ok m"
  shows "statuses_ok (updateComponentStatusesFromApplyResults k m objs results)"
  using assms
  by (induction m)
    (auto simp: statuses_ok_def amap_ok_def updateComponentStatusesFromApplyResults_def image_iff)

lemma apply_results_keys [simp]:
  "map fst (updateComponentStatusesFromApplyResults k m objs results) = map fst m"
  by (induction m) (auto simp: updateComponentStatusesFromApplyResults_def)

lemma statuses_ok_for_error: "statuses_ok m \<Longrightarrow> statuses_ok (updateComponentStatusesForError m e)"
  unfolding updateComponentStatusesForError_def
  by (rule statuses_ok_amap_map) (auto simp: overall_error_def)

lemma for_error_keys [simp]: "map fst (updateComponentStatusesForError m e) = map fst m"
  by (simp add: updateComponentStatusesForError_def)

lemma statuses_ok_apply_error:
  assumes "statuses_ok m"
  shows "statuses_ok (updateComponentStatusForApplyError k m obj e)"
  using assms
  by (auto simp: updateComponentStatusForApplyError_def updateComponentStatusWithError_def Let_def
      split: option.splits intro!: statuses_ok_update dest: statuses_ok_lookup)

lemma apply_error_keys:
  "set (map fst (updateComponentStatusForApplyError k m obj e)) = set (map fst m)"
proof -
  have "set (map fst (AList.update key cs m)) = set (map fst m)" if "map_of m key = Some cs'" for key cs cs'
    using that by (metis dom_map_of_keys domI fun_upd_apply insert_absorb dom_fun_upd option.distinct(1) update_conv')
  then show ?thesis
    by (auto simp: updateComponentStatusForApplyError_def updateComponentStatusWithError_def Let_def
        split: option.splits)
qed

text \<open>After an apply error the entry of the component reports an error and is not healthy.\<close>

lemma apply_error_reported:
  assumes "lookup_str (get_labels obj) CompInstanceLabel = name" "name \<noteq> []" "map_of m name = Some cs"
  shows "\<exists>cs'. map_of (updateComponentStatusForApplyError k m obj e) name = Some cs' \<and> reports_error cs'"
proof (cases "reports_error cs")
  case True
  with assms show ?thesis by (simp add: updateComponentStatusForApplyError_def Let_def)
next
  case False
  have "str_contains (''ApplyFailed: '' @ msg) ''Failed''" for msg
    by (rule str_contains_append1) code_simp
  with assms False show ?thesis
    by (simp add: updateComponentStatusForApplyError_def updateComponentStatusWithError_def
        reports_error_def update_conv')
qed

lemma overall_error_reports: "reports_error (overall_error msg cs)"
proof (cases "reports_error cs")
  case False
  have "str_contains (''OverallReconcileError: '' @ msg) ''Error:''"
    by (rule str_contains_append1) code_simp
  with False show ?thesis by (simp add: overall_error_def reports_error_def)
qed (simp add: overall_error_def)

subsection \<open>Initialisation\<close>

lemma initialize_loop_ok:
  assumes "initialize_loop comps names m = ((None, names'), m')" "statuses_ok m"
  shows "statuses_ok m' \<and> distinct (map ac_name comps) \<and> [] \<notin> ac_name ` set comps \<and>
    set names' = set names \<union> ac_name ` set comps \<and> set names \<inter> ac_name ` set comps = {} \<and>
    (\<forall>c \<in> set comps. map_of m' (ac_name c) = Some (initial_status (ac_name c))) \<and>
    (\<forall>key. key \<notin> ac_name ` set comps \<longrightarrow> map_of m' key = map_of m key)"
  using assms
proof (induction comps arbitrary: names m)
  case (Cons c comps)
  let ?m = "AList.update (ac_name c) (initial_status (ac_name c)) m"
  from Cons.prems(1) have c: "ac_name c \<noteq> []" "ac_name c \<notin> set names"
    and rest: "initialize_loop comps (ac_name c # names) ?m = ((None, names'), m')"
    by (auto split: if_splits)
  have ok: "statuses_ok ?m" using Cons.prems(2) by (rule statuses_ok_update) (simp add: initial_status_def)
  from Cons.IH [OF rest ok] c show ?case by (auto simp: update_conv')
qed simp

lemma initialize_loop_error_iff:
  "fst (fst (initialize_loop comps names m)) = None \<longleftrightarrow>
     [] \<notin> ac_name ` set comps \<and> distinct (map ac_name comps) \<and> set names \<inter> ac_name ` set comps = {}"
  by (induction comps arbitrary: names m) auto

lemma initializeComponentStatuses_ok:
  assumes "initializeComponentStatuses comps [] = (None, m)"
  shows "statuses_ok m \<and> set (map fst m) = ac_name ` set comps \<and> distinct (map ac_name comps)"
proof -
  from assms obtain names m' where loop: "initialize_loop comps [] [] = ((None, names), m')"
    and m: "m = filter (\<lambda>(key, cs). key \<in> set names) m'"
    by (auto simp: initializeComponentStatuses_def split: prod.splits option.splits)
  have ok0: "statuses_ok []" by (simp add: statuses_ok_def)
  note facts = initialize_loop_ok [OF loop ok0]
  have ok: "statuses_ok m" using facts unfolding m by (intro statuses_ok_filter) simp
  have "set (map fst m') = ac_name ` set comps"
  proof -
    have "dom (map_of m') = ac_name ` set comps"
      using facts by (auto simp: dom_def)
    then show ?thesis by (simp add: dom_map_of_keys)
  qed
  then have keys: "set (map fst m') = set names" using facts by simp
  have "key \<in> set names" if "(key, cs) \<in> set m'" for key cs
    using that unfolding keys [symmetric] by force
  then have "m = m'" unfolding m by (intro filter_True) blast
  with keys facts have "set (map fst m) = ac_name ` set comps" by simp
  with ok facts show ?thesis by simp
qed

lemma initializeComponentStatuses_error_iff:
  "fst (initializeComponentStatuses comps m) = None \<longleftrightarrow>
     [] \<notin> ac_name ` set comps \<and> distinct (map ac_name comps)"
  using initialize_loop_error_iff [of comps "[]" m]
  by (auto simp: initializeComponentStatuses_def split: prod.splits option.splits)

subsection \<open>The list of the status\<close>

lemma map_filter_keys:
  assumes "statuses_ok m" "set ks \<subseteq> set (map fst m)"
  shows "map cs_name (List.map_filter (map_of m) ks) = ks"
  using assms(2)
proof (induction ks)
  case (Cons key ks)
  then obtain cs where "map_of m key = Some cs"
    using map_of_eq_None_iff [of m key] by (auto simp del: map_of_eq_None_iff)
  with Cons statuses_ok_lookup [OF assms(1)] show ?case by (simp add: map_filter_simps)
qed (simp add: map_filter_simps)

lemma map_filter_set:
  assumes "statuses_ok m" "set ks = set (map fst m)"
  shows "set (List.map_filter (map_of m) ks) = snd ` set m"
proof -
  have "set (List.map_filter (map_of m) ks) = {cs. \<exists>key \<in> set ks. map_of m key = Some cs}"
    by (induction ks) (auto simp: map_filter_simps split: option.splits)
  also have "\<dots> = {cs. \<exists>key \<in> set (map fst m). (key, cs) \<in> set m}"
    using assms by (simp add: statuses_ok_def amap_ok_def map_of_eq_Some_iff)
  also have "\<dots> = snd ` set m" by force
  finally show ?thesis .
qed

lemma slice_props:
  assumes "statuses_ok m" "range_law k"
  shows "set (mapToSliceComponentStatus k m) = snd ` set m"
    "distinct (map cs_name (mapToSliceComponentStatus k m))"
    "sorted (map cs_name (mapToSliceComponentStatus k m))"
proof -
  have perm: "permutes (lib_range k)" using assms(2) by (simp add: range_law_def)
  let ?ks = "lib_range k (map fst m)"
  have ks: "set ?ks = set (map fst m)" "distinct ?ks"
    using permutes_set [OF perm] permutes_distinct [OF perm] assms(1)
    by (auto simp: statuses_ok_def amap_ok_def)
  show "set (mapToSliceComponentStatus k m) = snd ` set m"
    using map_filter_set [OF assms(1) ks(1)] by (simp add: mapToSliceComponentStatus_def)
  have "map cs_name (List.map_filter (map_of m) ?ks) = ?ks"
    by (rule map_filter_keys [OF assms(1)]) (simp add: ks)
  with ks(2) have "distinct (map cs_name (List.map_filter (map_of m) ?ks))" by simp
  then show "distinct (map cs_name (mapToSliceComponentStatus k m))"
    unfolding mapToSliceComponentStatus_def by (simp add: distinct_map distinct_sort inj_on_def)
  show "sorted (map cs_name (mapToSliceComponentStatus k m))"
    by (simp add: mapToSliceComponentStatus_def)
qed

lemma sorted_by_key_unique:
  assumes "set xs = set ys" "distinct (map f xs)" "distinct (map f ys)"
    "sorted (map f xs)" "sorted (map f ys)"
  shows "xs = ys"
proof -
  have "map f xs = map f ys"
    by (rule sorted_distinct_set_unique) (use assms in auto)
  moreover have "inj_on f (set xs \<union> set ys)" using assms(1,2) by (simp add: distinct_map)
  ultimately show ?thesis by (simp add: inj_on_map_eq_map)
qed

text \<open>The list does not depend on the order in which the map is visited.\<close>

lemma slice_order_independent:
  assumes "statuses_ok m" "range_law k" "range_law k'"
  shows "mapToSliceComponentStatus k m = mapToSliceComponentStatus k' m"
  by (rule sorted_by_key_unique [where f = cs_name])
    (simp_all add: slice_props [OF assms(1,2)] slice_props [OF assms(1,3)])

subsection \<open>Properties\<close>

text \<open>
  The list of component statuses that is written holds the entries of the map, sorted by name,
  each once, and does not depend on the order in which Go visits the map.
\<close>

theorem component_list_canonical:
  assumes "statuses_ok m" "range_law k" "range_law k'"
  shows "mapToSliceComponentStatus k m = mapToSliceComponentStatus k' m \<and>
    set (mapToSliceComponentStatus k m) = snd ` set m \<and>
    sorted (map cs_name (mapToSliceComponentStatus k m)) \<and>
    distinct (map cs_name (mapToSliceComponentStatus k m))"
  using slice_order_independent [OF assms] slice_props [OF assms(1,2)] by simp

definition example_statuses :: status_map where
  "example_statuses = [(''web'', initial_status ''web''), (''db'', initial_status ''db'')]"

theorem component_list_canonical_witness:
  "mapToSliceComponentStatus bare_cluster example_statuses =
     mapToSliceComponentStatus (bare_cluster\<lparr>lib_range := rev\<rparr>) example_statuses"
proof -
  have "statuses_ok example_statuses"
    by (simp add: statuses_ok_def amap_ok_def example_statuses_def initial_status_def)
  moreover have "range_law (bare_cluster\<lparr>lib_range := rev\<rparr>)" by (simp add: range_law_def permutes_rev)
  ultimately show ?thesis using component_list_canonical bare_laws(4) by blast
qed

text \<open>
  Two lists of component statuses with distinct names count as equal exactly when they hold the
  same statuses; so a status update is skipped only if nothing in them changed.
\<close>

theorem component_comparison_exact:
  assumes "distinct (map cs_name s1)" "distinct (map cs_name s2)"
  shows "componentStatusesEqual s1 s2 = (set s1 = set s2)"
  by (rule componentStatusesEqual_agree [OF assms])

theorem component_comparison_exact_witness:
  "componentStatusesEqual [initial_status ''web'', initial_status ''db''] [initial_status ''db'', initial_status ''web'']"
  using component_comparison_exact
    [of "[initial_status ''web'', initial_status ''db'']" "[initial_status ''db'', initial_status ''web'']"]
  by (auto simp: initial_status_def)

text \<open>
  Two condition lists with distinct types count as equal exactly when they have the same types and
  each type has the same status, reason and message, whatever the transition times.
\<close>

theorem condition_comparison_exact:
  assumes "distinct (map cond_type c1)" "distinct (map cond_type c2)"
  shows "conditionsEqual c1 c2 = agree_on cond_type same_condition c1 c2"
  using conditionsEqual_agree [OF assms] by (auto simp: agree_on_def same_condition_def)

theorem condition_comparison_exact_witness:
  "conditionsEqual [mk_condition ''Ready'' ConditionTrue ''r'' ''m'']
     [(mk_condition ''Ready'' ConditionTrue ''r'' ''m'')\<lparr>cond_lastTransitionTime := ''later''\<rparr>]"
  using condition_comparison_exact [of "[mk_condition ''Ready'' ConditionTrue ''r'' ''m'']"
      "[(mk_condition ''Ready'' ConditionTrue ''r'' ''m'')\<lparr>cond_lastTransitionTime := ''later''\<rparr>]"]
  by (simp add: agree_on_def same_condition_def mk_condition_def)

text \<open>
  The component statuses are initialised without an error exactly when every component has a name
  and no name occurs twice.
\<close>

theorem initialisation_error:
  "(fst (initializeComponentStatuses comps m) = None) =
     ([] \<notin> set (map ac_name comps) \<and> distinct (map ac_name comps))"
  using initializeComponentStatuses_error_iff by simp

end
