(* ===== verification/WebRecorder.thy ===== *)
theory WebRecorder
  imports AppTypes Sha256
begin

text \<open>
  \<^verbatim>\<open>pkg/webrecorder/recorder.go\<close>: the event recorder that posts structured events to a webhook.
  It remembers the digests of what it sent (change id, phase, step, status) and forgets them after
  a time to live; sending makes up to three attempts with a growing pause. \<open>digest\<close> is the hash of an
  event, in the controller \<open>event_digest\<close>; \<open>marshal\<close> is the JSON encoder (\<open>marshal_event\<close> of theory
  \<open>Payloads\<close>), \<open>post\<close> the HTTP client.
  Times are whole seconds.
\<close>

definition PhaseKey :: string where "PhaseKey = ''infini.cloud/phase''"
definition StatusKey :: string where "StatusKey = ''infini.cloud/status''"
definition StepKey :: string where "StepKey = ''infini.cloud/step''"
definition StatusSuccess :: string where "StatusSuccess = ''success''"
definition StatusFailure :: string where "StatusFailure = ''failed''"
definition StatusInProgress :: string where "StatusInProgress = ''in_progress''"
definition WebhookRetryMaxAttempts :: nat where "WebhookRetryMaxAttempts = 3"
definition WebhookRetryInitialInterval :: nat where "WebhookRetryInitialInterval = 10"

record resourceChange =
  rch_cpuBefore :: string
  rch_cpuAfter :: string
  rch_memoryBefore :: string
  rch_memoryAfter :: string
  rch_diskBefore :: string
  rch_diskAfter :: string
  rch_replicasBefore :: "int32 option"
  rch_replicasAfter :: "int32 option"

record webhookEvent =
  we_changeID :: string
  we_clusterID :: string
  we_phase :: string
  we_level :: string
  we_message :: string
  we_timestamp :: string
  we_payload :: str_map
  we_status :: string
  we_step :: string
  we_resourceChange :: "resourceChange option"

text \<open>\<open>wr_wraps\<close>: is there an underlying recorder? \<open>wr_sent\<close>: digest and time of what was sent.\<close>

record webhookRecorder =
  wr_wraps :: bool
  wr_webhookURL :: string
  wr_eventID :: string
  wr_clusterID :: string
  wr_sent :: "(string, nat) amap"
  wr_eventTTL :: nat

text \<open>What a recorder gives to the outside: a Kubernetes event, or the start of a webhook post.\<close>

datatype emitted =
    KubeEvent string string string
  | WebhookPost string webhookEvent

definition NewWebhookEventRecorder :: "string \<Rightarrow> string \<Rightarrow> string \<Rightarrow> webhookRecorder" where
  "NewWebhookEventRecorder webhookURL eventID clusterID =
     \<lparr>wr_wraps = False, wr_webhookURL = webhookURL, wr_eventID = eventID,
      wr_clusterID = clusterID, wr_sent = [], wr_eventTTL = 3600\<rparr>"

subsection \<open>Deduplication\<close>

text \<open>The first half of a SHA-256, in hexadecimal.\<close>

definition event_digest :: "string \<Rightarrow> string" where
  "event_digest data = hex_text (take 16 (Sum256 data))"

definition generateEventKey ::
    "(string \<Rightarrow> string) \<Rightarrow> string \<Rightarrow> string \<Rightarrow> string \<Rightarrow> string \<Rightarrow> string" where
  "generateEventKey digest changeID phase step status =
     digest (changeID @ '':'' @ phase @ '':'' @ step @ '':'' @ status)"

text \<open>
  The test reads the map (\<^verbatim>\<open>Load\<close>) and then writes it (\<^verbatim>\<open>Store\<close>). Each is atomic, the two together are
  not; \<open>shouldSendEvent\<close> is a call with nothing in between.
\<close>

definition event_known :: "webhookRecorder \<Rightarrow> string \<Rightarrow> bool" where
  "event_known r key \<longleftrightarrow> map_of (wr_sent r) key \<noteq> None"

definition mark_sent :: "nat \<Rightarrow> string \<Rightarrow> webhookRecorder \<Rightarrow> webhookRecorder" where
  "mark_sent now key r = r\<lparr>wr_sent := AList.update key now (wr_sent r)\<rparr>"

definition shouldSendEvent ::
    "(string \<Rightarrow> string) \<Rightarrow> nat \<Rightarrow> webhookRecorder \<Rightarrow> string \<Rightarrow> string \<Rightarrow> string \<Rightarrow> string
      \<Rightarrow> bool \<times> webhookRecorder" where
  "shouldSendEvent digest now r changeID phase step status =
     (let key = generateEventKey digest changeID phase step status
      in if event_known r key then (False, r) else (True, mark_sent now key r))"

text \<open>One round of the clean-up goroutine.\<close>

definition cleanupOldEvents :: "nat \<Rightarrow> webhookRecorder \<Rightarrow> webhookRecorder" where
  "cleanupOldEvents now r =
     r\<lparr>wr_sent := filter (\<lambda>(key, sentTime). \<not> (int now - int sentTime > int (wr_eventTTL r))) (wr_sent r)\<rparr>"

subsection \<open>Recording\<close>

definition Event ::
    "webhookRecorder option \<Rightarrow> string \<Rightarrow> string \<Rightarrow> string \<Rightarrow> emitted list" where
  "Event r eventtype reason message =
     (case r of
        None \<Rightarrow> []
      | Some wr \<Rightarrow> if wr_wraps wr then [KubeEvent eventtype reason message] else [])"

text \<open>\<open>message\<close> is the formatted message, \<open>stamp\<close> the formatted time. A nil receiver does nothing.\<close>

definition Eventf ::
    "webhookRecorder option \<Rightarrow> string \<Rightarrow> string \<Rightarrow> string \<Rightarrow> emitted list" where
  "Eventf r eventtype reason message =
     (case r of
        None \<Rightarrow> []
      | Some wr \<Rightarrow> if wr_wraps wr then [KubeEvent eventtype reason message] else [])"

definition AnnotatedEventfWithResourceChange ::
    "(string \<Rightarrow> string) \<Rightarrow> nat \<Rightarrow> string \<Rightarrow> webhookRecorder option \<Rightarrow> str_map \<Rightarrow> resourceChange option
      \<Rightarrow> string \<Rightarrow> string \<Rightarrow> string \<Rightarrow> webhookRecorder option \<times> emitted list" where
  "AnnotatedEventfWithResourceChange digest now stamp receiver annotations rchange eventtype reason message =
     (case receiver of
        None \<Rightarrow> (None, [])
      | Some r \<Rightarrow>
     (let inner = (if wr_wraps r then [KubeEvent eventtype reason message] else []) in
      if wr_webhookURL r = [] then (Some r, inner)
      else
        let phase = lookup_str annotations PhaseKey;
            status = lookup_str annotations StatusKey;
            step = lookup_str annotations StepKey
        in case shouldSendEvent digest now r (wr_eventID r) phase step status of
             (False, r') \<Rightarrow> (Some r', inner)
           | (True, r') \<Rightarrow>
               (Some r', inner @ [WebhookPost (wr_webhookURL r)
                  \<lparr>we_changeID = wr_eventID r, we_clusterID = wr_clusterID r, we_phase = phase,
                   we_level = eventtype, we_message = message, we_timestamp = stamp,
                   we_payload = [''reason'' \<mapsto> reason], we_status = status, we_step = step,
                   we_resourceChange = rchange\<rparr>])))"

definition AnnotatedEventf ::
    "(string \<Rightarrow> string) \<Rightarrow> nat \<Rightarrow> string \<Rightarrow> webhookRecorder option \<Rightarrow> str_map
      \<Rightarrow> string \<Rightarrow> string \<Rightarrow> string \<Rightarrow> webhookRecorder option \<times> emitted list" where
  "AnnotatedEventf digest now stamp r annotations eventtype reason message =
     AnnotatedEventfWithResourceChange digest now stamp r annotations None eventtype reason message"

subsection \<open>Sending\<close>

definition isNetworkError :: "goerror option \<Rightarrow> bool" where
  "isNetworkError err =
     (case err of
        None \<Rightarrow> False
      | Some e \<Rightarrow>
          str_contains (err_msg e) ''connection refused'' \<or> str_contains (err_msg e) ''EOF'' \<or>
          str_contains (err_msg e) ''no such host'' \<or>
          str_contains (err_msg e) ''network is unreachable'')"

text \<open>The answer to one attempt: the request cannot be built, the call fails, or a status code.\<close>

datatype httpAnswer = BadRequest goerror | CallFailed goerror | Status nat

datatype sendOutcome =
    Delivered | NotMarshalled | NotRequested | NetworkDown | RetriesExhausted

datatype sendAction = Wait nat | Post

definition backoff :: "nat \<Rightarrow> nat" where
  "backoff attempt = WebhookRetryInitialInterval * 2 ^ (attempt - 1)"

text \<open>The loop from \<open>attempt\<close>, with the number of attempts that remain; the actions are logged.\<close>

fun send_attempts ::
    "(string \<Rightarrow> 'w \<Rightarrow> httpAnswer \<times> 'w) \<Rightarrow> string \<Rightarrow> nat \<Rightarrow> nat \<Rightarrow> 'w
      \<Rightarrow> (sendOutcome \<times> sendAction list) \<times> 'w" where
  "send_attempts post jsonData attempt 0 w = ((RetriesExhausted, []), w)"
| "send_attempts post jsonData attempt (Suc n) w =
     (let waits = (if attempt > 0 then [Wait (backoff attempt)] else []) in
      case post jsonData w of
        (BadRequest e, w') \<Rightarrow> ((NotRequested, waits), w')
      | (CallFailed e, w') \<Rightarrow>
          if isNetworkError (Some e) then ((NetworkDown, waits @ [Post]), w')
          else (case send_attempts post jsonData (Suc attempt) n w' of
                  ((out, acts), w'') \<Rightarrow> ((out, waits @ Post # acts), w''))
      | (Status code, w') \<Rightarrow>
          if 200 \<le> code \<and> code < 300 then ((Delivered, waits @ [Post]), w')
          else (case send_attempts post jsonData (Suc attempt) n w' of
                  ((out, acts), w'') \<Rightarrow> ((out, waits @ Post # acts), w'')))"

definition sendEvent ::
    "(webhookEvent \<Rightarrow> goerror + string) \<Rightarrow> (string \<Rightarrow> 'w \<Rightarrow> httpAnswer \<times> 'w) \<Rightarrow> webhookEvent \<Rightarrow> 'w
      \<Rightarrow> (sendOutcome \<times> sendAction list) \<times> 'w" where
  "sendEvent marshal post ev w =
     (case marshal ev of
        Inl e \<Rightarrow> ((NotMarshalled, []), w)
      | Inr jsonData \<Rightarrow> send_attempts post jsonData 0 WebhookRetryMaxAttempts w)"

fun waited :: "sendAction list \<Rightarrow> nat" where
  "waited [] = 0"
| "waited (Wait n # as) = n + waited as"
| "waited (Post # as) = waited as"

definition posts :: "sendAction list \<Rightarrow> nat" where
  "posts as = length (filter (\<lambda>a. a = Post) as)"

lemma posts_simps [simp]:
  "posts [] = 0" "posts (Post # as) = Suc (posts as)" "posts (Wait n # as) = posts as"
  "posts (as @ bs) = posts as + posts bs"
  by (simp_all add: posts_def)

lemma waited_append [simp]: "waited (as @ bs) = waited as + waited bs"
  by (induction as rule: waited.induct) auto

lemma send_attempts_posts:
  "posts (snd (fst (send_attempts post json a n w))) \<le> n"
proof (induction n arbitrary: a w)
  case (Suc n)
  obtain ans w' where call: "post json w = (ans, w')" by fastforce
  obtain out acts w'' where rest: "send_attempts post json (Suc a) n w' = ((out, acts), w'')"
    by (metis surj_pair)
  from Suc.IH [of "Suc a" w'] rest have "posts acts \<le> n" by simp
  with call rest show ?case by (cases ans) (auto simp: Let_def)
qed simp

text \<open>The pauses are those of the attempts after the first.\<close>

lemma send_attempts_waited:
  "waited (snd (fst (send_attempts post json a n w))) \<le> (\<Sum>i \<in> {a..<a + n}. if i > 0 then backoff i else 0)"
proof (induction n arbitrary: a w)
  case (Suc n)
  let ?f = "\<lambda>i. if i > 0 then backoff i else 0"
  obtain ans w' where call: "post json w = (ans, w')" by fastforce
  obtain out acts w'' where rest: "send_attempts post json (Suc a) n w' = ((out, acts), w'')"
    by (metis surj_pair)
  from Suc.IH [of "Suc a" w'] rest have IH: "waited acts \<le> sum ?f {Suc a..<Suc a + n}" by simp
  have "sum ?f {a..<a + Suc n} = ?f a + sum ?f {Suc a..<Suc a + n}"
    by (simp add: sum.atLeast_Suc_lessThan)
  with IH call rest show ?case by (cases ans) (auto simp: Let_def)
qed simp

text \<open>Success means that the last post was answered with a success code.\<close>

lemma send_attempts_delivered:
  assumes "send_attempts post json a n w = ((Delivered, acts), w')"
  shows "\<exists>w0 code. post json w0 = (Status code, w') \<and> 200 \<le> code \<and> code < 300"
  using assms
proof (induction n arbitrary: a w acts)
  case (Suc n)
  obtain ans w1 where call: "post json w = (ans, w1)" by fastforce
  show ?case
  proof (cases "\<exists>acts'. send_attempts post json (Suc a) n w1 = ((Delivered, acts'), w')")
    case True
    then show ?thesis using Suc.IH by blast
  next
    case False
    with Suc.prems call have "\<exists>code. ans = Status code \<and> 200 \<le> code \<and> code < 300 \<and> w1 = w'"
      by (cases ans) (auto simp: Let_def split: if_splits prod.splits)
    with call show ?thesis by blast
  qed
qed simp

subsection \<open>The recorder as a state machine\<close>

text \<open>
  Its state over time: the recorder, the clock, the checks that found nothing and are not marked yet, and
  the log of what was marked (newest first). Every mark is followed by one delivery, a call of \<open>sendEvent\<close>
  with up to three posts. Of a delivery the log holds its digest, the time of its check, the number of
  deliveries that were in the log at its check, and the time of its mark. A step is a check, a check
  that recognises a duplicate, a mark, or one clean-up round; checks and marks of several goroutines may
  interleave, and time does not go back.
\<close>

record delivery =
  dl_key :: string
  dl_checked :: nat
  dl_before :: nat
  dl_marked :: nat

record recorderState =
  rst_recorder :: webhookRecorder
  rst_clock :: nat
  rst_checks :: "(string \<times> nat \<times> nat) list"
  rst_log :: "delivery list"

inductive recorder_step ::
    "(string \<Rightarrow> string) \<Rightarrow> recorderState \<Rightarrow> recorderState \<Rightarrow> bool" for digest where
  check: "rst_clock s \<le> now \<Longrightarrow> \<not> event_known (rst_recorder s) (generateEventKey digest c p st sta) \<Longrightarrow>
     recorder_step digest s (s\<lparr>rst_clock := now,
       rst_checks := (generateEventKey digest c p st sta, now, length (rst_log s)) # rst_checks s\<rparr>)"
| skip: "rst_clock s \<le> now \<Longrightarrow> event_known (rst_recorder s) (generateEventKey digest c p st sta) \<Longrightarrow>
     recorder_step digest s (s\<lparr>rst_clock := now\<rparr>)"
| mark: "rst_clock s \<le> now \<Longrightarrow> (key, checked, before) \<in> set (rst_checks s) \<Longrightarrow>
     recorder_step digest s (s\<lparr>rst_recorder := mark_sent now key (rst_recorder s), rst_clock := now,
       rst_checks := remove1 (key, checked, before) (rst_checks s),
       rst_log := \<lparr>dl_key = key, dl_checked = checked, dl_before = before, dl_marked = now\<rparr> # rst_log s\<rparr>)"
| tick: "rst_clock s \<le> now \<Longrightarrow>
     recorder_step digest s (s\<lparr>rst_recorder := cleanupOldEvents now (rst_recorder s), rst_clock := now\<rparr>)"

inductive_cases recorder_stepE: "recorder_step digest s s'"

definition recorder_start :: "string \<Rightarrow> string \<Rightarrow> string \<Rightarrow> nat \<Rightarrow> recorderState" where
  "recorder_start url eid cid t =
     \<lparr>rst_recorder = NewWebhookEventRecorder url eid cid, rst_clock = t, rst_checks = [], rst_log = []\<rparr>"

inductive recorder_reach :: "(string \<Rightarrow> string) \<Rightarrow> string \<Rightarrow> string \<Rightarrow> string \<Rightarrow> recorderState \<Rightarrow> bool"
  for digest url eid cid where
  init: "recorder_reach digest url eid cid (recorder_start url eid cid t)"
| step: "recorder_reach digest url eid cid s \<Longrightarrow> recorder_step digest s s' \<Longrightarrow>
     recorder_reach digest url eid cid s'"

text \<open>A call of \<open>shouldSendEvent\<close> that is not interrupted is a check and a mark.\<close>

lemma shouldSendEvent_steps:
  assumes "shouldSendEvent digest now (rst_recorder s) c p st sta = (True, r')" "rst_clock s \<le> now"
    and "recorder_reach digest url eid cid s"
  shows "recorder_reach digest url eid cid (s\<lparr>rst_recorder := r', rst_clock := now,
    rst_log := \<lparr>dl_key = generateEventKey digest c p st sta, dl_checked = now,
      dl_before = length (rst_log s), dl_marked = now\<rparr> # rst_log s\<rparr>)"
proof -
  let ?key = "generateEventKey digest c p st sta"
  let ?s1 = "s\<lparr>rst_clock := now, rst_checks := (?key, now, length (rst_log s)) # rst_checks s\<rparr>"
  from assms(1) have new: "\<not> event_known (rst_recorder s) ?key" and r': "r' = mark_sent now ?key (rst_recorder s)"
    by (auto simp: shouldSendEvent_def Let_def split: if_splits)
  have 1: "recorder_reach digest url eid cid ?s1"
    by (rule recorder_reach.step [OF assms(3) recorder_step.check [OF assms(2) new]])
  have "rst_clock ?s1 \<le> now" "(?key, now, length (rst_log s)) \<in> set (rst_checks ?s1)" by simp_all
  from recorder_reach.step [OF 1 recorder_step.mark [OF this]] show ?thesis by (simp add: r')
qed

text \<open>
  A delivery that was marked before the check of another one with the same digest is older than the time
  to live: the last \<open>dl_before d\<close> entries of the log behind \<open>d\<close> are those of before its check.
\<close>

fun spaced :: "nat \<Rightarrow> delivery list \<Rightarrow> bool" where
  "spaced ttl [] = True"
| "spaced ttl (d # log) =
     ((\<forall>d' \<in> set (drop (length log - dl_before d) log). dl_key d' = dl_key d \<longrightarrow>
         dl_marked d' + ttl < dl_checked d) \<and> spaced ttl log)"

text \<open>
  The invariant: what is not remembered was marked longer ago than the time to live, and a check that
  found nothing came longer than that after the deliveries that were in the log then.
\<close>

definition recorder_inv :: "recorderState \<Rightarrow> bool" where
  "recorder_inv s \<longleftrightarrow>
     wr_eventTTL (rst_recorder s) = 3600 \<and> spaced 3600 (rst_log s) \<and> amap_ok (wr_sent (rst_recorder s)) \<and>
     (\<forall>(key, checked, before) \<in> set (rst_checks s). before \<le> length (rst_log s) \<and>
        (\<forall>d \<in> set (drop (length (rst_log s) - before) (rst_log s)). dl_key d = key \<longrightarrow>
           dl_marked d + 3600 < checked)) \<and>
     (\<forall>d \<in> set (rst_log s). dl_marked d \<le> rst_clock s \<and>
        (case map_of (wr_sent (rst_recorder s)) (dl_key d) of
           None \<Rightarrow> dl_marked d + 3600 < rst_clock s | Some t' \<Rightarrow> dl_marked d \<le> t'))"

lemma recorder_invD:
  assumes "recorder_inv s"
  shows "wr_eventTTL (rst_recorder s) = 3600" "spaced 3600 (rst_log s)" "amap_ok (wr_sent (rst_recorder s))"
    "(key, checked, before) \<in> set (rst_checks s) \<Longrightarrow> before \<le> length (rst_log s)"
    "(key, checked, before) \<in> set (rst_checks s) \<Longrightarrow>
      d \<in> set (drop (length (rst_log s) - before) (rst_log s)) \<Longrightarrow> dl_key d = key \<Longrightarrow> dl_marked d + 3600 < checked"
    "d \<in> set (rst_log s) \<Longrightarrow> dl_marked d \<le> rst_clock s"
    "d \<in> set (rst_log s) \<Longrightarrow> (case map_of (wr_sent (rst_recorder s)) (dl_key d) of
       None \<Rightarrow> dl_marked d + 3600 < rst_clock s | Some t' \<Rightarrow> dl_marked d \<le> t')"
  using assms unfolding recorder_inv_def by fast+

lemma recorder_invI:
  assumes "wr_eventTTL (rst_recorder s) = 3600" "spaced 3600 (rst_log s)" "amap_ok (wr_sent (rst_recorder s))"
    and "\<And>key checked before. (key, checked, before) \<in> set (rst_checks s) \<Longrightarrow> before \<le> length (rst_log s) \<and>
      (\<forall>d \<in> set (drop (length (rst_log s) - before) (rst_log s)). dl_key d = key \<longrightarrow> dl_marked d + 3600 < checked)"
    and "\<And>d. d \<in> set (rst_log s) \<Longrightarrow> dl_marked d \<le> rst_clock s \<and>
      (case map_of (wr_sent (rst_recorder s)) (dl_key d) of
         None \<Rightarrow> dl_marked d + 3600 < rst_clock s | Some t' \<Rightarrow> dl_marked d \<le> t')"
  shows "recorder_inv s"
  using assms unfolding recorder_inv_def by blast

lemma map_of_filter_keep:
  assumes "amap_ok m"
  shows "map_of (filter (\<lambda>(k, v). P v) m) k =
    (case map_of m k of None \<Rightarrow> None | Some v \<Rightarrow> if P v then Some v else None)"
  using assms
proof (induction m)
  case (Cons e m)
  obtain a b where e: "e = (a, b)" by (cases e)
  from Cons.prems have "map_of m a = None" "amap_ok m"
    by (auto simp: amap_ok_def e map_of_eq_None_iff)
  with Cons.IH show ?case by (auto simp: e split: option.splits)
qed simp

lemma recorder_inv_init: "recorder_inv (recorder_start url eid cid t)"
  by (simp add: recorder_inv_def recorder_start_def NewWebhookEventRecorder_def amap_ok_def)

lemma recorder_inv_clock:
  "recorder_inv s \<Longrightarrow> rst_clock s \<le> now \<Longrightarrow> recorder_inv (s\<lparr>rst_clock := now\<rparr>)"
  unfolding recorder_inv_def by (fastforce split: option.splits)

text \<open>A check that finds nothing comes longer than the time to live after every mark of its digest.\<close>

lemma recorder_inv_check:
  assumes inv: "recorder_inv s" and clock: "rst_clock s \<le> now" and fresh: "\<not> event_known (rst_recorder s) key"
  shows "recorder_inv (s\<lparr>rst_clock := now, rst_checks := (key, now, length (rst_log s)) # rst_checks s\<rparr>)"
    (is "recorder_inv ?s")
proof (rule recorder_invI)
  have later: "recorder_inv (s\<lparr>rst_clock := now\<rparr>)" by (rule recorder_inv_clock [OF inv clock])
  show "wr_eventTTL (rst_recorder ?s) = 3600" "spaced 3600 (rst_log ?s)" "amap_ok (wr_sent (rst_recorder ?s))"
    using recorder_invD(1-3) [OF inv] by simp_all
  have "dl_marked d + 3600 < now" if "d \<in> set (rst_log s)" "dl_key d = key" for d
    using recorder_invD(7) [OF inv that(1)] that(2) fresh clock by (simp add: event_known_def)
  then show "before \<le> length (rst_log ?s) \<and>
      (\<forall>d \<in> set (drop (length (rst_log ?s) - before) (rst_log ?s)). dl_key d = key' \<longrightarrow> dl_marked d + 3600 < checked)"
    if "(key', checked, before) \<in> set (rst_checks ?s)" for key' checked before
    using that recorder_invD(4,5) [OF inv] by auto
  show "dl_marked d \<le> rst_clock ?s \<and> (case map_of (wr_sent (rst_recorder ?s)) (dl_key d) of
      None \<Rightarrow> dl_marked d + 3600 < rst_clock ?s | Some t' \<Rightarrow> dl_marked d \<le> t')" if "d \<in> set (rst_log ?s)" for d
    using recorder_invD(6,7) [OF later, of d] that by (simp split: option.splits)
qed

lemma recorder_inv_mark:
  assumes inv: "recorder_inv s" and clock: "rst_clock s \<le> now"
    and pending: "(key, checked, before) \<in> set (rst_checks s)"
  shows "recorder_inv (s\<lparr>rst_recorder := mark_sent now key (rst_recorder s), rst_clock := now,
       rst_checks := remove1 (key, checked, before) (rst_checks s),
       rst_log := \<lparr>dl_key = key, dl_checked = checked, dl_before = before, dl_marked = now\<rparr> # rst_log s\<rparr>)"
    (is "recorder_inv ?s")
proof (rule recorder_invI)
  let ?d = "\<lparr>dl_key = key, dl_checked = checked, dl_before = before, dl_marked = now\<rparr>"
  show "wr_eventTTL (rst_recorder ?s) = 3600" "amap_ok (wr_sent (rst_recorder ?s))"
    using recorder_invD(1,3) [OF inv] by (simp_all add: mark_sent_def amap_ok_update)
  show "spaced 3600 (rst_log ?s)"
    using recorder_invD(2) [OF inv] recorder_invD(5) [OF inv pending] by simp
  fix key' checked' before'
  assume "(key', checked', before') \<in> set (rst_checks ?s)"
  then have old: "(key', checked', before') \<in> set (rst_checks s)" using set_remove1_subset [of "(key, checked, before)" "rst_checks s"] by auto
  from recorder_invD(4) [OF inv old]
  have "drop (length (rst_log ?s) - before') (rst_log ?s) = drop (length (rst_log s) - before') (rst_log s)"
    by (simp add: Suc_diff_le)
  with recorder_invD(4,5) [OF inv old] show "before' \<le> length (rst_log ?s) \<and>
      (\<forall>d \<in> set (drop (length (rst_log ?s) - before') (rst_log ?s)). dl_key d = key' \<longrightarrow> dl_marked d + 3600 < checked')"
    by simp
next
  fix d
  assume "d \<in> set (rst_log ?s)"
  then consider "d = \<lparr>dl_key = key, dl_checked = checked, dl_before = before, dl_marked = now\<rparr>" | "d \<in> set (rst_log s)"
    by auto
  then show "dl_marked d \<le> rst_clock ?s \<and>
      (case map_of (wr_sent (rst_recorder ?s)) (dl_key d) of
         None \<Rightarrow> dl_marked d + 3600 < rst_clock ?s | Some t' \<Rightarrow> dl_marked d \<le> t')"
  proof cases
    case 1
    then show ?thesis by (simp add: mark_sent_def update_conv')
  next
    case 2
    with recorder_invD(6,7) [OF inv 2] clock show ?thesis
      by (auto simp: mark_sent_def update_conv' split: option.splits)
  qed
qed

lemma recorder_inv_tick:
  assumes inv: "recorder_inv s" and clock: "rst_clock s \<le> now"
  shows "recorder_inv (s\<lparr>rst_recorder := cleanupOldEvents now (rst_recorder s), rst_clock := now\<rparr>)"
    (is "recorder_inv ?s")
proof (rule recorder_invI)
  let ?r = "rst_recorder s"
  define P where "P = (\<lambda>t. \<not> (int now - int t > int (wr_eventTTL ?r)))"
  note ttl = recorder_invD(1) [OF inv] and ok = recorder_invD(3) [OF inv]
  have sent: "wr_sent (cleanupOldEvents now ?r) = filter (\<lambda>(k, v). P v) (wr_sent ?r)"
    by (simp add: cleanupOldEvents_def P_def)
  show "wr_eventTTL (rst_recorder ?s) = 3600" "spaced 3600 (rst_log ?s)"
    using ttl recorder_invD(2) [OF inv] by (simp_all add: cleanupOldEvents_def)
  show "amap_ok (wr_sent (rst_recorder ?s))"
    using ok by (simp add: sent amap_ok_def distinct_map_filter)
  show "before \<le> length (rst_log ?s) \<and>
      (\<forall>d \<in> set (drop (length (rst_log ?s) - before) (rst_log ?s)). dl_key d = key \<longrightarrow> dl_marked d + 3600 < checked)"
    if "(key, checked, before) \<in> set (rst_checks ?s)" for key checked before
    using that recorder_invD(4,5) [OF inv] by auto
  fix d
  assume "d \<in> set (rst_log ?s)"
  then have d: "d \<in> set (rst_log s)" by simp
  from recorder_invD(6,7) [OF inv d] clock show "dl_marked d \<le> rst_clock ?s \<and>
      (case map_of (wr_sent (rst_recorder ?s)) (dl_key d) of
         None \<Rightarrow> dl_marked d + 3600 < rst_clock ?s | Some t' \<Rightarrow> dl_marked d \<le> t')"
    by (simp add: sent map_of_filter_keep [OF ok]) (auto simp: P_def ttl split: option.splits)
qed

lemma recorder_step_inv: "recorder_step digest s s' \<Longrightarrow> recorder_inv s \<Longrightarrow> recorder_inv s'"
  by (induction rule: recorder_step.induct)
    (auto intro: recorder_inv_check recorder_inv_clock recorder_inv_mark recorder_inv_tick)

lemma recorder_reach_inv: "recorder_reach digest url eid cid s \<Longrightarrow> recorder_inv s"
  by (induction rule: recorder_reach.induct) (auto simp: recorder_inv_init intro: recorder_step_inv)

subsection \<open>Properties\<close>

text \<open>
  C32. In every state that a recorder reaches, a delivery (one call of \<open>sendEvent\<close>, with up to three posts)
  was checked more than an hour after every delivery with the same digest that was marked before that
  check, whatever events, duplicates and clean-up rounds come in between. So two deliveries of one
  digest are more than an hour apart, unless the check of the later came before the mark of the earlier:
  checking and marking are two steps.
\<close>

theorem duplicates_are_spaced:
  assumes "recorder_reach digest url eid cid s"
  shows "spaced 3600 (rst_log s)"
  by (rule recorder_invD(2) [OF recorder_reach_inv [OF assms]])

definition example_recorder :: webhookRecorder where
  "example_recorder = NewWebhookEventRecorder ''http://hook'' ''c1'' ''k1''"

text \<open>
  An event is delivered at second 7 and again after a clean-up round at second 4000, with a second between
  check and mark.
\<close>

lemma two_deliveries_reach:
  obtains s where "recorder_reach (\<lambda>s. s) ''http://hook'' ''c1'' ''k1'' s"
    "rst_log s = [\<lparr>dl_key = ''c1:p:s:ok'', dl_checked = 4001, dl_before = 1, dl_marked = 4002\<rparr>,
      \<lparr>dl_key = ''c1:p:s:ok'', dl_checked = 7, dl_before = 0, dl_marked = 7\<rparr>]"
proof -
  let ?reach = "recorder_reach (\<lambda>s. s) ''http://hook'' ''c1'' ''k1''" and ?key = "''c1:p:s:ok''"
  let ?first = "\<lparr>dl_key = ?key, dl_checked = 7, dl_before = 0, dl_marked = 7\<rparr>"
  let ?s1 = "(recorder_start ''http://hook'' ''c1'' ''k1'' 0)
    \<lparr>rst_recorder := mark_sent 7 ?key example_recorder, rst_clock := 7, rst_log := [?first]\<rparr>"
  let ?s2 = "?s1\<lparr>rst_recorder := cleanupOldEvents 4000 (rst_recorder ?s1), rst_clock := 4000\<rparr>"
  let ?s3 = "?s2\<lparr>rst_clock := 4001, rst_checks := [(?key, 4001, 1)]\<rparr>"
  let ?s4 = "?s3\<lparr>rst_recorder := mark_sent 4002 ?key (rst_recorder ?s3), rst_clock := 4002,
    rst_checks := remove1 (?key, 4001, 1) (rst_checks ?s3),
    rst_log := \<lparr>dl_key = ?key, dl_checked = 4001, dl_before = 1, dl_marked = 4002\<rparr> # rst_log ?s3\<rparr>"
  have key: "generateEventKey (\<lambda>s. s) ''c1'' ''p'' ''s'' ''ok'' = ?key" by (simp add: generateEventKey_def)
  have "shouldSendEvent (\<lambda>s. s) 7 example_recorder ''c1'' ''p'' ''s'' ''ok'' = (True, mark_sent 7 ?key example_recorder)"
    by (simp add: shouldSendEvent_def key event_known_def example_recorder_def NewWebhookEventRecorder_def)
  then have 1: "?reach ?s1"
    using shouldSendEvent_steps [where s = "recorder_start ''http://hook'' ''c1'' ''k1'' 0", OF _ _ recorder_reach.init]
    by (fastforce simp: recorder_start_def key example_recorder_def)
  have 2: "?reach ?s2" by (rule recorder_reach.step [OF 1 recorder_step.tick]) simp
  have "\<not> event_known (rst_recorder ?s2) (generateEventKey (\<lambda>s. s) ''c1'' ''p'' ''s'' ''ok'')"
    by (simp add: key event_known_def cleanupOldEvents_def mark_sent_def example_recorder_def NewWebhookEventRecorder_def)
  from recorder_reach.step [OF 2 recorder_step.check [OF _ this, of 4001]]
  have 3: "?reach ?s3" by (simp add: key recorder_start_def)
  have "?reach ?s4" by (rule recorder_reach.step [OF 3 recorder_step.mark]) simp_all
  then show thesis by (rule that) simp
qed

theorem duplicates_are_spaced_witness:
  "\<exists>s first second. recorder_reach (\<lambda>s. s) ''http://hook'' ''c1'' ''k1'' s \<and> rst_log s = [second, first] \<and>
    dl_key first = dl_key second \<and> dl_marked first + 3600 < dl_checked second"
proof -
  obtain s where s: "recorder_reach (\<lambda>s. s) ''http://hook'' ''c1'' ''k1'' s"
    "rst_log s = [\<lparr>dl_key = ''c1:p:s:ok'', dl_checked = 4001, dl_before = 1, dl_marked = 4002\<rparr>,
      \<lparr>dl_key = ''c1:p:s:ok'', dl_checked = 7, dl_before = 0, dl_marked = 7\<rparr>]" by (rule two_deliveries_reach)
  from duplicates_are_spaced [OF s(1)] s show ?thesis by (intro exI [of _ s]) auto
qed

text \<open>Two goroutines that check before either has marked both deliver: the test and the mark are not atomic.\<close>

lemma overlapping_checks_deliver_twice:
  "\<exists>s. recorder_reach (\<lambda>s. s) ''http://hook'' ''c1'' ''k1'' s \<and>
    map (\<lambda>d. (dl_key d, dl_marked d)) (rst_log s) = [(''c1:p:s:ok'', 7), (''c1:p:s:ok'', 7)]"
proof -
  let ?reach = "recorder_reach (\<lambda>s. s) ''http://hook'' ''c1'' ''k1''" and ?key = "''c1:p:s:ok''"
  let ?s0 = "recorder_start ''http://hook'' ''c1'' ''k1'' 7"
  let ?s1 = "?s0\<lparr>rst_clock := 7, rst_checks := [(?key, 7, 0)]\<rparr>"
  let ?s2 = "?s1\<lparr>rst_clock := 7, rst_checks := [(?key, 7, 0), (?key, 7, 0)]\<rparr>"
  let ?s3 = "?s2\<lparr>rst_recorder := mark_sent 7 ?key (rst_recorder ?s2), rst_checks := [(?key, 7, 0)],
      rst_log := [\<lparr>dl_key = ?key, dl_checked = 7, dl_before = 0, dl_marked = 7\<rparr>]\<rparr>"
  have key: "generateEventKey (\<lambda>s. s) ''c1'' ''p'' ''s'' ''ok'' = ?key" by (simp add: generateEventKey_def)
  have new: "\<not> event_known (rst_recorder ?s0) (generateEventKey (\<lambda>s. s) ''c1'' ''p'' ''s'' ''ok'')"
    by (simp add: event_known_def recorder_start_def NewWebhookEventRecorder_def)
  from new have new1: "\<not> event_known (rst_recorder ?s1) (generateEventKey (\<lambda>s. s) ''c1'' ''p'' ''s'' ''ok'')" by simp
  have 0: "?reach ?s0" by (rule recorder_reach.init)
  from recorder_reach.step [OF 0 recorder_step.check [where now = 7, OF _ new]]
  have 1: "?reach ?s1" by (simp add: key recorder_start_def)
  from recorder_reach.step [OF 1 recorder_step.check [where now = 7, OF _ new1]]
  have 2: "?reach ?s2" by (simp add: key recorder_start_def)
  from recorder_reach.step [OF 2 recorder_step.mark [where now = 7 and key = ?key and checked = 7 and before = 0]]
  have 3: "?reach ?s3" by (simp add: recorder_start_def)
  have "rst_clock ?s3 \<le> 7" "(?key, 7, 0) \<in> set (rst_checks ?s3)" by simp_all
  from recorder_reach.step [OF 3 recorder_step.mark [OF this]] show ?thesis
    by - (rule exI, rule conjI, assumption, simp)
qed

text \<open>
  Sending an event makes at most three posts and waits at most half a minute in all: the pauses
  before the second and the third attempt are 10 and 20 seconds.
\<close>

theorem sending_is_bounded:
  "posts (snd (fst (sendEvent marshal post ev w))) \<le> 3 \<and> waited (snd (fst (sendEvent marshal post ev w))) \<le> 30"
proof (cases "marshal ev")
  case (Inr json)
  have "(\<Sum>i \<in> {0..<0 + 3}. if i > 0 then backoff i else 0) = 30"
    by (simp add: backoff_def WebhookRetryInitialInterval_def eval_nat_numeral)
  with Inr send_attempts_posts [of post json 0 3 w] send_attempts_waited [of post json 0 3 w] show ?thesis
    by (simp add: sendEvent_def WebhookRetryMaxAttempts_def)
qed (simp add: sendEvent_def)

text \<open>An event counts as delivered only when the server answered the last post with a success code.\<close>

theorem delivery_is_confirmed:
  assumes "sendEvent marshal post ev w = ((Delivered, acts), w')"
  shows "\<exists>json w0 code. marshal ev = Inr json \<and> post json w0 = (Status code, w') \<and> 200 \<le> code \<and> code < 300"
  using assms send_attempts_delivered
  by (fastforce simp: sendEvent_def split: sum.splits)

definition example_event :: webhookEvent where
  "example_event =
     \<lparr>we_changeID = ''c1'', we_clusterID = ''k1'', we_phase = [], we_level = [], we_message = [],
      we_timestamp = [], we_payload = Map.empty, we_status = [], we_step = [], we_resourceChange = None\<rparr>"

text \<open>A server that answers 503 once and 202 from then on.\<close>

definition example_post :: "string \<Rightarrow> nat \<Rightarrow> httpAnswer \<times> nat" where
  "example_post json w = (if w = 0 then Status 503 else Status 202, w + 1)"

theorem delivery_is_confirmed_witness:
  "\<exists>json w0 code. (Inr ''{}'' :: goerror + string) = Inr json \<and> example_post json w0 = (Status code, 2) \<and>
     200 \<le> code \<and> code < 300"
  using delivery_is_confirmed [of "\<lambda>ev. Inr ''{}''" example_post example_event 0 "[Post, Wait 10, Post]" 2]
  by (simp add: sendEvent_def example_post_def WebhookRetryMaxAttempts_def eval_nat_numeral backoff_def
      WebhookRetryInitialInterval_def)

end
