(* ===== verification/Registry.thy ===== *)
theory Registry
  imports Helpers
begin

text \<open>
  \<^verbatim>\<open>pkg/strategy/registry.go\<close>: the two maps from component types to strategies, and the
  registrations the strategy packages make when they are loaded. A panic is the left side of the
  result, its message the value. Both registries obey one contract, the interface
  \<open>strategy_registry\<close>: registration needs a name and a strategy, never replaces an entry, and
  touches no other entry.

  Also here: \<^verbatim>\<open>parseKubeVersion\<close> and the version test of \<^verbatim>\<open>pkg/apis/common/util/util.go\<close>, which
  decide at start-up which disruption-budget API is watched.
\<close>

subsection \<open>The registries\<close>

type_synonym 's registry = "string \<rightharpoonup> 's"

definition RegisterAppBuilderStrategy ::
    "string \<Rightarrow> 's option \<Rightarrow> 's registry \<Rightarrow> string + 's registry" where
  "RegisterAppBuilderStrategy compType strategy reg =
     (if compType = [] then Inl ''Cannot register builder strategy with an empty component type name''
      else case strategy of
        None \<Rightarrow> Inl (''Cannot register nil builder strategy for component type: '' @ compType)
      | Some s \<Rightarrow>
          if reg compType \<noteq> None
          then Inl (''Builder strategy already registered for component type: '' @ compType)
          else Inr (reg(compType \<mapsto> s)))"

definition GetAppBuilderStrategy :: "'s registry \<Rightarrow> string \<Rightarrow> 's option" where
  "GetAppBuilderStrategy reg compType = reg compType"

definition RegisterAppReconcileStrategy ::
    "string \<Rightarrow> 's option \<Rightarrow> 's registry \<Rightarrow> string + 's registry" where
  "RegisterAppReconcileStrategy compType strategy reg =
     (if compType = [] then Inl ''Cannot register reconcile strategy with an empty component type name''
      else case strategy of
        None \<Rightarrow> Inl (''Cannot register nil reconcile strategy for component type: '' @ compType)
      | Some s \<Rightarrow>
          if reg compType \<noteq> None
          then Inl (''Reconcile strategy already registered for component type: '' @ compType)
          else Inr (reg(compType \<mapsto> s)))"

definition GetAppReconcileStrategy :: "'s registry \<Rightarrow> string \<Rightarrow> 's option" where
  "GetAppReconcileStrategy reg compType = reg compType"

text \<open>A run of registrations, as the package initialisers make them; the first panic ends it.\<close>

fun register_all ::
    "(string \<Rightarrow> 's option \<Rightarrow> 's registry \<Rightarrow> string + 's registry)
      \<Rightarrow> (string \<times> 's option) list \<Rightarrow> 's registry \<Rightarrow> string + 's registry" where
  "register_all register [] reg = Inr reg"
| "register_all register ((t, s) # rs) reg =
     (case register t s reg of Inl e \<Rightarrow> Inl e | Inr reg' \<Rightarrow> register_all register rs reg')"

locale strategy_registry =
  fixes register :: "string \<Rightarrow> 's option \<Rightarrow> 's registry \<Rightarrow> string + 's registry"
    and get :: "'s registry \<Rightarrow> string \<Rightarrow> 's option"
  assumes register_ok:
      "register t s reg = Inr reg' \<Longrightarrow> t \<noteq> [] \<and> s \<noteq> None \<and> get reg t = None"
    and register_get:
      "register t s reg = Inr reg' \<Longrightarrow> get reg' u = (if u = t then s else get reg u)"
    and register_possible:
      "t \<noteq> [] \<Longrightarrow> get reg t = None \<Longrightarrow> \<exists>reg'. register t (Some x) reg = Inr reg'"
begin

lemma register_keeps:
  "register t s reg = Inr reg' \<Longrightarrow> get reg u = Some v \<Longrightarrow> get reg' u = Some v"
  using register_ok [of t s reg reg'] register_get [of t s reg reg' u] by auto

lemma register_all_keeps:
  "register_all register rs reg = Inr reg' \<Longrightarrow> get reg u = Some v \<Longrightarrow> get reg' u = Some v"
proof (induction rs arbitrary: reg)
  case (Cons r rs)
  obtain t s where r: "r = (t, s)" by (cases r)
  with Cons.prems(1) obtain m where m: "register t s reg = Inr m" "register_all register rs m = Inr reg'"
    by (auto split: sum.splits)
  from register_keeps [OF m(1) Cons.prems(2)] show ?case by (rule Cons.IH [OF m(2)])
qed simp

lemma register_all_entries:
  "register_all register rs reg = Inr reg' \<Longrightarrow> (t, s) \<in> set rs \<Longrightarrow> s \<noteq> None \<and> get reg' t = s"
proof (induction rs arbitrary: reg)
  case (Cons r rs)
  obtain u v where r: "r = (u, v)" by (cases r)
  with Cons.prems(1) obtain m where m: "register u v reg = Inr m" "register_all register rs m = Inr reg'"
    by (auto split: sum.splits)
  show ?case
  proof (cases "(t, s) \<in> set rs")
    case True
    with Cons.IH [OF m(2)] show ?thesis by blast
  next
    case False
    with Cons.prems(2) r have eq: "t = u" "s = v" by auto
    from register_ok [OF m(1)] obtain x where x: "v = Some x" by auto
    have "get m u = v" using register_get [OF m(1), of u] by simp
    with register_all_keeps [OF m(2), of u x] x eq show ?thesis by simp
  qed
qed simp

lemma register_all_distinct:
  "register_all register rs reg = Inr reg' \<Longrightarrow> distinct (map fst rs) \<and> (\<forall>t \<in> set (map fst rs). get reg t = None)"
proof (induction rs arbitrary: reg)
  case (Cons r rs)
  obtain u v where r: "r = (u, v)" by (cases r)
  with Cons.prems(1) obtain m where m: "register u v reg = Inr m" "register_all register rs m = Inr reg'"
    by (auto split: sum.splits)
  from Cons.IH [OF m(2)] have IH: "distinct (map fst rs)" "\<forall>t \<in> set (map fst rs). get m t = None"
    by auto
  from register_ok [OF m(1)] have ok: "v \<noteq> None" "get reg u = None" by auto
  have mu: "get m u = v" and other: "\<And>t. t \<noteq> u \<Longrightarrow> get m t = get reg t"
    using register_get [OF m(1)] by auto
  from IH(2) mu ok(1) have u: "u \<notin> set (map fst rs)" by auto
  have "get reg t = None" if "t \<in> set (map fst rs)" for t
    using that IH(2) other [of t] u by metis
  then show ?case using IH(1) ok(2) u by (simp add: r)
qed simp

end

interpretation builder_registry: strategy_registry RegisterAppBuilderStrategy GetAppBuilderStrategy
  by unfold_locales
    (auto simp: RegisterAppBuilderStrategy_def GetAppBuilderStrategy_def split: if_splits option.splits)

interpretation reconcile_registry: strategy_registry RegisterAppReconcileStrategy
    GetAppReconcileStrategy
  by unfold_locales
    (auto simp: RegisterAppReconcileStrategy_def GetAppReconcileStrategy_def split: if_splits option.splits)

subsection \<open>The registrations of this operator\<close>

datatype builder_id = RuntimeBuilderStrategy

datatype reconciler_id = RuntimeReconcileStrategy

text \<open>The \<^verbatim>\<open>init\<close> functions of \<^verbatim>\<open>pkg/builders/runtime\<close> and \<^verbatim>\<open>pkg/reconcilers/runtime\<close>.\<close>

definition register_runtime_builder :: "builder_id registry \<Rightarrow> string + builder_id registry" where
  "register_runtime_builder reg =
     RegisterAppBuilderStrategy ''operator'' (Some RuntimeBuilderStrategy) reg"

definition register_runtime_reconciler :: "reconciler_id registry \<Rightarrow> string + reconciler_id registry" where
  "register_runtime_reconciler reg =
     RegisterAppReconcileStrategy ''runtime'' (Some RuntimeReconcileStrategy) reg"

subsection \<open>Kubernetes versions\<close>

definition parseKubeVersion :: "string \<Rightarrow> goerror + int \<times> int" where
  "parseKubeVersion gitVersion =
     (let cleanVer = trim_prefix gitVersion ''v'';
          cleanVer = hd (split_char (CHR ''-'') cleanVer);
          parts = split_char (CHR ''.'') cleanVer
      in case parts of
           p0 # p1 # _ \<Rightarrow>
             (case atoi p0 of
                Inl e \<Rightarrow> Inl (errorf (''failed to parse major version: '' @ err_msg e))
              | Inr major \<Rightarrow>
                  (case atoi p1 of
                     Inl e \<Rightarrow> Inl (errorf (''failed to parse minor version: '' @ err_msg e))
                   | Inr minor \<Rightarrow> Inr (major, minor)))
         | _ \<Rightarrow> Inl (errorf (''invalid version format: '' @ gitVersion)))"

text \<open>
  \<open>discoveryClient\<close> is what the discovery library returns: an error, or a client, which is what
  it answers when asked for the version of the server (an error or the git version). A panic is
  the left side of the result.
\<close>

definition SetK8sVersionGreaterOrEqual ::
    "goerror + (goerror + string) \<Rightarrow> int \<Rightarrow> int \<Rightarrow> string + bool" where
  "SetK8sVersionGreaterOrEqual discoveryClient targetMajor targetMinor =
     (case discoveryClient of
        Inl e \<Rightarrow> Inl (''failed to create discovery client: '' @ err_msg e)
      | Inr serverVersion \<Rightarrow>
     (case serverVersion of
        Inl e \<Rightarrow> Inl (''failed to get server version: '' @ err_msg e)
      | Inr gitVersion \<Rightarrow>
     (case parseKubeVersion gitVersion of
        Inl e \<Rightarrow> Inl (''failed to parse server version: '' @ err_msg e)
      | Inr (clusterMajor, clusterMinor) \<Rightarrow>
          Inr (clusterMajor > targetMajor \<or>
            (clusterMajor = targetMajor \<and> clusterMinor \<ge> targetMinor)))))"

definition digits_only :: "string \<Rightarrow> bool" where
  "digits_only s \<longleftrightarrow> set s \<subseteq> set digit_chars"

lemma digits_only_free:
  "digits_only s \<Longrightarrow> c \<notin> set digit_chars \<Longrightarrow> c \<notin> set s"
  by (auto simp: digits_only_def)

lemma itoa_nat_digits: "digits_only (itoa (int n))"
  using nat_str_digits [of n] by (simp add: itoa_def digits_only_def)

lemma split_dash_hd:
  assumes "CHR ''-'' \<notin> set s"
  shows "hd (split_char (CHR ''-'') (s @ (if suf = [] then [] else CHR ''-'' # suf))) = s"
  using assms by (simp add: split_char_no_sep split_char_append)

text \<open>The version text \<open>vM.m.p\<close>, with an optional pre-release or vendor suffix.\<close>

definition version_text :: "nat \<Rightarrow> nat \<Rightarrow> nat \<Rightarrow> string \<Rightarrow> string" where
  "version_text major minor patch suf =
     ''v'' @ itoa (int major) @ ''.'' @ itoa (int minor) @ ''.'' @ itoa (int patch)
       @ (if suf = [] then [] else CHR ''-'' # suf)"

lemma parse_version_text:
  assumes "int major \<le> int_max" "int minor \<le> int_max"
  shows "parseKubeVersion (version_text major minor patch suf) = Inr (int major, int minor)"
proof -
  let ?M = "itoa (int major)" and ?m = "itoa (int minor)" and ?p = "itoa (int patch)"
  let ?core = "?M @ CHR ''.'' # ?m @ CHR ''.'' # ?p"
  have free: "c \<notin> set ?M \<and> c \<notin> set ?m \<and> c \<notin> set ?p" if "c \<notin> set digit_chars" for c
    using that digits_only_free itoa_nat_digits by blast
  have nodash: "CHR ''-'' \<notin> set ?core" using free [of "CHR ''-''"] by (auto simp: digit_chars_def)
  have dots: "split_char (CHR ''.'') ?core = [?M, ?m, ?p]"
    using free [of "CHR ''.''"] by (simp add: split_char_append split_char_no_sep digit_chars_def)
  have trim: "trim_prefix (version_text major minor patch suf) ''v'' =
      ?core @ (if suf = [] then [] else CHR ''-'' # suf)"
    by (simp add: trim_prefix_def version_text_def)
  have rng: "int_min \<le> int n" for n by (simp add: int_min_def order_trans [of _ 0])
  show ?thesis
    unfolding parseKubeVersion_def Let_def trim split_dash_hd [OF nodash] dots
    using assms rng by (simp add: atoi_itoa)
qed

subsection \<open>Properties\<close>

text \<open>
  After a run of registrations that does not panic, every type that was registered has a
  strategy, the one given for it, and no type was registered twice.
\<close>

theorem builder_registrations:
  assumes "register_all RegisterAppBuilderStrategy rs Map.empty = Inr reg" "(t, s) \<in> set rs"
  shows "GetAppBuilderStrategy reg t = s \<and> s \<noteq> None \<and> distinct (map fst rs)"
  using builder_registry.register_all_entries [OF assms] builder_registry.register_all_distinct [OF assms(1)]
  by simp

theorem builder_registrations_witness:
  "\<exists>reg. register_all RegisterAppBuilderStrategy [(''operator'', Some RuntimeBuilderStrategy)] Map.empty = Inr reg \<and>
     GetAppBuilderStrategy reg ''operator'' = Some RuntimeBuilderStrategy"
proof -
  obtain reg where reg: "register_all RegisterAppBuilderStrategy
      [(''operator'', Some RuntimeBuilderStrategy)] Map.empty = Inr reg"
    by (simp add: RegisterAppBuilderStrategy_def)
  with builder_registrations [OF reg, of "''operator''" "Some RuntimeBuilderStrategy"] show ?thesis by simp
qed

text \<open>
  The version of a server, written with or without a vendor suffix, is read back, so the test
  for a minimum version is the comparison of the numbers.
\<close>

theorem version_test:
  assumes "int major \<le> int_max" "int minor \<le> int_max"
  shows "SetK8sVersionGreaterOrEqual (Inr (Inr (version_text major minor patch suf))) m n =
    Inr (int major > m \<or> (int major = m \<and> int minor \<ge> n))"
  using parse_version_text [OF assms] by (simp add: SetK8sVersionGreaterOrEqual_def)

theorem version_test_witness:
  "SetK8sVersionGreaterOrEqual (Inr (Inr (version_text 1 28 3 ''gke.1''))) 1 21 = Inr True"
  using version_test [of 1 28 3 "''gke.1''" 1 21] by (simp add: int_max_def)

text \<open>
  A version such as \<open>v1.21+\<close>, which the comment on the function calls compatible, does not
  parse, and the start-up panics.
\<close>

theorem plus_version_panics:
  "SetK8sVersionGreaterOrEqual (Inr (Inr ''v1.21+'')) 1 21 =
     Inl (''failed to parse server version: failed to parse minor version: strconv.Atoi: parsing ''
       @ [CHR 0x22] @ ''21+'' @ [CHR 0x22] @ '': invalid syntax'')"
  by code_simp

end
