(* ===== verification/ReconcileState.thy ===== *)
theory ReconcileState
  imports Status WebRecorder Registry
begin

text \<open>
  The state of one reconcile run (\<^verbatim>\<open>reconcileState\<close>) and the events it records
  (\<^verbatim>\<open>getEventRecorder\<close>, \<^verbatim>\<open>recordEvent\<close> and \<^verbatim>\<open>recordEventf\<close> of
  \<^verbatim>\<open>internal/controller/app/applicationdefinition_controller.go\<close>). The events a run gives off are
  logged in the state. The pointers \<^verbatim>\<open>state.appDef\<close> and the local \<^verbatim>\<open>appDef\<close> are one object.
\<close>

definition appDefFinalizer :: string where "appDefFinalizer = ''infini.cloud/finalizer''"

text \<open>A configuration that was not given is stored as the nil interface, \<open>Some None\<close>.\<close>

record reconcileState =
  rs_appDef :: appDef
  rs_originalStatus :: applicationStatus
  rs_desiredObjects :: "kobject list"
  rs_componentStatuses :: status_map
  rs_applyResults :: "string \<rightharpoonup> applyResult"
  rs_unmarshalledConfigs :: "string \<rightharpoonup> runtimeConfig option"
  rs_firstError :: "goerror option"
  rs_events :: "emitted list"

definition fresh_state :: "appDef \<Rightarrow> reconcileState" where
  "fresh_state app =
     \<lparr>rs_appDef = app, rs_originalStatus = ad_status app, rs_desiredObjects = [],
      rs_componentStatuses = [], rs_applyResults = Map.empty, rs_unmarshalledConfigs = Map.empty,
      rs_firstError = None, rs_events = []\<rparr>"

definition update_app :: "(appDef \<Rightarrow> appDef) \<Rightarrow> reconcileState \<Rightarrow> reconcileState" where
  "update_app f st = st\<lparr>rs_appDef := f (rs_appDef st)\<rparr>"

definition emit :: "emitted list \<Rightarrow> reconcileState \<Rightarrow> reconcileState" where
  "emit evs st = st\<lparr>rs_events := rs_events st @ evs\<rparr>"

lemma update_app_simps [simp]:
  "rs_appDef (update_app f st) = f (rs_appDef st)"
  "rs_originalStatus (update_app f st) = rs_originalStatus st"
  "rs_desiredObjects (update_app f st) = rs_desiredObjects st"
  "rs_componentStatuses (update_app f st) = rs_componentStatuses st"
  "rs_applyResults (update_app f st) = rs_applyResults st"
  "rs_firstError (update_app f st) = rs_firstError st"
  "rs_events (update_app f st) = rs_events st"
  by (simp_all add: update_app_def)

lemma emit_simps [simp]:
  "rs_appDef (emit evs st) = rs_appDef st"
  "rs_originalStatus (emit evs st) = rs_originalStatus st"
  "rs_desiredObjects (emit evs st) = rs_desiredObjects st"
  "rs_componentStatuses (emit evs st) = rs_componentStatuses st"
  "rs_applyResults (emit evs st) = rs_applyResults st"
  "rs_firstError (emit evs st) = rs_firstError st"
  "rs_events (emit evs st) = rs_events st @ evs"
  by (simp_all add: emit_def)

lemma emit_Nil [simp]: "emit [] st = st"
  by (simp add: emit_def)

subsection \<open>Events\<close>

datatype eventRecorder = StandardRecorder | WebhookRecorder webhookRecorder

definition annotation :: "appDef \<Rightarrow> string \<Rightarrow> string" where
  "annotation app key = lookup_str (om_annotations (ad_meta app)) key"

definition getEventRecorder :: "appDef \<Rightarrow> eventRecorder" where
  "getEventRecorder app =
     (let changeID = annotation app AnnotationChangeID;
          clusterID = annotation app AnnotationClusterID;
          webhookURL = annotation app AnnotationChangeWebhookURL
      in if webhookURL = [] \<or> changeID = [] then StandardRecorder
         else WebhookRecorder (NewWebhookEventRecorder webhookURL changeID clusterID))"

definition recordEvent ::
    "'w cluster \<Rightarrow> appDef \<Rightarrow> string \<Rightarrow> string \<Rightarrow> string \<Rightarrow> string \<Rightarrow> string \<Rightarrow> string \<Rightarrow> emitted list" where
  "recordEvent k app phase status step eventType reason message =
     (case getEventRecorder app of
        WebhookRecorder wr \<Rightarrow>
          (let currentChangeID = annotation app AnnotationChangeID in
           if st_lastChangeID (ad_status app) = currentChangeID then []
           else
             let annotations = [PhaseKey \<mapsto> phase, StatusKey \<mapsto> status, StepKey \<mapsto> step]
             in snd (AnnotatedEventf event_digest (lib_seconds k) (lib_now k) (Some wr) annotations
                       eventType reason message))
      | StandardRecorder \<Rightarrow> [KubeEvent eventType reason message])"

text \<open>\<open>message\<close> is the formatted message.\<close>

definition recordEventf ::
    "'w cluster \<Rightarrow> appDef \<Rightarrow> string \<Rightarrow> string \<Rightarrow> string \<Rightarrow> string \<Rightarrow> string \<Rightarrow> string \<Rightarrow> emitted list" where
  "recordEventf k app phase status step eventType reason message =
     (case getEventRecorder app of
        WebhookRecorder wr \<Rightarrow>
          (let currentChangeID = annotation app AnnotationChangeID in
           if st_lastChangeID (ad_status app) = currentChangeID then []
           else
             let annotations = [PhaseKey \<mapsto> phase, StatusKey \<mapsto> status, StepKey \<mapsto> step]
             in snd (AnnotatedEventf event_digest (lib_seconds k) (lib_now k) (Some wr) annotations
                       eventType reason message))
      | StandardRecorder \<Rightarrow> [KubeEvent eventType reason message])"

definition uses_webhook :: "appDef \<Rightarrow> bool" where
  "uses_webhook app \<longleftrightarrow>
     annotation app AnnotationChangeWebhookURL \<noteq> [] \<and> annotation app AnnotationChangeID \<noteq> []"

definition change_done :: "appDef \<Rightarrow> bool" where
  "change_done app \<longleftrightarrow> st_lastChangeID (ad_status app) = annotation app AnnotationChangeID"

text \<open>
  One call records at most one event; it is a webhook post exactly when the application asks for
  one and the change has not been completed.
\<close>

lemma keys_distinct [simp]:
  "PhaseKey \<noteq> StatusKey" "PhaseKey \<noteq> StepKey" "StatusKey \<noteq> StepKey"
  "StatusKey \<noteq> PhaseKey" "StepKey \<noteq> PhaseKey" "StepKey \<noteq> StatusKey"
  by (simp_all add: PhaseKey_def StatusKey_def StepKey_def)

lemma recordEvent_cases:
  "recordEvent k app phase status step ty reason msg =
     (if \<not> uses_webhook app then [KubeEvent ty reason msg]
      else if change_done app then []
      else [WebhookPost (annotation app AnnotationChangeWebhookURL)
        \<lparr>we_changeID = annotation app AnnotationChangeID,
         we_clusterID = annotation app AnnotationClusterID, we_phase = phase, we_level = ty,
         we_message = msg, we_timestamp = lib_now k, we_payload = [''reason'' \<mapsto> reason],
         we_status = status, we_step = step, we_resourceChange = None\<rparr>])"
  by (simp add: recordEvent_def getEventRecorder_def Let_def uses_webhook_def change_done_def
      AnnotatedEventf_def AnnotatedEventfWithResourceChange_def NewWebhookEventRecorder_def
      shouldSendEvent_def event_known_def)

lemma recordEventf_eq: "recordEventf = recordEvent"
  by (intro ext) (simp add: recordEventf_def recordEvent_def)

end
