(* ===== verification/Phases.thy ===== *)
theory Phases
  imports ReconcileState
begin

text \<open>
  \<^verbatim>\<open>determineFinalPhase\<close> of \<^verbatim>\<open>internal/controller/app/applicationdefinition_controller.go\<close> and the
  life cycle it implements. The life cycle is stated on its own, as a function of the phase and the
  outcome of a run (\<open>next_phase\<close>) and as a step relation with the initial phase, suspension and
  resumption (\<open>phase_step\<close>); the code refines it.
\<close>

subsection \<open>determineFinalPhase\<close>

definition contains_any :: "string \<Rightarrow> string list \<Rightarrow> bool" where
  "contains_any s subs \<longleftrightarrow> list_ex (str_contains s) subs"

definition failure_reason :: "string \<Rightarrow> string" where
  "failure_reason errMsg =
     (if contains_any errMsg [''apply'', ''Apply'', ''OwnerRef''] then ''ApplyFailed''
      else if contains_any errMsg [''build'', ''Build'', ''Config'', ''CompDef'', ''strategy'', ''Strategy'']
      then ''ProcessingFailed''
      else if contains_any errMsg [''HealthCheck'', ''health check''] then ''HealthCheckFailed''
      else ''ReconcileFailed'')"

definition ready_condition :: "cond_status \<Rightarrow> string \<Rightarrow> string \<Rightarrow> condition" where
  "ready_condition st reason msg = mk_condition ConditionReady st reason msg"

definition determineFinalPhase :: "'w cluster \<Rightarrow> bool \<Rightarrow> reconcileState \<Rightarrow> reconcileState" where
  "determineFinalPhase k allComponentsReady st =
     (let currentPhase = app_phase (rs_appDef st) in
      if currentPhase = ApplicationPhaseSuspended then
        update_app (setCondition k (ready_condition ConditionFalse ''Suspended''
          ''Application is intentionally suspended'')) st
      else case rs_firstError st of
        Some e \<Rightarrow>
          update_app (setCondition k (ready_condition ConditionFalse (failure_reason (err_msg e)) (err_msg e)))
            (update_app (set_phase ApplicationPhaseFailed) st)
      | None \<Rightarrow>
          if allComponentsReady then
            update_app (setCondition k (ready_condition ConditionTrue ''ComponentsReady''
                ''All components reconciled and healthy''))
              (update_app (set_phase ApplicationPhaseRunning) st)
          else if currentPhase = ApplicationPhaseRunning \<or> currentPhase = ApplicationPhaseDegraded then
            update_app (setCondition k (ready_condition ConditionFalse ''ComponentsDegraded''
                ''One or more previously ready components are now unhealthy or not ready''))
              (update_app (set_phase ApplicationPhaseDegraded) st)
          else if currentPhase = ApplicationPhaseCreating then
            update_app (setCondition k (ready_condition ConditionFalse ''ComponentsCreating''
                ''Waiting for components to become ready for the first time''))
              (update_app (set_phase ApplicationPhaseCreating) st)
          else
            update_app (setCondition k (ready_condition ConditionFalse ''ComponentsApplying''
                ''Waiting for components to become ready and healthy''))
              (update_app (set_phase ApplicationPhaseUpdateing) st))"

lemma setCondition_simps [simp]:
  "ad_meta (setCondition k c app) = ad_meta app" "ad_spec (setCondition k c app) = ad_spec app"
  "app_phase (setCondition k c app) = app_phase app"
  "is_suspended (setCondition k c app) = is_suspended app"
  "st_components (ad_status (setCondition k c app)) = st_components (ad_status app)"
  "st_lastChangeID (ad_status (setCondition k c app)) = st_lastChangeID (ad_status app)"
  "st_observedGeneration (ad_status (setCondition k c app)) = st_observedGeneration (ad_status app)"
  "st_suspendedReplicas (ad_status (setCondition k c app)) = st_suspendedReplicas (ad_status app)"
  "st_conditions (ad_status (setCondition k c app)) = lib_set_condition k (st_conditions (ad_status app)) c"
  by (simp_all add: setCondition_def app_phase_def is_suspended_def)

lemma determineFinalPhase_frame [simp]:
  "ad_meta (rs_appDef (determineFinalPhase k r st)) = ad_meta (rs_appDef st)"
  "ad_spec (rs_appDef (determineFinalPhase k r st)) = ad_spec (rs_appDef st)"
  "st_lastChangeID (ad_status (rs_appDef (determineFinalPhase k r st))) =
     st_lastChangeID (ad_status (rs_appDef st))"
  "st_suspendedReplicas (ad_status (rs_appDef (determineFinalPhase k r st))) =
     st_suspendedReplicas (ad_status (rs_appDef st))"
  "rs_firstError (determineFinalPhase k r st) = rs_firstError st"
  "rs_originalStatus (determineFinalPhase k r st) = rs_originalStatus st"
  "rs_componentStatuses (determineFinalPhase k r st) = rs_componentStatuses st"
  "rs_desiredObjects (determineFinalPhase k r st) = rs_desiredObjects st"
  "rs_events (determineFinalPhase k r st) = rs_events st"
  by (simp_all add: determineFinalPhase_def Let_def split: option.splits)

subsection \<open>The life cycle\<close>

datatype cycleOutcome = CycleFailed | CycleReady | CycleWaiting

definition outcome_of :: "goerror option \<Rightarrow> bool \<Rightarrow> cycleOutcome" where
  "outcome_of err ready =
     (if err \<noteq> None then CycleFailed else if ready then CycleReady else CycleWaiting)"

fun next_phase :: "applicationPhase \<Rightarrow> cycleOutcome \<Rightarrow> applicationPhase" where
  "next_phase ApplicationPhaseSuspended out = ApplicationPhaseSuspended"
| "next_phase p CycleFailed = ApplicationPhaseFailed"
| "next_phase p CycleReady = ApplicationPhaseRunning"
| "next_phase ApplicationPhaseRunning CycleWaiting = ApplicationPhaseDegraded"
| "next_phase ApplicationPhaseDegraded CycleWaiting = ApplicationPhaseDegraded"
| "next_phase ApplicationPhaseCreating CycleWaiting = ApplicationPhaseCreating"
| "next_phase p CycleWaiting = ApplicationPhaseUpdateing"

lemma next_phase_iff:
  "next_phase p out = ApplicationPhaseRunning \<longleftrightarrow> p \<noteq> ApplicationPhaseSuspended \<and> out = CycleReady"
  "next_phase p out = ApplicationPhaseFailed \<longleftrightarrow> p \<noteq> ApplicationPhaseSuspended \<and> out = CycleFailed"
  "next_phase p out = ApplicationPhaseSuspended \<longleftrightarrow> p = ApplicationPhaseSuspended"
  "next_phase p out = ApplicationPhaseDegraded \<longleftrightarrow>
     out = CycleWaiting \<and> p \<in> {ApplicationPhaseRunning, ApplicationPhaseDegraded}"
  "next_phase p out = ApplicationPhaseCreating \<longleftrightarrow> out = CycleWaiting \<and> p = ApplicationPhaseCreating"
  by (cases p; cases out; simp)+

lemma determineFinalPhase_phase:
  "app_phase (rs_appDef (determineFinalPhase k r st)) =
     next_phase (app_phase (rs_appDef st)) (outcome_of (rs_firstError st) r)"
  by (cases "app_phase (rs_appDef st)"; cases "rs_firstError st"; cases r;
      simp add: determineFinalPhase_def outcome_of_def Let_def)

text \<open>What the ready condition says for a phase and an outcome.\<close>

lemma determineFinalPhase_condition:
  assumes "condition_law k"
  shows "\<exists>c. cond_of (st_conditions (ad_status (rs_appDef (determineFinalPhase k r st)))) ConditionReady = Some c \<and>
    (cond_status c = ConditionTrue \<longleftrightarrow>
      app_phase (rs_appDef (determineFinalPhase k r st)) = ApplicationPhaseRunning)"
proof -
  have set: "\<exists>c'. cond_of (lib_set_condition k cs (ready_condition s re m)) ConditionReady = Some c' \<and>
      cond_status c' = s" for cs s re m
    using condition_lawD [OF assms, of cs "ready_condition s re m"]
    by (metis mk_condition_simps(1,2) ready_condition_def same_condition_def)
  show ?thesis
    by (cases "app_phase (rs_appDef st)"; cases "rs_firstError st"; cases r)
      (use set in \<open>fastforce simp: determineFinalPhase_def Let_def\<close>)+
qed

text \<open>
  The phases of an application over time: set up, run by run, suspended (from any phase), resumed
  (to \<open>Updateing\<close>), failed before the components were built.
\<close>

inductive phase_step :: "applicationPhase \<Rightarrow> applicationPhase \<Rightarrow> bool" where
  initial: "p \<in> {ApplicationPhaseUnset, ApplicationPhasePending} \<Longrightarrow> phase_step p ApplicationPhaseCreating"
| cycle: "p \<notin> {ApplicationPhaseUnset, ApplicationPhasePending, ApplicationPhaseSuspended} \<Longrightarrow>
    phase_step p (next_phase p out)"
| suspend: "phase_step p ApplicationPhaseSuspended"
| resume: "phase_step ApplicationPhaseSuspended (next_phase ApplicationPhaseUpdateing out)"
| failed: "phase_step p ApplicationPhaseFailed"
| stay: "phase_step p p"

inductive_cases phase_stepE: "phase_step p q"
inductive_simps phase_step_creating: "phase_step p ApplicationPhaseCreating"
inductive_simps phase_step_degraded: "phase_step p ApplicationPhaseDegraded"

text \<open>Histories, newest phase first.\<close>

inductive phase_history :: "applicationPhase list \<Rightarrow> bool" where
  start: "phase_history [ApplicationPhaseUnset]"
| step: "phase_history (p # ps) \<Longrightarrow> phase_step p q \<Longrightarrow> phase_history (q # p # ps)"

inductive_cases phase_historyE: "phase_history (q # ps)"

lemma phase_history_nonempty: "phase_history ps \<Longrightarrow> ps \<noteq> []"
  by (induction rule: phase_history.induct) simp_all

lemma history_degraded:
  "phase_history ps \<Longrightarrow> ApplicationPhaseDegraded \<in> set ps \<Longrightarrow> ApplicationPhaseRunning \<in> set ps"
proof (induction rule: phase_history.induct)
  case (step p ps q)
  show ?case
  proof (cases "ApplicationPhaseDegraded \<in> set (p # ps)")
    case True
    with step.IH show ?thesis by auto
  next
    case False
    with step.prems have "phase_step p ApplicationPhaseDegraded" using step.hyps(2) by simp
    then have "p = ApplicationPhaseRunning \<or> p = ApplicationPhaseDegraded"
      unfolding phase_step_degraded by (auto simp: next_phase_iff(4) dest!: sym [of ApplicationPhaseDegraded])
    with False show ?thesis by auto
  qed
qed simp

text \<open>The creating phase is entered once: it is left for good.\<close>

definition early :: "applicationPhase \<Rightarrow> bool" where
  "early p \<longleftrightarrow> p \<in> {ApplicationPhaseUnset, ApplicationPhasePending, ApplicationPhaseCreating}"

lemma phase_step_early: "phase_step p q \<Longrightarrow> early q \<Longrightarrow> early p"
proof (induction rule: phase_step.induct)
  case (cycle p out)
  then show ?case by (cases p; cases out) (auto simp: early_def)
next
  case (resume out)
  then show ?case by (cases out) (auto simp: early_def)
qed (auto simp: early_def)

lemma history_early: "phase_history (q # ps) \<Longrightarrow> early q \<Longrightarrow> \<forall>p \<in> set ps. early p"
proof (induction "q # ps" arbitrary: q ps rule: phase_history.induct)
  case (step p ps q)
  with phase_step_early [OF step.hyps(3)] show ?case by auto
qed simp

subsection \<open>Properties\<close>

text \<open>
  \<^verbatim>\<open>determineFinalPhase\<close> implements the life cycle: the phase it sets is the next one for the
  phase it finds and the outcome of the run, failed, ready or waiting.
\<close>

theorem final_phase_refines_life_cycle:
  "app_phase (rs_appDef (determineFinalPhase k ready st)) =
     next_phase (app_phase (rs_appDef st)) (outcome_of (rs_firstError st) ready)"
  by (rule determineFinalPhase_phase)

text \<open>The ready condition is true after a run exactly when the phase is Running.\<close>

theorem ready_condition_agrees:
  assumes "condition_law k"
  shows "\<exists>c. cond_of (st_conditions (ad_status (rs_appDef (determineFinalPhase k r st)))) ConditionReady = Some c \<and>
    (cond_status c = ConditionTrue) =
      (app_phase (rs_appDef (determineFinalPhase k r st)) = ApplicationPhaseRunning)"
  using determineFinalPhase_condition [OF assms] by blast

theorem ready_condition_agrees_witness:
  "\<exists>c. cond_of (st_conditions (ad_status (rs_appDef
      (determineFinalPhase bare_cluster True (fresh_state example_app))))) ConditionReady = Some c \<and>
    cond_status c = ConditionTrue"
  using ready_condition_agrees [OF bare_condition_law, of True "fresh_state example_app"]
    determineFinalPhase_phase [of bare_cluster True "fresh_state example_app"]
  by (auto simp: fresh_state_def example_app_def empty_status_def app_phase_def outcome_of_def)

text \<open>
  In every history of phases, an application that is Degraded has been Running before, so a
  degradation is never reported for an application that was never ready.
\<close>

theorem degraded_was_running:
  assumes "phase_history ps" "ApplicationPhaseDegraded \<in> set ps"
  shows "ApplicationPhaseRunning \<in> set ps"
  by (rule history_degraded [OF assms])

lemma example_history:
  "phase_history [ApplicationPhaseDegraded, ApplicationPhaseRunning, ApplicationPhaseCreating, ApplicationPhaseUnset]"
proof -
  have "phase_history [ApplicationPhaseCreating, ApplicationPhaseUnset]"
    by (intro phase_history.step phase_history.start phase_step.initial) simp
  then have "phase_history [ApplicationPhaseRunning, ApplicationPhaseCreating, ApplicationPhaseUnset]"
    using phase_step.cycle [of ApplicationPhaseCreating CycleReady] phase_history.step by fastforce
  then show ?thesis
    using phase_step.cycle [of ApplicationPhaseRunning CycleWaiting] phase_history.step by fastforce
qed

theorem degraded_was_running_witness:
  "ApplicationPhaseRunning \<in> set
     [ApplicationPhaseDegraded, ApplicationPhaseRunning, ApplicationPhaseCreating, ApplicationPhaseUnset]"
  by (rule degraded_was_running [OF example_history]) simp

text \<open>
  The phase Creating is left for good: in every history, all that came before a Creating phase is
  the set-up, so no failure, suspension or update leads back to it.
\<close>

theorem creating_only_at_start:
  assumes "phase_history (ApplicationPhaseCreating # ps)"
  shows "list_all early ps"
  using history_early [OF assms] by (simp add: early_def list_all_iff)

theorem creating_only_at_start_witness: "list_all early [ApplicationPhaseUnset]"
proof (rule creating_only_at_start)
  show "phase_history [ApplicationPhaseCreating, ApplicationPhaseUnset]"
    by (intro phase_history.step phase_history.start phase_step.initial) simp
qed

end
