(* ===== verification/Updates.thy ===== *)
theory Updates
  imports Phases
begin

text \<open>
  The writes of the \<^verbatim>\<open>ApplicationDefinition\<close> in
  \<^verbatim>\<open>internal/controller/app/applicationdefinition_controller.go\<close>: adding and removing the
  finalizer, the initial phase, the status update. Each is a loop of three attempts that fetches
  and prepares the object again after a conflict; what they share is the interface
  \<open>conflict_retry\<close>, interpreted on the four loops.
\<close>

datatype retryResult = Written | Exhausted | Stopped goerror

definition max_attempts :: nat where "max_attempts = 3"

subsection \<open>The contract of the loops\<close>

text \<open>
  \<open>write\<close> is the update call, \<open>fetch\<close> the read after a conflict, \<open>prepare\<close> what is redone on the
  object that was read. \<open>contended i app w app' w'\<close>: the first \<open>i\<close> attempts from \<open>app\<close> and \<open>w\<close> conflict, and
  lead to \<open>app'\<close> and \<open>w'\<close>.
\<close>

inductive contended ::
    "(appDef \<Rightarrow> 'w \<Rightarrow> (goerror + appDef) \<times> 'w) \<Rightarrow> (nsname \<Rightarrow> 'w \<Rightarrow> (goerror + appDef) \<times> 'w)
      \<Rightarrow> (appDef \<Rightarrow> appDef) \<Rightarrow> nat \<Rightarrow> appDef \<Rightarrow> 'w \<Rightarrow> appDef \<Rightarrow> 'w \<Rightarrow> bool"
  for "write" and fetch and prepare where
  none: "contended write fetch prepare 0 app w app w"
| more: "write app w = (Inl e, w1) \<Longrightarrow> is_conflict e \<Longrightarrow> fetch (app_key app) w1 = (Inr fresh, w2) \<Longrightarrow>
    contended write fetch prepare n (prepare fresh) w2 app' w' \<Longrightarrow>
    contended write fetch prepare (Suc n) app w app' w'"

inductive_cases contended_0E: "contended write fetch prepare 0 app w app' w'"
inductive_cases contended_SucE: "contended write fetch prepare (Suc n) app w app' w'"

lemma contended_prepared:
  "contended write fetch prepare n app w app' w' \<Longrightarrow> app' = app \<or> (\<exists>fresh. app' = prepare fresh)"
  by (induction rule: contended.induct) auto

text \<open>How a loop of \<open>n\<close> attempts ends after \<open>i\<close> conflicts, with the object of its last attempt.\<close>

definition ends_with ::
    "(appDef \<Rightarrow> 'w \<Rightarrow> (goerror + appDef) \<times> 'w) \<Rightarrow> (nsname \<Rightarrow> 'w \<Rightarrow> (goerror + appDef) \<times> 'w)
      \<Rightarrow> bool \<Rightarrow> appDef \<Rightarrow> 'w \<Rightarrow> (retryResult \<times> appDef) \<times> 'w \<Rightarrow> bool" where
  "ends_with wr fetch used_up app1 w1 out \<longleftrightarrow>
     (case out of ((res, app'), w') \<Rightarrow>
        (case res of
           Written \<Rightarrow> \<not> used_up \<and> wr app1 w1 = (Inr app', w')
         | Exhausted \<Rightarrow> used_up \<and> app' = app1 \<and> w' = w1
         | Stopped e \<Rightarrow> \<not> used_up \<and> app' = app1 \<and>
             (wr app1 w1 = (Inl e, w') \<and> \<not> is_conflict e \<or>
              (\<exists>e0 w2. wr app1 w1 = (Inl e0, w2) \<and> is_conflict e0 \<and> fetch (app_key app1) w2 = (Inl e, w')))))"

locale conflict_retry =
  fixes "write" :: "appDef \<Rightarrow> 'w \<Rightarrow> (goerror + appDef) \<times> 'w"
    and fetch :: "nsname \<Rightarrow> 'w \<Rightarrow> (goerror + appDef) \<times> 'w"
    and prepare :: "appDef \<Rightarrow> appDef"
    and loop :: "nat \<Rightarrow> appDef \<Rightarrow> 'w \<Rightarrow> (retryResult \<times> appDef) \<times> 'w"
  assumes loop_0: "loop 0 app w = ((Exhausted, app), w)"
    and loop_written: "write app w = (Inr app', w') \<Longrightarrow> loop (Suc n) app w = ((Written, app'), w')"
    and loop_stopped:
      "write app w = (Inl e, w') \<Longrightarrow> \<not> is_conflict e \<Longrightarrow> loop (Suc n) app w = ((Stopped e, app), w')"
    and loop_fetch_failed:
      "write app w = (Inl e, w1) \<Longrightarrow> is_conflict e \<Longrightarrow> fetch (app_key app) w1 = (Inl e', w2) \<Longrightarrow>
        loop (Suc n) app w = ((Stopped e', app), w2)"
    and loop_again:
      "write app w = (Inl e, w1) \<Longrightarrow> is_conflict e \<Longrightarrow> fetch (app_key app) w1 = (Inr fresh, w2) \<Longrightarrow>
        loop (Suc n) app w = loop n (prepare fresh) w2"
begin

lemma loop_contended:
  "contended write fetch prepare i app w app' w' \<Longrightarrow> loop (i + n) app w = loop n app' w'"
  by (induction rule: contended.induct) (simp_all add: loop_again)

text \<open>Fewer conflicts than attempts, and no other error: the object is written.\<close>

lemma written_if:
  assumes "contended write fetch prepare i app w app1 w1" "i < n" "write app1 w1 = (Inr app', w')"
  shows "loop n app w = ((Written, app'), w')"
proof -
  from assms(2) obtain m where "n = i + Suc m" using less_iff_Suc_add by auto
  with loop_contended [OF assms(1), of "Suc m"] loop_written [OF assms(3), of m] show ?thesis by simp
qed

lemma loop_cases:
  "\<exists>i app1 w1. i \<le> n \<and> contended write fetch prepare i app w app1 w1 \<and>
    ends_with write fetch (i = n) app1 w1 (loop n app w)"
proof (induction n arbitrary: app w)
  case 0
  show ?case by (intro exI [of _ 0] exI) (auto simp: loop_0 ends_with_def intro: contended.none)
next
  case (Suc n)
  obtain r w1 where wr: "write app w = (r, w1)" by fastforce
  have now: "contended write fetch prepare 0 app w app w" by (rule contended.none)
  show ?case
  proof (cases r)
    case (Inr app')
    with wr loop_written now show ?thesis
      by (intro exI [of _ 0] exI [of _ app] exI [of _ w]) (simp add: ends_with_def)
  next
    case (Inl e)
    obtain r2 w2 where rd: "fetch (app_key app) w1 = (r2, w2)" by fastforce
    show ?thesis
    proof (cases "is_conflict e")
      case False
      with wr Inl loop_stopped now show ?thesis
        by (intro exI [of _ 0] exI [of _ app] exI [of _ w]) (simp add: ends_with_def)
    next
      case conflict: True
      show ?thesis
      proof (cases r2)
        case (Inl e')
        with wr \<open>r = Inl e\<close> rd conflict loop_fetch_failed now show ?thesis
          by (intro exI [of _ 0] exI [of _ app] exI [of _ w]) (simp add: ends_with_def)
      next
        case (Inr fresh)
        with wr \<open>r = Inl e\<close> rd conflict have again: "loop (Suc n) app w = loop n (prepare fresh) w2"
          by (simp add: loop_again)
        from Suc [of "prepare fresh" w2] obtain i app1 w' where i: "i \<le> n"
          "contended write fetch prepare i (prepare fresh) w2 app1 w'"
          "ends_with write fetch (i = n) app1 w' (loop n (prepare fresh) w2)" by blast
        have "contended write fetch prepare (Suc i) app w app1 w'"
          using contended.more [OF _ conflict _ i(2)] wr \<open>r = Inl e\<close> rd Inr by blast
        with i(1,3) again show ?thesis
          by (intro exI [of _ "Suc i"] exI [of _ app1] exI [of _ w']) simp
      qed
    qed
  qed
qed

text \<open>What is written was prepared, by the caller or after a conflict.\<close>

lemma written_prepared:
  assumes "loop n app w = ((Written, app'), w')" "Q app" "\<And>fresh. Q (prepare fresh)"
  shows "\<exists>app1 w1. Q app1 \<and> write app1 w1 = (Inr app', w')"
proof -
  from loop_cases [of n app w] assms(1) obtain i app1 w1 where
    "contended write fetch prepare i app w app1 w1" "write app1 w1 = (Inr app', w')"
    by (auto simp: ends_with_def)
  with contended_prepared [of "write" fetch prepare i app w app1 w1] assms(2,3) show ?thesis by metis
qed

lemma exhausted_contended:
  assumes "loop n app w = ((Exhausted, app'), w')"
  shows "contended write fetch prepare n app w app' w'"
  using loop_cases [of n app w] assms by (auto simp: ends_with_def)

text \<open>Without contention the loop stops with no conflict error, if reads do not conflict.\<close>

lemma stopped_no_conflict:
  assumes "loop n app w = ((Stopped e, app'), w')"
    and "\<And>key w e w'. fetch key w = (Inl e, w') \<Longrightarrow> \<not> is_conflict e"
  shows "\<not> is_conflict e"
  using loop_cases [of n app w] assms by (auto simp: ends_with_def)

end

subsection \<open>The finalizer\<close>

definition has_finalizer :: "'w cluster \<Rightarrow> appDef \<Rightarrow> bool" where
  "has_finalizer k app = lib_contains_finalizer k (om_finalizers (ad_meta app)) appDefFinalizer"

definition add_finalizer :: "'w cluster \<Rightarrow> appDef \<Rightarrow> appDef" where
  "add_finalizer k app =
     app\<lparr>ad_meta := (ad_meta app)\<lparr>om_finalizers :=
       lib_add_finalizer k (om_finalizers (ad_meta app)) appDefFinalizer\<rparr>\<rparr>"

definition remove_finalizer :: "'w cluster \<Rightarrow> appDef \<Rightarrow> appDef" where
  "remove_finalizer k app =
     app\<lparr>ad_meta := (ad_meta app)\<lparr>om_finalizers :=
       lib_remove_finalizer k (om_finalizers (ad_meta app)) appDefFinalizer\<rparr>\<rparr>"

fun add_finalizer_loop :: "'w cluster \<Rightarrow> nat \<Rightarrow> appDef \<Rightarrow> 'w \<Rightarrow> (retryResult \<times> appDef) \<times> 'w" where
  "add_finalizer_loop k 0 app w = ((Exhausted, app), w)"
| "add_finalizer_loop k (Suc n) app w =
     (case kc_update_app k app w of
        (Inr app', w1) \<Rightarrow> ((Written, app'), w1)
      | (Inl e, w1) \<Rightarrow>
          if is_conflict e then
            (case kc_get_app k (app_key app) w1 of
               (Inl e', w2) \<Rightarrow> ((Stopped e', app), w2)
             | (Inr fresh, w2) \<Rightarrow> add_finalizer_loop k n (add_finalizer k fresh) w2)
          else ((Stopped e, app), w1))"

fun remove_finalizer_loop :: "'w cluster \<Rightarrow> nat \<Rightarrow> appDef \<Rightarrow> 'w \<Rightarrow> (retryResult \<times> appDef) \<times> 'w" where
  "remove_finalizer_loop k 0 app w = ((Exhausted, app), w)"
| "remove_finalizer_loop k (Suc n) app w =
     (case kc_update_app k app w of
        (Inr app', w1) \<Rightarrow> ((Written, app'), w1)
      | (Inl e, w1) \<Rightarrow>
          if is_conflict e then
            (case kc_get_app k (app_key app) w1 of
               (Inl e', w2) \<Rightarrow> ((Stopped e', app), w2)
             | (Inr fresh, w2) \<Rightarrow> remove_finalizer_loop k n (remove_finalizer k fresh) w2)
          else ((Stopped e, app), w1))"

text \<open>The deletion of the volume claims: the first error that is not \<^verbatim>\<open>NotFound\<close> ends it.\<close>

fun delete_pvcs :: "'w cluster \<Rightarrow> nsname list \<Rightarrow> 'w \<Rightarrow> goerror option \<times> 'w" where
  "delete_pvcs k [] w = (None, w)"
| "delete_pvcs k (pvc # pvcs) w =
     (case kc_delete_pvc k pvc w of
        (Some e, w1) \<Rightarrow> if \<not> is_not_found e then (Some e, w1) else delete_pvcs k pvcs w1
      | (None, w1) \<Rightarrow> delete_pvcs k pvcs w1)"

definition cleanup_pvcs :: "'w cluster \<Rightarrow> appDef \<Rightarrow> 'w \<Rightarrow> goerror option \<times> 'w" where
  "cleanup_pvcs k app w =
     (case kc_list_pvcs k (app_namespace app) (AppNameLabel, app_name app) w of
        (Inl e, w1) \<Rightarrow> (Some e, w1)
      | (Inr pvcs, w1) \<Rightarrow> delete_pvcs k pvcs w1)"

definition add_attempts_error :: goerror where
  "add_attempts_error = errorf ''failed to add finalizer after 3 attempts''"

text \<open>Returns (is the object being deleted?, error) and the object.\<close>

definition handleFinalizer ::
    "'w cluster \<Rightarrow> appDef \<Rightarrow> 'w \<Rightarrow> ((bool \<times> goerror option) \<times> appDef) \<times> 'w" where
  "handleFinalizer k app w =
     (if om_deletionTimestamp (ad_meta app) = None then
        (if \<not> has_finalizer k app then
           (case add_finalizer_loop k max_attempts (add_finalizer k app) w of
              ((Written, app'), w') \<Rightarrow> (((False, None), app'), w')
            | ((Stopped e, app'), w') \<Rightarrow> (((False, Some e), app'), w')
            | ((Exhausted, app'), w') \<Rightarrow> (((False, Some add_attempts_error), app'), w'))
         else (((False, None), app), w))
      else if has_finalizer k app then
        (case cleanup_pvcs k app w of
           (Some e, w1) \<Rightarrow> (((True, Some e), app), w1)
         | (None, w1) \<Rightarrow>
             (case remove_finalizer_loop k max_attempts (remove_finalizer k app) w1 of
                ((Written, app'), w') \<Rightarrow> (((True, None), app'), w')
              | ((Stopped e, app'), w') \<Rightarrow> (((True, Some e), app'), w')
              | ((Exhausted, app'), w') \<Rightarrow> (((True, None), app'), w')))
      else (((True, None), app), w))"

subsection \<open>The initial phase\<close>

definition start_processing :: "'w cluster \<Rightarrow> appDef \<Rightarrow> appDef" where
  "start_processing k app =
     setCondition k (mk_condition ConditionReady ConditionFalse ''Processing'' ''Starting component processing'')
       (set_phase ApplicationPhaseCreating app)"

fun initial_phase_loop :: "'w cluster \<Rightarrow> nat \<Rightarrow> appDef \<Rightarrow> 'w \<Rightarrow> (retryResult \<times> appDef) \<times> 'w" where
  "initial_phase_loop k 0 app w = ((Exhausted, app), w)"
| "initial_phase_loop k (Suc n) app w =
     (case kc_status_update k app w of
        (Inr app', w1) \<Rightarrow> ((Written, app'), w1)
      | (Inl e, w1) \<Rightarrow>
          if is_conflict e then
            (case kc_get_app k (app_key app) w1 of
               (Inl e', w2) \<Rightarrow> ((Stopped e', app), w2)
             | (Inr fresh, w2) \<Rightarrow> initial_phase_loop k n (start_processing k fresh) w2)
          else ((Stopped e, app), w1))"

definition initial_attempts_error :: goerror where
  "initial_attempts_error = errorf ''failed to update status in setInitialPhase after 3 attempts''"

definition setInitialPhase ::
    "'w cluster \<Rightarrow> reconcileState \<Rightarrow> 'w \<Rightarrow> ((bool \<times> goerror option) \<times> reconcileState) \<times> 'w" where
  "setInitialPhase k st w =
     (let currentPhase = app_phase (rs_appDef st) in
      if currentPhase = ApplicationPhaseUnset \<or> currentPhase = ApplicationPhasePending then
        (case initial_phase_loop k max_attempts (start_processing k (rs_appDef st)) w of
           ((Written, app'), w') \<Rightarrow>
             (((True, None),
               emit (recordEvent k app' ''Processing'' StatusInProgress ''SyncComponent'' ''Normal''
                       ''Processing'' ''Starting component processing'')
                 (st\<lparr>rs_appDef := app'\<rparr>)), w')
         | ((Stopped e, app'), w') \<Rightarrow> (((False, Some e), st\<lparr>rs_appDef := app'\<rparr>), w')
         | ((Exhausted, app'), w') \<Rightarrow>
             (((False, Some initial_attempts_error), st\<lparr>rs_appDef := app'\<rparr>), w'))
      else (((False, None), st), w))"

subsection \<open>The status update\<close>

definition observe_generation :: "appDef \<Rightarrow> appDef" where
  "observe_generation app =
     with_status (\<lambda>s. s\<lparr>st_observedGeneration := om_generation (ad_meta app)\<rparr>) app"

definition status_unchanged :: "applicationStatus \<Rightarrow> applicationStatus \<Rightarrow> bool" where
  "status_unchanged cur orig \<longleftrightarrow>
     st_phase cur = st_phase orig \<and>
     conditionsEqual (st_conditions cur) (st_conditions orig) \<and>
     componentStatusesEqual (st_components cur) (st_components orig) \<and>
     st_observedGeneration cur = st_observedGeneration orig \<and>
     st_lastChangeID cur = st_lastChangeID orig"

definition reapply_status :: "applicationStatus \<Rightarrow> appDef \<Rightarrow> appDef" where
  "reapply_status desiredStatus app = observe_generation (app\<lparr>ad_status := desiredStatus\<rparr>)"

fun status_update_loop ::
    "'w cluster \<Rightarrow> applicationStatus \<Rightarrow> nat \<Rightarrow> appDef \<Rightarrow> 'w \<Rightarrow> (retryResult \<times> appDef) \<times> 'w" where
  "status_update_loop k desiredStatus 0 app w = ((Exhausted, app), w)"
| "status_update_loop k desiredStatus (Suc n) app w =
     (case kc_status_update k app w of
        (Inr app', w1) \<Rightarrow> ((Written, app'), w1)
      | (Inl e, w1) \<Rightarrow>
          if is_conflict e then
            (case kc_get_app k (app_key app) w1 of
               (Inl e', w2) \<Rightarrow> ((Stopped e', app), w2)
             | (Inr fresh, w2) \<Rightarrow>
                 status_update_loop k desiredStatus n (reapply_status desiredStatus fresh) w2)
          else ((Stopped e, app), w1))"

definition status_attempts_error :: goerror where
  "status_attempts_error = errorf ''failed to update status after 3 attempts''"

definition updateStatusIfNeeded ::
    "'w cluster \<Rightarrow> appDef \<Rightarrow> applicationStatus \<Rightarrow> 'w \<Rightarrow> ((bool \<times> goerror option) \<times> appDef) \<times> 'w" where
  "updateStatusIfNeeded k currentApp originalStatus w =
     (let app = observe_generation currentApp in
      if status_unchanged (ad_status app) originalStatus then (((False, None), app), w)
      else case status_update_loop k (ad_status app) max_attempts app w of
        ((Written, app'), w') \<Rightarrow> (((True, None), app'), w')
      | ((Stopped e, app'), w') \<Rightarrow> (((False, Some e), app'), w')
      | ((Exhausted, app'), w') \<Rightarrow> (((False, Some status_attempts_error), app'), w'))"

subsection \<open>The loops obey the contract\<close>

interpretation finalizer_adding: conflict_retry "kc_update_app k" "kc_get_app k" "add_finalizer k"
    "add_finalizer_loop k" for k :: "'w cluster"
  by unfold_locales simp_all

interpretation finalizer_removal: conflict_retry "kc_update_app k" "kc_get_app k"
    "remove_finalizer k" "remove_finalizer_loop k" for k :: "'w cluster"
  by unfold_locales simp_all

interpretation initial_phase: conflict_retry "kc_status_update k" "kc_get_app k"
    "start_processing k" "initial_phase_loop k" for k :: "'w cluster"
  by unfold_locales simp_all

interpretation status_write: conflict_retry "kc_status_update k" "kc_get_app k"
    "reapply_status desired" "status_update_loop k desired"
  for k :: "'w cluster" and desired :: applicationStatus
  by unfold_locales simp_all

end
