(* ===== verification/PauseResume.thy ===== *)
theory PauseResume
  imports ReconcileState
begin

text \<open>
  \<^verbatim>\<open>internal/controller/app/pause_resume.go\<close>: suspending an application records the replica count
  of each workload under the name of its component and scales the workload to zero; resuming puts
  the recorded count back and forgets it. The phase follows.
\<close>

definition replicas_of :: "kobject \<Rightarrow> int32 option option" where
  "replicas_of obj =
     (case ko_body obj of
        Deployment spec _ \<Rightarrow> Some (dep_replicas spec)
      | StatefulSet spec _ \<Rightarrow> Some (sts_replicas spec)
      | _ \<Rightarrow> None)"

definition set_replicas :: "int32 \<Rightarrow> kobject \<Rightarrow> kobject" where
  "set_replicas n obj =
     (case ko_body obj of
        Deployment spec status \<Rightarrow> obj\<lparr>ko_body := Deployment (spec\<lparr>dep_replicas := Some n\<rparr>) status\<rparr>
      | StatefulSet spec status \<Rightarrow> obj\<lparr>ko_body := StatefulSet (spec\<lparr>sts_replicas := Some n\<rparr>) status\<rparr>
      | _ \<Rightarrow> obj)"

definition component_of :: "kobject \<Rightarrow> string" where
  "component_of obj = lookup_str (get_labels obj) CompInstanceLabel"

text \<open>One object, with the map of suspended replicas.\<close>

definition pause_resume_one ::
    "bool \<Rightarrow> kobject \<Rightarrow> (string \<rightharpoonup> int32) \<Rightarrow> kobject \<times> (string \<rightharpoonup> int32)" where
  "pause_resume_one isSuspended obj recorded =
     (case replicas_of obj of
        None \<Rightarrow> (obj, recorded)
      | Some currentReplicas \<Rightarrow>
          (let compName = component_of obj in
           if compName = [] then (obj, recorded)
           else if isSuspended then
             (set_replicas 0 obj,
              if recorded compName = None
              then recorded(compName \<mapsto> (case currentReplicas of None \<Rightarrow> 1 | Some n \<Rightarrow> n))
              else recorded)
           else (case recorded compName of
               Some n \<Rightarrow> (set_replicas n obj, recorded(compName := None))
             | None \<Rightarrow> (obj, recorded))))"

fun pause_resume_loop ::
    "bool \<Rightarrow> kobject list \<Rightarrow> (string \<rightharpoonup> int32) \<Rightarrow> kobject list \<times> (string \<rightharpoonup> int32)" where
  "pause_resume_loop isSuspended [] recorded = ([], recorded)"
| "pause_resume_loop isSuspended (obj # objs) recorded =
     (case pause_resume_one isSuspended obj recorded of
        (obj', recorded') \<Rightarrow>
          (case pause_resume_loop isSuspended objs recorded' of
             (objs', recorded'') \<Rightarrow> (obj' # objs', recorded'')))"

text \<open>The function always returns nil.\<close>

definition handlePauseResume :: "reconcileState \<Rightarrow> goerror option \<times> reconcileState" where
  "handlePauseResume st =
     (let app = rs_appDef st; isSuspended = is_suspended app in
      case pause_resume_loop isSuspended (rs_desiredObjects st)
             (st_suspendedReplicas (ad_status app)) of
        (objs, recorded) \<Rightarrow>
          (let app = with_status (\<lambda>s. s\<lparr>st_suspendedReplicas := recorded\<rparr>) app;
               app = (if isSuspended then set_phase ApplicationPhaseSuspended app
                      else if app_phase app = ApplicationPhaseSuspended
                      then set_phase ApplicationPhaseUpdateing app else app)
           in (None, st\<lparr>rs_desiredObjects := objs, rs_appDef := app\<rparr>)))"

subsection \<open>What scaling keeps\<close>

lemma set_replicas_frame [simp]:
  "ko_meta (set_replicas n obj) = ko_meta obj" "ko_kind (set_replicas n obj) = ko_kind obj"
  "ko_apiVersion (set_replicas n obj) = ko_apiVersion obj"
  "get_name (set_replicas n obj) = get_name obj" "get_labels (set_replicas n obj) = get_labels obj"
  "get_namespace (set_replicas n obj) = get_namespace obj"
  "component_of (set_replicas n obj) = component_of obj"
  by (simp_all add: set_replicas_def object_defs component_of_def split: objectBody.splits)

lemma replicas_of_set [simp]:
  "replicas_of (set_replicas n obj) = (case replicas_of obj of None \<Rightarrow> None | Some _ \<Rightarrow> Some (Some n))"
  by (simp add: set_replicas_def replicas_of_def split: objectBody.splits)

lemma set_replicas_twice [simp]: "set_replicas m (set_replicas n obj) = set_replicas m obj"
  by (simp add: set_replicas_def split: objectBody.splits)

lemma set_replicas_same: "replicas_of obj = Some (Some n) \<Longrightarrow> set_replicas n obj = obj"
  by (cases obj) (auto simp: set_replicas_def replicas_of_def split: objectBody.splits)

definition workload_of :: "string \<Rightarrow> kobject \<Rightarrow> bool" where
  "workload_of name obj \<longleftrightarrow> replicas_of obj \<noteq> None \<and> component_of obj = name \<and> name \<noteq> []"

lemma pause_resume_one_other:
  "\<not> workload_of (component_of obj) obj \<Longrightarrow> pause_resume_one sus obj m = (obj, m)"
  by (auto simp: pause_resume_one_def workload_of_def Let_def split: option.splits)

lemma pause_resume_one_suspend:
  assumes "workload_of name obj"
  shows "pause_resume_one True obj m =
    (set_replicas 0 obj,
     if m name = None then m(name \<mapsto> (case the (replicas_of obj) of None \<Rightarrow> 1 | Some n \<Rightarrow> n)) else m)"
  using assms by (auto simp: pause_resume_one_def workload_of_def Let_def)

lemma pause_resume_one_resume:
  assumes "workload_of name obj"
  shows "pause_resume_one False obj m =
    (case m name of None \<Rightarrow> (obj, m) | Some n \<Rightarrow> (set_replicas n obj, m(name := None)))"
  using assms by (auto simp: pause_resume_one_def workload_of_def Let_def split: option.splits)

lemma pause_resume_one_frame:
  assumes "pause_resume_one sus obj m = (obj', m')"
  shows "ko_meta obj' = ko_meta obj" "ko_kind obj' = ko_kind obj"
    "ko_apiVersion obj' = ko_apiVersion obj" "component_of obj' = component_of obj"
    "workload_of name obj' = workload_of name obj"
  using assms
  by (auto simp: pause_resume_one_def workload_of_def Let_def split: option.splits if_splits)

lemma pause_resume_loop_frame:
  "pause_resume_loop sus objs m = (objs', m') \<Longrightarrow>
    map ko_meta objs' = map ko_meta objs \<and> map ko_kind objs' = map ko_kind objs \<and>
    map ko_apiVersion objs' = map ko_apiVersion objs"
proof (induction objs arbitrary: m objs')
  case (Cons obj objs)
  obtain o1 m1 where one: "pause_resume_one sus obj m = (o1, m1)" by fastforce
  obtain os m2 where rest: "pause_resume_loop sus objs m1 = (os, m2)" by fastforce
  from Cons.IH [of m1 os] Cons.prems one rest pause_resume_one_frame [OF one] show ?case by auto
qed simp

text \<open>Suspending: every workload ends at zero, and a recorded count is never overwritten.\<close>

lemma suspend_zero:
  "pause_resume_loop True objs m = (objs', m') \<Longrightarrow> obj' \<in> set objs' \<Longrightarrow> workload_of name obj' \<Longrightarrow>
    replicas_of obj' = Some (Some 0)"
proof (induction objs arbitrary: m objs' m')
  case (Cons obj objs)
  obtain o1 m1 where one: "pause_resume_one True obj m = (o1, m1)" by fastforce
  obtain os m2 where rest: "pause_resume_loop True objs m1 = (os, m2)" by fastforce
  from Cons.prems one rest have objs': "objs' = o1 # os" by simp
  show ?case
  proof (cases "obj' = o1")
    case True
    with Cons.prems(3) pause_resume_one_frame(5) [OF one, of name] have wl: "workload_of name obj" by simp
    with pause_resume_one_suspend [OF wl, of m] one True show ?thesis
      by (auto simp: workload_of_def)
  next
    case False
    with Cons.IH [of m1 os] Cons.prems objs' rest show ?thesis by auto
  qed
qed simp

lemma suspend_keeps_record:
  "pause_resume_loop True objs m = (objs', m') \<Longrightarrow> m name = Some n \<Longrightarrow> m' name = Some n"
proof (induction objs arbitrary: m objs')
  case (Cons obj objs)
  obtain o1 m1 where one: "pause_resume_one True obj m = (o1, m1)" by fastforce
  obtain os m2 where rest: "pause_resume_loop True objs m1 = (os, m2)" by fastforce
  have "m1 name = Some n"
    using one Cons.prems(2)
    by (auto simp: pause_resume_one_def Let_def split: option.splits if_splits)
  with Cons rest one show ?case by auto
qed simp

text \<open>The first workload of a component decides the count that is recorded.\<close>

lemma suspend_records:
  "pause_resume_loop True objs m = (objs', m') \<Longrightarrow> m name = None \<Longrightarrow>
    m' name = (case find (workload_of name) objs of
        None \<Rightarrow> None
      | Some obj \<Rightarrow> Some (case the (replicas_of obj) of None \<Rightarrow> 1 | Some n \<Rightarrow> n))"
proof (induction objs arbitrary: m objs' m')
  case (Cons obj objs)
  obtain o1 m1 where one: "pause_resume_one True obj m = (o1, m1)" by fastforce
  obtain os m2 where rest: "pause_resume_loop True objs m1 = (os, m2)" by fastforce
  show ?case
  proof (cases "workload_of name obj")
    case True
    then have "m1 name = Some (case the (replicas_of obj) of None \<Rightarrow> 1 | Some n \<Rightarrow> n)"
      using pause_resume_one_suspend [OF True, of m] one Cons.prems(2) by auto
    with suspend_keeps_record [OF rest] True Cons.prems(1) one rest show ?thesis by simp
  next
    case False
    then have "m1 name = None"
      using one Cons.prems(2)
      by (auto simp: pause_resume_one_def workload_of_def Let_def split: option.splits if_splits)
    with Cons.IH [OF rest] False Cons.prems(1) one rest show ?thesis by simp
  qed
qed simp

lemma resume_unrecorded:
  "(\<And>obj. obj \<in> set objs \<Longrightarrow> m (component_of obj) = None) \<Longrightarrow> pause_resume_loop False objs m = (objs, m)"
proof (induction objs)
  case (Cons obj objs)
  from Cons.prems [of obj] have "pause_resume_one False obj m = (obj, m)"
    by (auto simp: pause_resume_one_def Let_def split: option.splits)
  with Cons show ?case by simp
qed simp

text \<open>Resuming: the first workload of a recorded component gets the count, which is forgotten.\<close>

lemma resume_keeps_absent:
  "pause_resume_loop False objs m = (objs', m') \<Longrightarrow> m name = None \<Longrightarrow>
    m' name = None \<and> find (workload_of name) objs' = find (workload_of name) objs"
proof (induction objs arbitrary: m objs' m')
  case (Cons obj objs)
  obtain o1 m1 where one: "pause_resume_one False obj m = (o1, m1)" by fastforce
  obtain os m2 where rest: "pause_resume_loop False objs m1 = (os, m2)" by fastforce
  have absent: "m1 name = None" and same: "workload_of name obj \<Longrightarrow> o1 = obj"
    using one Cons.prems(2) pause_resume_one_resume [of name obj m]
    by (auto simp: pause_resume_one_def Let_def split: option.splits if_splits)
  from Cons.IH [OF rest absent] same pause_resume_one_frame(5) [OF one, of name] Cons.prems(1) one rest
  show ?case by auto
qed simp

lemma resume_restores:
  "pause_resume_loop False objs m = (objs', m') \<Longrightarrow> m name = Some n \<Longrightarrow>
    find (workload_of name) objs = Some obj \<Longrightarrow>
    m' name = None \<and> find (workload_of name) objs' = Some (set_replicas n obj)"
proof (induction objs arbitrary: m objs' m')
  case (Cons x objs)
  obtain o1 m1 where one: "pause_resume_one False x m = (o1, m1)" by fastforce
  obtain os m2 where rest: "pause_resume_loop False objs m1 = (os, m2)" by fastforce
  from Cons.prems(1) one rest have objs': "objs' = o1 # os" "m' = m2" by simp_all
  show ?case
  proof (cases "workload_of name x")
    case True
    with Cons.prems have "obj = x" by simp
    moreover have "o1 = set_replicas n x" "m1 name = None"
      using pause_resume_one_resume [OF True, of m] one Cons.prems(2) by auto
    ultimately show ?thesis
      using resume_keeps_absent [OF rest] True objs' pause_resume_one_frame(5) [OF one, of name] by simp
  next
    case False
    then have "m1 name = Some n"
      using one Cons.prems(2)
      by (auto simp: pause_resume_one_def workload_of_def Let_def split: option.splits if_splits)
    from Cons.IH [OF rest this] Cons.prems(3) False objs' pause_resume_one_frame(5) [OF one, of name]
    show ?thesis by simp
  qed
qed simp

subsection \<open>Properties\<close>

text \<open>The state that the next two properties start from, with its first workload of a component.\<close>

definition first_workload :: "string \<Rightarrow> reconcileState \<Rightarrow> kobject option" where
  "first_workload name st = find (workload_of name) (rs_desiredObjects st)"

definition recorded_replicas :: "reconcileState \<Rightarrow> string \<Rightarrow> int32 option" where
  "recorded_replicas st = st_suspendedReplicas (ad_status (rs_appDef st))"

lemma handlePauseResume_loop:
  assumes "handlePauseResume st = (e, st')"
  shows "pause_resume_loop (is_suspended (rs_appDef st)) (rs_desiredObjects st) (recorded_replicas st) =
      (rs_desiredObjects st', recorded_replicas st')"
    and "app_phase (rs_appDef st') =
      (if is_suspended (rs_appDef st) then ApplicationPhaseSuspended
       else if app_phase (rs_appDef st) = ApplicationPhaseSuspended then ApplicationPhaseUpdateing
       else app_phase (rs_appDef st))"
  using assms
  by (auto simp: handlePauseResume_def recorded_replicas_def Let_def split: prod.splits)
    (auto simp: app_phase_def)

text \<open>
  C24. Suspending an application scales every workload of a component to zero and puts the application
  in phase Suspended. The count of the first workload of a component that has no recorded count is
  recorded, one if it has none, and a count that is recorded already is not overwritten.
\<close>

theorem suspend_scales_to_zero:
  assumes "handlePauseResume st = (e, st')" "is_suspended (rs_appDef st)"
    and "first_workload name st = Some obj"
  shows "app_phase (rs_appDef st') = ApplicationPhaseSuspended \<and>
    (\<forall>o' \<in> set (rs_desiredObjects st'). workload_of name o' \<longrightarrow> replicas_of o' = Some (Some 0)) \<and>
    recorded_replicas st' name =
      (case recorded_replicas st name of
         Some n \<Rightarrow> Some n
       | None \<Rightarrow> Some (case the (replicas_of obj) of None \<Rightarrow> 1 | Some n \<Rightarrow> n))"
proof -
  from handlePauseResume_loop(1) [OF assms(1)] assms(2)
  have run: "pause_resume_loop True (rs_desiredObjects st) (recorded_replicas st) =
      (rs_desiredObjects st', recorded_replicas st')" by simp
  from suspend_zero [OF run]
  have "\<forall>o' \<in> set (rs_desiredObjects st'). workload_of name o' \<longrightarrow> replicas_of o' = Some (Some 0)" by blast
  moreover have "recorded_replicas st' name =
      (case recorded_replicas st name of
         Some n \<Rightarrow> Some n
       | None \<Rightarrow> Some (case the (replicas_of obj) of None \<Rightarrow> 1 | Some n \<Rightarrow> n))"
    using suspend_keeps_record [OF run, of name] suspend_records [OF run, of name] assms(3)
    by (auto simp: first_workload_def split: option.splits)
  ultimately show ?thesis using handlePauseResume_loop(2) [OF assms(1)] assms(2) by simp
qed

definition example_workload :: "int32 \<Rightarrow> kobject" where
  "example_workload n =
     \<lparr>ko_apiVersion = ''apps/v1'', ko_kind = ''Deployment'',
      ko_meta = empty_meta\<lparr>om_name := ''web'', om_namespace := ''default'',
        om_labels := [CompInstanceLabel \<mapsto> ''web'']\<rparr>,
      ko_body = Deployment \<lparr>dep_replicas = Some n, dep_paused = False, dep_rest = []\<rparr>
        \<lparr>dep_observedGeneration = 0, dep_updatedReplicas = 0, dep_readyReplicas = 0,
         dep_availableReplicas = 0, dep_conditions = []\<rparr>\<rparr>"

definition example_pause_state :: "bool \<Rightarrow> (string \<rightharpoonup> int32) \<Rightarrow> reconcileState" where
  "example_pause_state suspend recorded =
     (fresh_state (example_app\<lparr>ad_spec := \<lparr>as_components = [], as_suspend = Some suspend\<rparr>,
        ad_status := empty_status\<lparr>st_phase := ApplicationPhaseSuspended, st_suspendedReplicas := recorded\<rparr>\<rparr>))
     \<lparr>rs_desiredObjects := [example_workload 5]\<rparr>"

lemma example_pause_workload:
  "first_workload ''web'' (example_pause_state b m) = Some (example_workload 5)"
  "is_suspended (rs_appDef (example_pause_state b m)) = b"
  "recorded_replicas (example_pause_state b m) = m"
  "app_phase (rs_appDef (example_pause_state b m)) = ApplicationPhaseSuspended"
  by (simp_all add: first_workload_def example_pause_state_def workload_of_def replicas_of_def
      component_of_def example_workload_def get_labels_def is_suspended_def recorded_replicas_def
      fresh_state_def app_phase_def)

theorem suspend_scales_to_zero_witness:
  "recorded_replicas (snd (handlePauseResume (example_pause_state True Map.empty))) ''web'' = Some 5"
proof -
  obtain e st' where run: "handlePauseResume (example_pause_state True Map.empty) = (e, st')" by fastforce
  from suspend_scales_to_zero [OF run, of "''web''" "example_workload 5"] example_pause_workload run
  show ?thesis by (simp add: replicas_of_def example_workload_def)
qed

text \<open>
  C25. Resuming gives the first workload of a component the count that was recorded for it, whatever
  the specification says by then, forgets the record and leaves the phase Suspended.
\<close>

theorem resume_restores_count:
  assumes "handlePauseResume st = (e, st')" "\<not> is_suspended (rs_appDef st)"
    and "first_workload name st = Some obj" "recorded_replicas st name = Some n"
  shows "first_workload name st' = Some (set_replicas n obj) \<and> recorded_replicas st' name = None \<and>
    app_phase (rs_appDef st') \<noteq> ApplicationPhaseSuspended"
proof -
  from handlePauseResume_loop(1) [OF assms(1)] assms(2)
  have run: "pause_resume_loop False (rs_desiredObjects st) (recorded_replicas st) =
      (rs_desiredObjects st', recorded_replicas st')" by simp
  from resume_restores [OF run assms(4)] assms(3) handlePauseResume_loop(2) [OF assms(1)] assms(2)
  show ?thesis by (simp add: first_workload_def)
qed

theorem resume_restores_count_witness:
  "first_workload ''web'' (snd (handlePauseResume (example_pause_state False [''web'' \<mapsto> 3]))) =
     Some (set_replicas 3 (example_workload 5))"
proof -
  obtain e st' where run: "handlePauseResume (example_pause_state False [''web'' \<mapsto> 3]) = (e, st')" by fastforce
  from resume_restores_count [OF run, of "''web''" "example_workload 5" 3] example_pause_workload run
  show ?thesis by simp
qed

end
