(* ===== verification/Process.thy ===== *)
theory Process
  imports Updates PauseResume RuntimeBuilder
begin

text \<open>
  \<^verbatim>\<open>processComponentsAndBuildObjects\<close> of
  \<^verbatim>\<open>internal/controller/app/applicationdefinition_controller.go\<close>: each component is unmarshalled,
  handed to its builder strategy, and its objects are checked and labelled; then the suspension is
  handled. The status of a component is read through a pointer from the map, which panics when the
  map has no entry for it.
\<close>

subsection \<open>Dispatch and unmarshalling\<close>

text \<open>\<^verbatim>\<open>UnmarshalAppSpecificConfig\<close> of \<^verbatim>\<open>pkg/apis/common/util/util.go\<close>; no properties give nil.\<close>

definition UnmarshalAppSpecificConfig ::
    "'w cluster \<Rightarrow> string \<Rightarrow> raw \<Rightarrow> goerror + runtimeConfig option" where
  "UnmarshalAppSpecificConfig k appCompType rawProperties =
     (if rawProperties = [] then Inr None
      else case lib_unmarshal k rawProperties of
        Inl e \<Rightarrow> Inl (wrapf (''failed to unmarshal properties for component type '' @ squote appCompType
                   @ '' into expected type *common.RuntimeConfig: '') e)
      | Inr rc \<Rightarrow> Inr (Some rc))"

text \<open>
  The interface \<^verbatim>\<open>AppBuilderStrategy\<close> as the record of its methods, and what stands behind a registered
  strategy. The context, the client, the scheme and the owner are not used by the one there is.
\<close>

record appBuilderStrategy =
  bs_BuildObjects :: "appDef \<Rightarrow> applicationComponent \<Rightarrow> runtimeConfig option
    \<Rightarrow> (goerror + kobject list) \<times> appDef"
  bs_GetWorkloadGVK :: gvk

definition workloadGVK :: "'w cluster \<Rightarrow> gvk" where
  "workloadGVK k = lib_gvk k ''apps/v1'' StatefulSetType"

definition builder_of :: "'w cluster \<Rightarrow> builder_id \<Rightarrow> appBuilderStrategy" where
  "builder_of k b =
     (case b of
        RuntimeBuilderStrategy \<Rightarrow>
          \<lparr>bs_BuildObjects = BuildObjects HashConfigMap (lib_now k), bs_GetWorkloadGVK = workloadGVK k\<rparr>)"

definition build_with ::
    "'w cluster \<Rightarrow> builder_id \<Rightarrow> appDef \<Rightarrow> applicationComponent \<Rightarrow> runtimeConfig option
      \<Rightarrow> (goerror + kobject list) \<times> appDef" where
  "build_with k b = bs_BuildObjects (builder_of k b)"

lemma build_with_runtime [simp]:
  "build_with k RuntimeBuilderStrategy = BuildObjects HashConfigMap (lib_now k)"
  by (simp add: build_with_def builder_of_def)

subsection \<open>The objects of a component\<close>

definition standard_labels :: "appDef \<Rightarrow> applicationComponent \<Rightarrow> str_map \<Rightarrow> str_map" where
  "standard_labels app appComp labels =
     labels(AppNameLabel \<mapsto> app_name app, CompNameLabel \<mapsto> ac_type appComp,
       CompInstanceLabel \<mapsto> ac_name appComp, ManagedByLabel \<mapsto> OperatorName)"

text \<open>
  The builder gives one label map to all objects of a component and to the volume claim templates
  of its workload, so what is written into it shows in the templates too.
\<close>

definition apply_labels :: "appDef \<Rightarrow> applicationComponent \<Rightarrow> kobject \<Rightarrow> kobject" where
  "apply_labels app appComp obj =
     obj\<lparr>ko_meta := (ko_meta obj)\<lparr>om_labels := standard_labels app appComp (om_labels (ko_meta obj))\<rparr>,
         ko_body := (case ko_body obj of
             StatefulSet spec status \<Rightarrow>
               StatefulSet (spec\<lparr>sts_volumeClaimTemplates :=
                 map (\<lambda>t. t\<lparr>vct_labels := standard_labels app appComp (vct_labels t)\<rparr>)
                   (sts_volumeClaimTemplates spec)\<rparr>) status
           | body \<Rightarrow> body)\<rparr>"

definition set_component :: "string \<Rightarrow> (componentStatus \<Rightarrow> componentStatus) \<Rightarrow> reconcileState \<Rightarrow> reconcileState" where
  "set_component name f st =
     st\<lparr>rs_componentStatuses := AList.map_entry name f (rs_componentStatuses st)\<rparr>"

definition set_message :: "string \<Rightarrow> string \<Rightarrow> reconcileState \<Rightarrow> reconcileState" where
  "set_message name msg = set_component name (\<lambda>cs. cs\<lparr>cs_message := msg\<rparr>)"

definition unnamed_object_error :: "'w cluster \<Rightarrow> applicationComponent \<Rightarrow> kobject \<Rightarrow> goerror" where
  "unnamed_object_error k appComp obj =
     (let g = object_gvk k obj;
          gvkStr = (if gvk_kind g \<noteq> [] then lib_gvk_string k g else ''unknown GVK'')
      in errorf (''builder returned object of type '' @ gvkStr
           @ '' without name or namespace for component '' @ ac_name appComp))"

definition note_primary :: "'w cluster \<Rightarrow> kobject \<Rightarrow> componentStatus \<Rightarrow> componentStatus" where
  "note_primary k obj cs =
     (let g = object_gvk k obj in
      if gvk_kind g = cs_kind cs \<and> lib_gv_string k g = cs_apiVersion cs
      then cs\<lparr>cs_resourceName := get_name obj, cs_namespace := get_namespace obj\<rparr> else cs)"

definition with_error :: "string \<Rightarrow> string \<Rightarrow> componentStatus \<Rightarrow> componentStatus" where
  "with_error reason msg cs =
     (case updateComponentStatusWithError (Some cs) reason msg of None \<Rightarrow> cs | Some cs' \<Rightarrow> cs')"

text \<open>A builder returns no nil objects, so the test for one is left out.\<close>

fun process_objects ::
    "'w cluster \<Rightarrow> applicationComponent \<Rightarrow> kobject list \<Rightarrow> reconcileState \<Rightarrow> goerror option \<times> reconcileState" where
  "process_objects k appComp [] st = (None, st)"
| "process_objects k appComp (obj # objs) st =
     (if get_name obj = [] \<or> get_namespace obj = [] then
        (let e = unnamed_object_error k appComp obj
         in (Some e, set_component (ac_name appComp) (with_error ''InvalidBuiltObject'' (err_msg e)) st))
      else
        (let obj' = apply_labels (rs_appDef st) appComp obj;
             st' = set_component (ac_name appComp) (note_primary k obj')
                     (st\<lparr>rs_desiredObjects := rs_desiredObjects st @ [obj']\<rparr>)
         in process_objects k appComp objs st'))"

subsection \<open>The components\<close>

datatype processResult = Processed | ProcessFailed goerror | ProcessPanic string

definition process_component ::
    "'w cluster \<Rightarrow> builder_id registry \<Rightarrow> applicationComponent \<Rightarrow> reconcileState
      \<Rightarrow> processResult \<times> reconcileState" where
  "process_component k reg specComp st =
     (let appComp = specComp\<lparr>ac_type := ''operator''\<rparr>; name = ac_name appComp in
      if map_of (rs_componentStatuses st) name = None
      then (ProcessPanic (err_msg nil_dereference), st)
      else
        let st = set_message name ''Processing'' st in
        case GetAppBuilderStrategy reg (ac_type appComp) of
          None \<Rightarrow>
            (let e = errorf (''no builder strategy registered for component type: '' @ ac_type appComp)
             in (ProcessFailed e,
                 emit (recordEventf k (rs_appDef st) ''BuildObjects'' StatusFailure ''SyncComponent''
                         ''Warning'' ''BuilderStrategyNotFound'' (err_msg e)) st))
        | Some builder \<Rightarrow>
            (case UnmarshalAppSpecificConfig k (ac_type appComp) (ac_properties appComp) of
               Inl e \<Rightarrow>
                 (ProcessFailed (wrapf (''failed to unmarshal properties for component ''
                    @ squote name @ '': '') e), st)
             | Inr config \<Rightarrow>
                 (let st = st\<lparr>rs_unmarshalledConfigs := (rs_unmarshalledConfigs st)(name \<mapsto> config)\<rparr> in
                  case build_with k builder (rs_appDef st) specComp config of
                    (Inl e, app) \<Rightarrow>
                      (let e' = wrapf (''builder strategy failed for component '' @ name @ '': '') e
                       in (ProcessFailed e',
                           emit (recordEventf k app ''BuildObjects'' StatusFailure ''SyncComponent''
                                   ''Warning'' ''BuilderFailed'' (err_msg e')) (st\<lparr>rs_appDef := app\<rparr>)))
                  | (Inr objs, app) \<Rightarrow>
                      (case process_objects k appComp objs (st\<lparr>rs_appDef := app\<rparr>) of
                         (Some e, st') \<Rightarrow> (ProcessFailed e, st')
                       | (None, st') \<Rightarrow> (Processed, set_message name ''Built successfully'' st')))))"

fun process_components ::
    "'w cluster \<Rightarrow> builder_id registry \<Rightarrow> applicationComponent list \<Rightarrow> reconcileState
      \<Rightarrow> processResult \<times> reconcileState" where
  "process_components k reg [] st = (Processed, st)"
| "process_components k reg (c # cs) st =
     (case process_component k reg c st of
        (Processed, st') \<Rightarrow> process_components k reg cs st'
      | (ProcessFailed e, st') \<Rightarrow> (ProcessFailed e, st')
      | (ProcessPanic msg, st') \<Rightarrow> (ProcessPanic msg, st'))"

definition processComponentsAndBuildObjects ::
    "'w cluster \<Rightarrow> builder_id registry \<Rightarrow> reconcileState \<Rightarrow> processResult \<times> reconcileState" where
  "processComponentsAndBuildObjects k reg st =
     (case process_components k reg (as_components (ad_spec (rs_appDef st)))
             (st\<lparr>rs_desiredObjects := []\<rparr>) of
        (Processed, st') \<Rightarrow>
          (case handlePauseResume st' of
             (Some e, st'') \<Rightarrow> (ProcessFailed (wrapf ''failed to handle pause/resume: '' e), st'')
           | (None, st'') \<Rightarrow> (Processed, st''))
      | r \<Rightarrow> r)"

subsection \<open>What processing keeps\<close>

text \<open>
  The part of the state processing does not touch, and the keys of the status map: \<open>carried st st'\<close>.
\<close>

definition carried :: "reconcileState \<Rightarrow> reconcileState \<Rightarrow> bool" where
  "carried st st' \<longleftrightarrow>
     same_but_annotations (rs_appDef st) (rs_appDef st') \<and>
     rs_originalStatus st' = rs_originalStatus st \<and> rs_firstError st' = rs_firstError st \<and>
     rs_applyResults st' = rs_applyResults st \<and>
     map fst (rs_componentStatuses st') = map fst (rs_componentStatuses st) \<and>
     (statuses_ok (rs_componentStatuses st) \<longrightarrow> statuses_ok (rs_componentStatuses st'))"

lemma carried_refl [simp]: "carried st st"
  by (simp add: carried_def)

lemma carried_trans: "carried a b \<Longrightarrow> carried b c \<Longrightarrow> carried a c"
  unfolding carried_def using same_but_annotations_trans by auto

lemma map_entry_keys: "map fst (AList.map_entry name f m) = map fst m"
  by (induction m) auto

lemma statuses_ok_map_entry:
  assumes "statuses_ok m" "\<And>cs. cs_name (f cs) = cs_name cs"
  shows "statuses_ok (AList.map_entry name f m)"
proof -
  have "\<forall>(key, cs) \<in> set m. cs_name cs = key \<Longrightarrow> \<forall>(key, cs) \<in> set (AList.map_entry name f m). cs_name cs = key"
    for m :: status_map by (induction m) (auto simp: assms(2))
  moreover have "\<forall>(key, cs) \<in> set m. cs_name cs = key" using assms(1) by (simp add: statuses_ok_def)
  ultimately have "\<forall>(key, cs) \<in> set (AList.map_entry name f m). cs_name cs = key" .
  with assms(1) show ?thesis by (simp add: statuses_ok_def amap_ok_def map_entry_keys)
qed

lemma carried_set_component:
  assumes "\<And>cs. cs_name (f cs) = cs_name cs"
  shows "carried st (set_component name f st)"
  using assms by (auto simp: carried_def set_component_def map_entry_keys statuses_ok_map_entry)

lemma set_component_simps [simp]:
  "rs_appDef (set_component name f st) = rs_appDef st"
  "rs_desiredObjects (set_component name f st) = rs_desiredObjects st"
  "rs_firstError (set_component name f st) = rs_firstError st"
  "rs_appDef (set_message name msg st) = rs_appDef st"
  "rs_desiredObjects (set_message name msg st) = rs_desiredObjects st"
  "map fst (rs_componentStatuses (set_component name f st)) = map fst (rs_componentStatuses st)"
  "map fst (rs_componentStatuses (set_message name msg st)) = map fst (rs_componentStatuses st)"
  by (simp_all add: set_component_def set_message_def map_entry_keys)

lemma carried_set_message: "carried st (set_message name msg st)"
  unfolding set_message_def by (rule carried_set_component) simp

lemma carried_simps:
  "carried st (emit evs st)" "carried st (st\<lparr>rs_desiredObjects := objs\<rparr>)"
  "carried st (st\<lparr>rs_unmarshalledConfigs := cfgs\<rparr>)"
  by (simp_all add: carried_def)

lemma carried_app: "same_but_annotations (rs_appDef st) app \<Longrightarrow> carried st (st\<lparr>rs_appDef := app\<rparr>)"
  by (simp add: carried_def)

lemma cs_name_updates [simp]:
  "cs_name (note_primary k obj cs) = cs_name cs" "cs_name (with_error reason msg cs) = cs_name cs"
  by (simp_all add: note_primary_def with_error_def updateComponentStatusWithError_def Let_def)

lemma process_objects_carried: "carried st (snd (process_objects k c objs st))"
proof (induction objs arbitrary: st)
  case (Cons obj objs)
  let ?st = "set_component (ac_name c) (note_primary k (apply_labels (rs_appDef st) c obj))
    (st\<lparr>rs_desiredObjects := rs_desiredObjects st @ [apply_labels (rs_appDef st) c obj]\<rparr>)"
  have "carried st ?st"
    by (rule carried_trans [OF carried_simps(2) carried_set_component]) simp
  then have "carried st (snd (process_objects k c objs ?st))" using Cons.IH by (rule carried_trans)
  then show ?case by (simp add: Let_def carried_set_component)
qed simp

lemma process_objects_app [simp]: "rs_appDef (snd (process_objects k c objs st)) = rs_appDef st"
  by (induction objs arbitrary: st) (simp_all add: Let_def)

definition named_object :: "kobject \<Rightarrow> bool" where
  "named_object obj \<longleftrightarrow> get_name obj \<noteq> [] \<and> get_namespace obj \<noteq> []"

lemma process_objects_ok_iff:
  "fst (process_objects k c objs st) = None \<longleftrightarrow> (\<forall>obj \<in> set objs. named_object obj)"
  by (induction objs arbitrary: st) (auto simp: Let_def named_object_def)

lemma process_objects_desired:
  "process_objects k c objs st = (None, st') \<Longrightarrow>
    rs_desiredObjects st' = rs_desiredObjects st @ map (apply_labels (rs_appDef st) c) objs"
  by (induction objs arbitrary: st) (auto simp: Let_def split: if_splits)

lemma apply_labels_simps [simp]:
  "get_name (apply_labels app c obj) = get_name obj"
  "get_namespace (apply_labels app c obj) = get_namespace obj"
  "ko_kind (apply_labels app c obj) = ko_kind obj"
  "ko_apiVersion (apply_labels app c obj) = ko_apiVersion obj"
  "get_labels (apply_labels app c obj) = standard_labels app c (get_labels obj)"
  by (simp_all add: apply_labels_def object_defs)

text \<open>
  What the rest of the operator relies on in an object that was built for a component: the labels, on the
  volume claim templates of a workload too.
\<close>

definition labelled_for :: "appDef \<Rightarrow> applicationComponent \<Rightarrow> kobject \<Rightarrow> bool" where
  "labelled_for app c obj \<longleftrightarrow>
     named_object obj \<and>
     get_labels obj AppNameLabel = Some (app_name app) \<and>
     get_labels obj CompNameLabel = Some ''operator'' \<and>
     get_labels obj CompInstanceLabel = Some (ac_name c) \<and>
     get_labels obj ManagedByLabel = Some OperatorName \<and>
     (\<forall>spec status. ko_body obj = StatefulSet spec status \<longrightarrow>
        (\<forall>t \<in> set (sts_volumeClaimTemplates spec).
          vct_labels t AppNameLabel = Some (app_name app) \<and> vct_labels t CompInstanceLabel = Some (ac_name c)))"

text \<open>The object that is kept of what the builder returned: the same object, labelled.\<close>

definition labelled_copy :: "appDef \<Rightarrow> applicationComponent \<Rightarrow> kobject \<Rightarrow> kobject \<Rightarrow> bool" where
  "labelled_copy app c raw obj \<longleftrightarrow>
     ko_apiVersion obj = ko_apiVersion raw \<and> ko_kind obj = ko_kind raw \<and>
     get_name obj = get_name raw \<and> get_namespace obj = get_namespace raw \<and> labelled_for app c obj"

lemma apply_labels_copy:
  assumes "named_object obj" "app_name app' = app_name app"
  shows "labelled_copy app c obj (apply_labels app' (c\<lparr>ac_type := ''operator''\<rparr>) obj)"
  using assms
  by (auto simp: labelled_copy_def labelled_for_def named_object_def standard_labels_def)
    (auto simp: apply_labels_def standard_labels_def split: objectBody.splits)

lemma labelled_copy_same:
  "same_but_annotations app app' \<Longrightarrow> labelled_copy app c = labelled_copy app' c"
  using same_but_annotations_frame(2) [of app app']
  by (intro ext) (simp add: labelled_copy_def labelled_for_def)

lemma labelled_copy_scaled: "labelled_copy app c raw obj \<Longrightarrow> labelled_copy app c raw (set_replicas n obj)"
  unfolding labelled_copy_def labelled_for_def named_object_def
  by (auto simp: set_replicas_def object_defs split: objectBody.splits)

text \<open>
  The objects \<open>objs\<close> of a component: the registered strategy returned them for the component and its
  configuration, and each is kept under the labels of the component.
\<close>

definition built_by ::
    "'w cluster \<Rightarrow> builder_id registry \<Rightarrow> appDef \<Rightarrow> applicationComponent \<Rightarrow> kobject list \<Rightarrow> bool" where
  "built_by k reg app c objs \<longleftrightarrow>
     (\<exists>b cfg a raw a'. GetAppBuilderStrategy reg ''operator'' = Some b \<and>
        UnmarshalAppSpecificConfig k ''operator'' (ac_properties c) = Inr cfg \<and>
        same_but_annotations app a \<and> build_with k b a c cfg = (Inr raw, a') \<and>
        list_all2 (labelled_copy app c) raw objs)"

lemma built_by_same:
  "same_but_annotations app app' \<Longrightarrow> built_by k reg app' c objs \<Longrightarrow> built_by k reg app c objs"
  unfolding built_by_def using labelled_copy_same [of app app' c] same_but_annotations_trans [of app app']
  by metis

lemma built_by_labelled:
  "built_by k reg app c objs \<Longrightarrow> obj \<in> set objs \<Longrightarrow> labelled_for app c obj"
  unfolding built_by_def labelled_copy_def by (auto simp: list_all2_conv_all_nth in_set_conv_nth)

lemma build_with_frame:
  "build_with k b app c cfg = (r, app') \<Longrightarrow> same_but_annotations app app'"
  using runtime_strategy.build_frame by (cases b) simp

lemma process_component_carried:
  assumes "process_component k reg c st = (r, st')"
  shows "carried st st'"
proof -
  let ?n = "ac_name c" and ?c = "c\<lparr>ac_type := ''operator''\<rparr>"
  let ?s1 = "set_message ?n ''Processing'' st"
  have s1: "carried st ?s1" by (rule carried_set_message)
  show ?thesis
  proof (cases "map_of (rs_componentStatuses st) ?n = None")
    case True
    with assms show ?thesis by (simp add: process_component_def Let_def)
  next
    case known: False
    show ?thesis
    proof (cases "GetAppBuilderStrategy reg ''operator''")
      case None
      with assms known carried_trans [OF s1 carried_simps(1)] show ?thesis
        by (auto simp: process_component_def Let_def)
    next
      case (Some b)
      show ?thesis
      proof (cases "UnmarshalAppSpecificConfig k ''operator'' (ac_properties c)")
        case (Inl e)
        with assms known Some s1 show ?thesis by (auto simp: process_component_def Let_def)
      next
        case (Inr cfg)
        let ?s2 = "?s1\<lparr>rs_unmarshalledConfigs := (rs_unmarshalledConfigs ?s1)(?n \<mapsto> cfg)\<rparr>"
        have s2: "carried st ?s2" by (rule carried_trans [OF s1 carried_simps(3)])
        obtain br app where b: "build_with k b (rs_appDef ?s2) c cfg = (br, app)" by fastforce
        have "same_but_annotations (rs_appDef ?s2) app" by (rule build_with_frame [OF b])
        then have s3: "carried st (?s2\<lparr>rs_appDef := app\<rparr>)" by (rule carried_trans [OF s2 carried_app])
        show ?thesis
        proof (cases br)
          case (Inl e)
          with assms known Some \<open>UnmarshalAppSpecificConfig _ _ _ = _\<close> b carried_trans [OF s3 carried_simps(1)]
          show ?thesis by (auto simp: process_component_def Let_def)
        next
          case (Inr objs)
          obtain e s4 where p: "process_objects k ?c objs (?s2\<lparr>rs_appDef := app\<rparr>) = (e, s4)" by fastforce
          have s4: "carried st s4"
            using carried_trans [OF s3 process_objects_carried] p by (metis snd_conv)
          from assms known Some \<open>UnmarshalAppSpecificConfig _ _ _ = _\<close> b Inr p
          have "st' = s4 \<or> st' = set_message ?n ''Built successfully'' s4"
            by (auto simp: process_component_def Let_def split: option.splits)
          with s4 carried_trans [OF s4 carried_set_message] show ?thesis by auto
        qed
      qed
    qed
  qed
qed

lemma process_components_carried:
  "process_components k reg cs st = (r, st') \<Longrightarrow> carried st st'"
proof (induction cs arbitrary: st)
  case (Cons c cs)
  obtain r1 st1 where one: "process_component k reg c st = (r1, st1)" by fastforce
  note c1 = process_component_carried [OF one]
  show ?case
  proof (cases r1)
    case Processed
    with Cons.prems one have "process_components k reg cs st1 = (r, st')" by simp
    from carried_trans [OF c1 Cons.IH [OF this]] show ?thesis .
  qed (use Cons.prems one c1 in auto)
qed simp

subsection \<open>When processing panics\<close>

lemma process_component_panic_iff:
  "(\<exists>msg. fst (process_component k reg c st) = ProcessPanic msg) \<longleftrightarrow>
     map_of (rs_componentStatuses st) (ac_name c) = None"
  by (auto simp: process_component_def Let_def split: option.splits sum.splits prod.splits)

lemma process_components_no_panic:
  assumes "ac_name ` set cs \<subseteq> set (map fst (rs_componentStatuses st))"
  shows "fst (process_components k reg cs st) \<noteq> ProcessPanic msg"
  using assms
proof (induction cs arbitrary: st)
  case (Cons c cs)
  obtain r1 st1 where one: "process_component k reg c st = (r1, st1)" by fastforce
  have "fst ` set (rs_componentStatuses st1) = fst ` set (rs_componentStatuses st)"
    using process_component_carried [OF one] unfolding carried_def by (metis list.set_map)
  with Cons have rest: "fst (process_components k reg cs st1) \<noteq> ProcessPanic msg" by auto
  have "map_of (rs_componentStatuses st) (ac_name c) \<noteq> None"
    using Cons.prems by (auto simp: map_of_eq_None_iff)
  then have "r1 \<noteq> ProcessPanic msg'" for msg'
    using process_component_panic_iff [of k reg c st] one by auto
  with rest one show ?case by (cases r1) auto
qed simp

lemma process_components_names:
  assumes "process_components k reg cs st = (Processed, st')"
  shows "ac_name ` set cs \<subseteq> fst ` set (rs_componentStatuses st')"
  using assms
proof (induction cs arbitrary: st)
  case (Cons c cs)
  from Cons.prems obtain st1 where one: "process_component k reg c st = (Processed, st1)"
    and rest: "process_components k reg cs st1 = (Processed, st')"
    by (auto split: prod.splits processResult.splits)
  have "map_of (rs_componentStatuses st) (ac_name c) \<noteq> None"
    using process_component_panic_iff [of k reg c st] one by auto
  then have "ac_name c \<in> set (map fst (rs_componentStatuses st))" by (simp add: map_of_eq_None_iff)
  with process_component_carried [OF one] process_components_carried [OF rest]
  have "ac_name c \<in> set (map fst (rs_componentStatuses st'))" unfolding carried_def by simp
  with Cons.IH [OF rest] show ?case by simp
qed simp

lemma processed_names:
  assumes "processComponentsAndBuildObjects k reg st = (Processed, st')"
  shows "ac_name ` set (as_components (ad_spec (rs_appDef st))) \<subseteq> fst ` set (rs_componentStatuses st')"
proof -
  from assms obtain st1 where
    run: "process_components k reg (as_components (ad_spec (rs_appDef st))) (st\<lparr>rs_desiredObjects := []\<rparr>) = (Processed, st1)"
    and pr: "handlePauseResume st1 = (None, st')"
    by (auto simp: processComponentsAndBuildObjects_def split: prod.splits processResult.splits option.splits)
  from pr have "rs_componentStatuses st' = rs_componentStatuses st1"
    by (auto simp: handlePauseResume_def Let_def split: prod.splits)
  with process_components_names [OF run] show ?thesis by simp
qed

subsection \<open>What processing produces\<close>

text \<open>A component adds the objects that were built for it.\<close>

lemma process_component_built:
  assumes "process_component k reg c st = (Processed, st')"
  obtains objs where "rs_desiredObjects st' = rs_desiredObjects st @ objs" "built_by k reg (rs_appDef st) c objs"
proof -
  let ?c = "c\<lparr>ac_type := ''operator''\<rparr>" and ?s1 = "set_message (ac_name c) ''Processing'' st"
  from assms obtain b cfg raw app s4 where
    reg: "GetAppBuilderStrategy reg ''operator'' = Some b"
    and cfg: "UnmarshalAppSpecificConfig k ''operator'' (ac_properties c) = Inr cfg"
    and b: "build_with k b (rs_appDef st) c cfg = (Inr raw, app)"
    and p: "process_objects k ?c raw (?s1\<lparr>rs_unmarshalledConfigs :=
        (rs_unmarshalledConfigs ?s1)(ac_name c \<mapsto> cfg), rs_appDef := app\<rparr>) = (None, s4)"
    and st': "st' = set_message (ac_name c) ''Built successfully'' s4"
    by (auto simp: process_component_def Let_def split: if_splits option.splits sum.splits prod.splits)
  have name: "app_name app = app_name (rs_appDef st)"
    using same_but_annotations_frame(2) [OF build_with_frame [OF b]] by simp
  have desired: "rs_desiredObjects s4 = rs_desiredObjects st @ map (apply_labels app ?c) raw"
    using process_objects_desired [OF p] by simp
  have named: "\<forall>obj \<in> set raw. named_object obj"
    using process_objects_ok_iff [of k ?c raw] p by (metis fst_conv)
  then have "list_all2 (labelled_copy (rs_appDef st) c) raw (map (apply_labels app ?c) raw)"
    using apply_labels_copy [OF _ name] by (simp add: list_all2_conv_all_nth)
  moreover have "same_but_annotations (rs_appDef st) (rs_appDef st)" by (simp add: same_but_annotations_def)
  ultimately have "built_by k reg (rs_appDef st) c (map (apply_labels app ?c) raw)"
    unfolding built_by_def using reg cfg b by blast
  with that st' desired show thesis by simp
qed

lemma process_components_built:
  assumes "process_components k reg cs st = (Processed, st')"
  shows "\<exists>objss. rs_desiredObjects st' = rs_desiredObjects st @ concat objss \<and>
    list_all2 (built_by k reg (rs_appDef st)) cs objss"
  using assms
proof (induction cs arbitrary: st)
  case (Cons c cs)
  from Cons.prems obtain st1 where one: "process_component k reg c st = (Processed, st1)"
    and rest: "process_components k reg cs st1 = (Processed, st')"
    by (auto split: prod.splits processResult.splits)
  from process_component_built [OF one] obtain objs where
    o: "rs_desiredObjects st1 = rs_desiredObjects st @ objs" "built_by k reg (rs_appDef st) c objs" .
  from Cons.IH [OF rest] obtain objss where
    os: "rs_desiredObjects st' = rs_desiredObjects st1 @ concat objss"
      "list_all2 (built_by k reg (rs_appDef st1)) cs objss" by blast
  have "same_but_annotations (rs_appDef st) (rs_appDef st1)"
    using process_component_carried [OF one] by (simp add: carried_def)
  with os(2) have "list_all2 (built_by k reg (rs_appDef st)) cs objss"
    by (auto elim!: list_all2_mono dest: built_by_same)
  with o os(1) show ?case by (intro exI [of _ "objs # objss"]) simp
qed simp

text \<open>Scaling changes the replica counts of the objects only.\<close>

definition rescaled :: "kobject \<Rightarrow> kobject \<Rightarrow> bool" where
  "rescaled obj obj' \<longleftrightarrow> obj' = obj \<or> (\<exists>n. obj' = set_replicas n obj)"

lemma pause_resume_rescaled:
  "pause_resume_loop sus objs m = (objs', m') \<Longrightarrow> list_all2 rescaled objs objs'"
proof (induction objs arbitrary: m objs')
  case (Cons obj objs)
  obtain o1 m1 where one: "pause_resume_one sus obj m = (o1, m1)" by fastforce
  then have "rescaled obj o1"
    by (auto simp: pause_resume_one_def rescaled_def Let_def split: option.splits if_splits)
  with Cons one show ?case by (auto split: prod.splits)
qed simp

lemma list_all2_concat_left:
  "list_all2 P (concat xss) ys \<Longrightarrow> \<exists>yss. ys = concat yss \<and> list_all2 (list_all2 P) xss yss"
proof (induction xss arbitrary: ys)
  case (Cons xs xss)
  from Cons.prems obtain us vs where "ys = us @ vs" "list_all2 P xs us" "list_all2 P (concat xss) vs"
    by (auto simp: list_all2_append1)
  with Cons.IH [of vs] show ?case by (metis concat.simps(2) list_all2_Cons)
qed simp

lemma built_by_rescaled:
  assumes "built_by k reg app c objs" "list_all2 rescaled objs objs'"
  shows "built_by k reg app c objs'"
proof -
  have "labelled_copy app c raw obj'" if "labelled_copy app c raw obj" "rescaled obj obj'" for raw obj obj'
    using that labelled_copy_scaled by (auto simp: rescaled_def)
  with assms(2) have "list_all2 (labelled_copy app c) raw objs'" if "list_all2 (labelled_copy app c) raw objs" for raw
    using that by (auto simp: list_all2_conv_all_nth)
  with assms(1) show ?thesis unfolding built_by_def by blast
qed

lemma handlePauseResume_objects:
  "handlePauseResume st = (r, st') \<Longrightarrow> list_all2 rescaled (rs_desiredObjects st) (rs_desiredObjects st')"
  by (auto simp: handlePauseResume_def Let_def split: prod.splits intro: pause_resume_rescaled)

text \<open>What processing leaves to be applied: for each component, in order, the objects built for it.\<close>

lemma processed_built:
  assumes "processComponentsAndBuildObjects k reg st = (Processed, st')"
  shows "\<exists>objss. rs_desiredObjects st' = concat objss \<and>
    list_all2 (built_by k reg (rs_appDef st)) (as_components (ad_spec (rs_appDef st))) objss"
proof -
  from assms obtain st1 where
    run: "process_components k reg (as_components (ad_spec (rs_appDef st))) (st\<lparr>rs_desiredObjects := []\<rparr>) = (Processed, st1)"
    and pr: "handlePauseResume st1 = (None, st')"
    by (auto simp: processComponentsAndBuildObjects_def split: prod.splits processResult.splits option.splits)
  from process_components_built [OF run] obtain objss where
    o: "rs_desiredObjects st1 = concat objss"
      "list_all2 (built_by k reg (rs_appDef st)) (as_components (ad_spec (rs_appDef st))) objss" by auto
  from list_all2_concat_left [OF handlePauseResume_objects [OF pr, unfolded o(1)]] obtain objss' where
    o': "rs_desiredObjects st' = concat objss'" "list_all2 (list_all2 rescaled) objss objss'" by blast
  have "list_all2 (built_by k reg (rs_appDef st)) (as_components (ad_spec (rs_appDef st))) objss'"
    by (rule list_all2_trans [OF built_by_rescaled o(2) o'(2)])
  with o'(1) show ?thesis by blast
qed

lemma processed_labelled:
  assumes "processComponentsAndBuildObjects k reg st = (Processed, st')" "obj \<in> set (rs_desiredObjects st')"
  obtains c where "c \<in> set (as_components (ad_spec (rs_appDef st)))" "labelled_for (rs_appDef st) c obj"
proof -
  from processed_built [OF assms(1)] assms(2) obtain objss objs where
    o: "list_all2 (built_by k reg (rs_appDef st)) (as_components (ad_spec (rs_appDef st))) objss"
      "objs \<in> set objss" "obj \<in> set objs" by auto
  then obtain c where "c \<in> set (as_components (ad_spec (rs_appDef st)))" "built_by k reg (rs_appDef st) c objs"
    by (metis list_all2_conv_all_nth in_set_conv_nth)
  with that built_by_labelled o(3) show thesis by blast
qed

lemma handlePauseResume_None [simp]: "fst (handlePauseResume st) = None"
  by (simp add: handlePauseResume_def Let_def split: prod.splits)

subsection \<open>Accepted components\<close>

text \<open>The controller as a client of a builder strategy: accepted components give named objects.\<close>

context builder_strategy
begin

lemma accepted_built:
  assumes "accepts c cfg" "app_namespace app \<noteq> []"
  obtains objs app' where "build app c cfg = (Inr objs, app')" "\<forall>obj \<in> set objs. named_object obj"
    "same_but_annotations app app'"
proof -
  from build_accepted [OF assms(1)] obtain objs app' where b: "build app c cfg = (Inr objs, app')" by blast
  moreover have "named_object obj" if "obj \<in> set objs" for obj
    using build_well_named [OF assms(1) b that] assms(2) by (simp add: well_named_def named_object_def)
  ultimately show ?thesis using that build_frame [OF b] by blast
qed

end

definition component_accepted :: "'w cluster \<Rightarrow> applicationComponent \<Rightarrow> bool" where
  "component_accepted k c \<longleftrightarrow>
     (case UnmarshalAppSpecificConfig k ''operator'' (ac_properties c) of
        Inl _ \<Rightarrow> False | Inr cfg \<Rightarrow> runtime_accepts c cfg)"

lemma process_component_accepted:
  assumes "component_accepted k c" "GetAppBuilderStrategy reg ''operator'' = Some RuntimeBuilderStrategy"
    and "map_of (rs_componentStatuses st) (ac_name c) \<noteq> None" "app_namespace (rs_appDef st) \<noteq> []"
  obtains st' where "process_component k reg c st = (Processed, st')"
proof -
  let ?s1 = "set_message (ac_name c) ''Processing'' st"
  from assms(1) obtain cfg where cfg: "UnmarshalAppSpecificConfig k ''operator'' (ac_properties c) = Inr cfg"
    "runtime_accepts c cfg" by (auto simp: component_accepted_def split: sum.splits)
  obtain objs app where b: "BuildObjects HashConfigMap (lib_now k) (rs_appDef st) c cfg = (Inr objs, app)"
    and named: "\<forall>obj \<in> set objs. named_object obj"
    using runtime_strategy.accepted_built [OF cfg(2) assms(4)] .
  obtain e s4 where p: "process_objects k (c\<lparr>ac_type := ''operator''\<rparr>) objs
      (?s1\<lparr>rs_unmarshalledConfigs := (rs_unmarshalledConfigs ?s1)(ac_name c \<mapsto> cfg), rs_appDef := app\<rparr>) = (e, s4)"
    by fastforce
  from named process_objects_ok_iff p have "e = None" by (metis fst_conv)
  with that assms cfg b p show ?thesis by (auto simp: process_component_def Let_def)
qed

lemma process_components_accepted:
  assumes "\<forall>c \<in> set cs. component_accepted k c"
    and "GetAppBuilderStrategy reg ''operator'' = Some RuntimeBuilderStrategy"
    and "ac_name ` set cs \<subseteq> fst ` set (rs_componentStatuses st)" "app_namespace (rs_appDef st) \<noteq> []"
  shows "fst (process_components k reg cs st) = Processed"
  using assms(1,3,4)
proof (induction cs arbitrary: st)
  case (Cons c cs)
  from Cons.prems(2) have "map_of (rs_componentStatuses st) (ac_name c) \<noteq> None"
    by (auto simp: map_of_eq_None_iff)
  with Cons.prems obtain st1 where one: "process_component k reg c st = (Processed, st1)"
    using process_component_accepted [OF _ assms(2)] by (metis list.set_intros(1))
  note c1 = process_component_carried [OF one]
  have "fst ` set (rs_componentStatuses st1) = fst ` set (rs_componentStatuses st)"
    using c1 unfolding carried_def by (metis list.set_map)
  moreover have "app_namespace (rs_appDef st1) = app_namespace (rs_appDef st)"
    using c1 same_but_annotations_frame(1) by (simp add: carried_def)
  ultimately have "fst (process_components k reg cs st1) = Processed"
    using Cons.prems by (intro Cons.IH) auto
  with one show ?case by simp
qed simp

text \<open>Accepted components panic at the first that has no status entry.\<close>

lemma process_components_panics:
  assumes "\<forall>c \<in> set cs. component_accepted k c"
    and "GetAppBuilderStrategy reg ''operator'' = Some RuntimeBuilderStrategy"
    and "\<not> ac_name ` set cs \<subseteq> fst ` set (rs_componentStatuses st)" "app_namespace (rs_appDef st) \<noteq> []"
  shows "fst (process_components k reg cs st) = ProcessPanic (err_msg nil_dereference)"
  using assms(1,3,4)
proof (induction cs arbitrary: st)
  case (Cons c cs)
  show ?case
  proof (cases "map_of (rs_componentStatuses st) (ac_name c) = None")
    case True
    then show ?thesis by (simp add: process_component_def Let_def)
  next
    case known: False
    then obtain st1 where one: "process_component k reg c st = (Processed, st1)"
      using process_component_accepted [OF _ assms(2) known] Cons.prems by (metis list.set_intros(1))
    note c1 = process_component_carried [OF one]
    have keys: "fst ` set (rs_componentStatuses st1) = fst ` set (rs_componentStatuses st)"
      using c1 unfolding carried_def by (metis list.set_map)
    have "ac_name c \<in> fst ` set (rs_componentStatuses st)"
      using known by (simp add: map_of_eq_None_iff)
    moreover have "app_namespace (rs_appDef st1) = app_namespace (rs_appDef st)"
      using c1 same_but_annotations_frame(1) by (simp add: carried_def)
    ultimately have "fst (process_components k reg cs st1) = ProcessPanic (err_msg nil_dereference)"
      using Cons.prems keys by (intro Cons.IH) auto
    then obtain st2 where "process_components k reg cs st1 = (ProcessPanic (err_msg nil_dereference), st2)"
      by (metis prod.collapse)
    with one show ?thesis by simp
  qed
qed simp

end
