(* ===== verification/Health.thy ===== *)
theory Health
  imports Cluster
begin

text \<open>
  \<^verbatim>\<open>internal/controller/common/kubeutil/health.go\<close>: is a resource ready? The live object is read as
  unstructured data, converted to its Go type and judged by a checker for that type. A checker
  returns the verdict, a message and, where it calls the API, an error. Replica counts are 32-bit
  words compared as signed numbers.
\<close>

type_synonym health = "bool \<times> string \<times> goerror option"

definition healthy :: "string \<Rightarrow> health" where "healthy msg = (True, msg, None)"
definition unhealthy :: "string \<Rightarrow> health" where "unhealthy msg = (False, msg, None)"
definition health_error :: "string \<Rightarrow> goerror \<Rightarrow> health" where
  "health_error msg e = (False, msg, Some e)"

lemmas health_defs [go_defs] = healthy_def unhealthy_def health_error_def

definition fraction :: "int32 \<Rightarrow> int32 \<Rightarrow> string" where
  "fraction a b = itoa32 a @ ''/'' @ itoa32 b"

definition count_fraction :: "nat \<Rightarrow> nat \<Rightarrow> string" where
  "count_fraction a b = itoa (int a) @ ''/'' @ itoa (int b)"

subsection \<open>Deployments\<close>

text \<open>The loop over the conditions keeps the last one of each type.\<close>

fun last_condition ::
    "string \<Rightarrow> deploymentCondition list \<Rightarrow> deploymentCondition option \<Rightarrow> deploymentCondition option" where
  "last_condition ty [] acc = acc"
| "last_condition ty (c # cs) acc = last_condition ty cs (if dc_type c = ty then Some c else acc)"

definition checkDeploymentHealth ::
    "objectMeta \<Rightarrow> deploymentSpec \<Rightarrow> deploymentStatus \<Rightarrow> health" where
  "checkDeploymentHealth meta spec status =
     (if dep_paused spec then unhealthy ''Deployment is paused''
      else if dep_observedGeneration status < om_generation meta then
        unhealthy (''Waiting for rollout to be observed (generation ''
          @ itoa (dep_observedGeneration status) @ '' < desired '' @ itoa (om_generation meta) @ '')'')
      else
        let availableCond = last_condition ''Available'' (dep_conditions status) None;
            progressingCond = last_condition ''Progressing'' (dep_conditions status) None
        in if (case availableCond of None \<Rightarrow> True | Some c \<Rightarrow> dc_status c \<noteq> ConditionTrue) then
             unhealthy (''Deployment not available''
               @ (case availableCond of None \<Rightarrow> []
                  | Some c \<Rightarrow> '': '' @ dc_reason c @ '' ('' @ dc_message c @ '')''))
           else if (case progressingCond of None \<Rightarrow> True
                    | Some c \<Rightarrow> dc_status c \<noteq> ConditionTrue \<or> dc_reason c \<noteq> ''NewReplicaSetAvailable'') then
             unhealthy (''Deployment rollout not complete (Progressing reason: ''
               @ (case progressingCond of None \<Rightarrow> ''Unknown'' | Some c \<Rightarrow> dc_reason c) @ '')'')
           else
             let desiredReplicas = value_or (dep_replicas spec) 1
             in if dep_updatedReplicas status <s desiredReplicas then
                  unhealthy (''Waiting for update: ''
                    @ fraction (dep_updatedReplicas status) desiredReplicas @ '' updated replicas'')
                else if dep_readyReplicas status <s desiredReplicas then
                  unhealthy (''Waiting for readiness: ''
                    @ fraction (dep_readyReplicas status) desiredReplicas @ '' ready replicas'')
                else if dep_availableReplicas status <s desiredReplicas then
                  unhealthy (''Waiting for availability: ''
                    @ fraction (dep_availableReplicas status) desiredReplicas @ '' available replicas'')
                else healthy (''Deployment available (''
                    @ fraction (dep_readyReplicas status) desiredReplicas @ '' replicas ready)''))"

subsection \<open>StatefulSets\<close>

text \<open>The partition of a rolling update, when the strategy is one and sets it.\<close>

definition rollout_partition :: "statefulSetSpec \<Rightarrow> int32 option" where
  "rollout_partition spec =
     (if us_type (sts_updateStrategy spec) = ''RollingUpdate'' then
        (case us_rollingUpdate (sts_updateStrategy spec) of
           None \<Rightarrow> None | Some ru \<Rightarrow> ru_partition ru)
      else None)"

definition checkStatefulSetHealth ::
    "objectMeta \<Rightarrow> statefulSetSpec \<Rightarrow> statefulSetStatus \<Rightarrow> health" where
  "checkStatefulSetHealth meta spec status =
     (if sts_observedGeneration status < om_generation meta then
        unhealthy (''Waiting for rollout to be observed (generation ''
          @ itoa (sts_observedGeneration status) @ '' < desired '' @ itoa (om_generation meta) @ '')'')
      else
        let desiredReplicas = value_or (sts_replicas spec) 1;
            readyReplicas = sts_readyReplicas status;
            currentReplicas = sts_currentReplicas status;
            updatedReplicas = sts_updatedReplicas status
        in if updatedReplicas <s desiredReplicas then
             unhealthy (''Rollout in progress: '' @ fraction updatedReplicas desiredReplicas @ '' pods updated'')
           else if readyReplicas <s desiredReplicas then
             unhealthy (''Waiting for readiness: '' @ fraction readyReplicas desiredReplicas @ '' ready replicas'')
           else if currentReplicas <s desiredReplicas then
             unhealthy (''Waiting for stability: '' @ fraction currentReplicas desiredReplicas @ '' current replicas'')
           else (case rollout_partition spec of
               Some p \<Rightarrow>
                 if updatedReplicas <s desiredReplicas - p then
                   unhealthy (''Waiting for partitioned rollout: '' @ fraction updatedReplicas desiredReplicas
                     @ '' updated replicas above partition '' @ itoa32 p)
                 else healthy (''StatefulSet available ('' @ fraction readyReplicas desiredReplicas @ '' replicas ready)'')
             | None \<Rightarrow>
                 healthy (''StatefulSet available ('' @ fraction readyReplicas desiredReplicas @ '' replicas ready)'')))"

subsection \<open>Services\<close>

definition ready_count :: "endpointSubset list \<Rightarrow> nat" where
  "ready_count subsets = sum_list (map (\<lambda>s. length (eps_addresses s)) subsets)"

definition total_count :: "endpointSubset list \<Rightarrow> nat" where
  "total_count subsets =
     sum_list (map (\<lambda>s. length (eps_notReadyAddresses s)) subsets) + ready_count subsets"

definition has_ready_endpoints :: "endpointSubset list \<Rightarrow> bool" where
  "has_ready_endpoints subsets = list_ex (\<lambda>s. length (eps_addresses s) > 0) subsets"

definition has_any_endpoints :: "endpointSubset list \<Rightarrow> bool" where
  "has_any_endpoints subsets =
     list_ex (\<lambda>s. length (eps_addresses s) > 0 \<or> length (eps_notReadyAddresses s) > 0) subsets"

definition checkServiceHealth ::
    "'w cluster \<Rightarrow> nsname \<Rightarrow> serviceSpec \<Rightarrow> ingressPoint list \<Rightarrow> 'w \<Rightarrow> health \<times> 'w" where
  "checkServiceHealth k key spec ingress w =
     (if svc_clusterIP spec = ClusterIPNone then
        (case kc_get_endpoints k key w of
           (Inl e, w') \<Rightarrow>
             (if is_not_found e then unhealthy ''Headless service endpoints not found''
              else health_error (''Failed to get Headless service endpoints: '' @ err_msg e) e, w')
         | (Inr subsets, w') \<Rightarrow>
             (if \<not> has_any_endpoints subsets
              then unhealthy ''Headless service exists but no endpoints found''
              else healthy ''Headless service exists and endpoints found'', w'))
      else if svc_type spec = ''LoadBalancer'' then
        (if list_ex (\<lambda>i. ing_ip i \<noteq> [] \<or> ing_hostname i \<noteq> []) ingress
         then healthy ''LoadBalancer has assigned ingress point(s)''
         else unhealthy ''Waiting for LoadBalancer ingress assignment'', w)
      else if svc_type spec = ''ExternalName'' then (healthy ''ExternalName Service exists'', w)
      else
        (case kc_get_endpoints k key w of
           (Inl e, w') \<Rightarrow>
             (if is_not_found e then unhealthy ''Service endpoints not found''
              else health_error (''Failed to get Endpoints: '' @ err_msg e) e, w')
         | (Inr subsets, w') \<Rightarrow>
             (if \<not> has_ready_endpoints subsets
              then unhealthy (''No ready endpoints found for Service (''
                     @ count_fraction (ready_count subsets) (total_count subsets) @ '' ready/total)'')
              else healthy (''Service has ready endpoints (''
                     @ count_fraction (ready_count subsets) (total_count subsets) @ '' ready/total)''), w')))"

subsection \<open>Volume claims and disruption budgets\<close>

definition checkPVCHealth :: "string \<Rightarrow> health" where
  "checkPVCHealth phase =
     (if phase = ''Bound'' then healthy ''PVC is Bound''
      else if phase = ''Pending'' then
        unhealthy (''PVC is Pending (waiting for volume provision). Phase: '' @ phase)
      else if phase = ''Lost'' then unhealthy (''PVC is Lost. Phase: '' @ phase)
      else unhealthy (''PVC phase is '' @ phase @ '' (needs Bound)''))"

definition checkPdbHealth :: "objectMeta \<Rightarrow> pdbStatus \<Rightarrow> health" where
  "checkPdbHealth meta st =
     (if pdb_observedGeneration st < om_generation meta then
        unhealthy (''PDB sync in progress (gen '' @ itoa (pdb_observedGeneration st)
          @ '' < desired '' @ itoa (om_generation meta) @ '')'')
      else if pdb_desiredHealthy st \<le>s pdb_currentHealthy st then
        (if 0 <s pdb_disruptionsAllowed st then
           healthy (''PDB allows disruptions ('' @ itoa32 (pdb_disruptionsAllowed st) @ '' allowed, ''
             @ fraction (pdb_currentHealthy st) (pdb_desiredHealthy st) @ '' healthy)'')
         else
           healthy (''PDB healthy ('' @ fraction (pdb_currentHealthy st) (pdb_desiredHealthy st)
             @ ''), but no disruptions allowed''))
      else unhealthy (''PDB not healthy ('' @ fraction (pdb_currentHealthy st) (pdb_desiredHealthy st)
             @ '' healthy, '' @ itoa32 (pdb_disruptionsAllowed st) @ '' disruptions allowed)''))"

definition checkPdbHealthBeta1 :: "objectMeta \<Rightarrow> pdbStatus \<Rightarrow> health" where
  "checkPdbHealthBeta1 meta st =
     (if pdb_observedGeneration st < om_generation meta then
        unhealthy (''PDB sync in progress (gen '' @ itoa (pdb_observedGeneration st)
          @ '' < desired '' @ itoa (om_generation meta) @ '')'')
      else if pdb_desiredHealthy st \<le>s pdb_currentHealthy st then
        (if 0 <s pdb_disruptionsAllowed st then
           healthy (''PDB allows disruptions ('' @ itoa32 (pdb_disruptionsAllowed st) @ '' allowed, ''
             @ fraction (pdb_currentHealthy st) (pdb_desiredHealthy st) @ '' healthy)'')
         else
           healthy (''PDB healthy ('' @ fraction (pdb_currentHealthy st) (pdb_desiredHealthy st)
             @ ''), but no disruptions allowed''))
      else unhealthy (''PDB not healthy ('' @ fraction (pdb_currentHealthy st) (pdb_desiredHealthy st)
             @ '' healthy, '' @ itoa32 (pdb_disruptionsAllowed st) @ '' disruptions allowed)''))"

subsection \<open>Dispatch\<close>

definition check_typed ::
    "'w cluster \<Rightarrow> string \<Rightarrow> gvk \<Rightarrow> kobject \<Rightarrow> 'w \<Rightarrow> health \<times> 'w" where
  "check_typed k kind g typedObj w =
     (case ko_body typedObj of
        Deployment spec status \<Rightarrow> (checkDeploymentHealth (ko_meta typedObj) spec status, w)
      | StatefulSet spec status \<Rightarrow> (checkStatefulSetHealth (ko_meta typedObj) spec status, w)
      | Service spec ingress \<Rightarrow> checkServiceHealth k (object_key typedObj) spec ingress w
      | PersistentVolumeClaim spec phase \<Rightarrow> (checkPVCHealth phase, w)
      | PodDisruptionBudget st \<Rightarrow> (checkPdbHealth (ko_meta typedObj) st, w)
      | PodDisruptionBudgetBeta1 st \<Rightarrow> (checkPdbHealthBeta1 (ko_meta typedObj) st, w)
      | ConfigMap _ _ \<Rightarrow> (healthy (kind @ '' exists''), w)
      | Secret _ \<Rightarrow> (healthy (kind @ '' exists''), w)
      | ServiceAccount \<Rightarrow> (healthy (kind @ '' exists''), w)
      | OtherObject _ \<Rightarrow>
          (healthy (''Exists, specific health check for '' @ gvk_kind g @ '' not implemented''), w))"

definition CheckHealth ::
    "'w cluster \<Rightarrow> string \<Rightarrow> string \<Rightarrow> string \<Rightarrow> string \<Rightarrow> 'w \<Rightarrow> health \<times> 'w" where
  "CheckHealth k ns name apiVersion kind w =
     (let g = lib_gvk k apiVersion kind in
      case kc_get_unstructured k g (NsName ns name) w of
        (Inl e, w1) \<Rightarrow>
          (if is_not_found e then unhealthy ''Resource not found''
           else health_error (''Failed to get resource: '' @ err_msg e)
                  (wrapf (''failed to get resource '' @ kind @ '' '' @ ns @ ''/'' @ name @ '': '') e), w1)
      | (Inr raw_obj, w1) \<Rightarrow>
          (case lib_scheme_new k g of
             Some e \<Rightarrow>
               (let msg = ''Scheme failed to create new object for GVK '' @ lib_gvk_string k g
                in (health_error msg (wrapf (msg @ '': '') e), w1))
           | None \<Rightarrow>
               (case lib_from_unstructured k raw_obj g of
                  Inl e \<Rightarrow>
                    (let msg = ''Failed to convert unstructured to typed object for GVK '' @ lib_gvk_string k g
                     in (health_error (msg @ '': '' @ err_msg e)
                           (wrapf (msg @ '' '' @ ns @ ''/'' @ name @ '': '') e), w1))
                | Inr typedObj \<Rightarrow> check_typed k kind g typedObj w1)))"

subsection \<open>When the verdict is healthy\<close>

lemma fst_health [simp]:
  "fst (healthy m)" "\<not> fst (unhealthy m)" "\<not> fst (health_error m e)"
  "snd (snd (healthy m)) = None" "snd (snd (unhealthy m)) = None"
  "snd (snd (health_error m e)) = Some e"
  by (simp_all add: health_defs)

lemma not_less_signed: "\<not> (a <s b) \<longleftrightarrow> sint b \<le> sint (a :: 'a::len word)"
  by (simp add: word_sless_alt linorder_not_less)

definition condition_holds ::
    "string \<Rightarrow> (deploymentCondition \<Rightarrow> bool) \<Rightarrow> deploymentCondition list \<Rightarrow> bool" where
  "condition_holds ty P cs \<longleftrightarrow>
     (case last_condition ty cs None of
        None \<Rightarrow> False | Some c \<Rightarrow> dc_status c = ConditionTrue \<and> P c)"

definition deployment_ready :: "objectMeta \<Rightarrow> deploymentSpec \<Rightarrow> deploymentStatus \<Rightarrow> bool" where
  "deployment_ready meta spec status \<longleftrightarrow>
     \<not> dep_paused spec \<and> om_generation meta \<le> dep_observedGeneration status \<and>
     condition_holds ''Available'' (\<lambda>_. True) (dep_conditions status) \<and>
     condition_holds ''Progressing'' (\<lambda>c. dc_reason c = ''NewReplicaSetAvailable'') (dep_conditions status) \<and>
     (let d = sint (value_or (dep_replicas spec) 1)
      in d \<le> sint (dep_updatedReplicas status) \<and> d \<le> sint (dep_readyReplicas status) \<and>
         d \<le> sint (dep_availableReplicas status))"

lemma checkDeploymentHealth_iff:
  "fst (checkDeploymentHealth meta spec status) = deployment_ready meta spec status"
  unfolding checkDeploymentHealth_def deployment_ready_def condition_holds_def Let_def
  by (auto simp: word_sless_alt split: option.splits)

definition statefulset_ready :: "objectMeta \<Rightarrow> statefulSetSpec \<Rightarrow> statefulSetStatus \<Rightarrow> bool" where
  "statefulset_ready meta spec status \<longleftrightarrow>
     om_generation meta \<le> sts_observedGeneration status \<and>
     (let d = sint (value_or (sts_replicas spec) 1)
      in d \<le> sint (sts_updatedReplicas status) \<and> d \<le> sint (sts_readyReplicas status) \<and>
         d \<le> sint (sts_currentReplicas status))"

text \<open>
  The partition test is implied by the test before it, as long as the subtraction does not
  overflow: a partition that is not negative never changes the verdict.
\<close>

lemma sint_diff_no_overflow:
  fixes a b :: int32
  assumes "0 \<le> sint a" "0 \<le> sint b"
  shows "sint (a - b) = sint a - sint b"
proof -
  have "sint a < 2 ^ 31" "sint b < 2 ^ 31"
    using sint_lt [of a] sint_lt [of b] by simp_all
  with assms have "- (2 ^ 31) \<le> sint a - sint b" "sint a - sint b < 2 ^ 31" by linarith+
  then have "signed_take_bit 31 (sint a - sint b) = sint a - sint b"
    by (simp add: signed_take_bit_int_eq_self)
  then show ?thesis by (simp add: sint_word_ariths)
qed

lemma partition_test_implied:
  fixes d p u :: int32
  assumes "0 \<le> sint d" "0 \<le> sint p" "\<not> (u <s d)"
  shows "\<not> (u <s d - p)"
  using assms by (simp add: word_sless_alt sint_diff_no_overflow)

lemma checkStatefulSetHealth_iff:
  assumes "0 \<le> sint (value_or (sts_replicas spec) 1)"
    and "\<And>p. rollout_partition spec = Some p \<Longrightarrow> 0 \<le> sint p"
  shows "fst (checkStatefulSetHealth meta spec status) = statefulset_ready meta spec status"
proof -
  let ?d = "value_or (sts_replicas spec) 1" and ?u = "sts_updatedReplicas status"
  have dead: "\<not> (?u <s ?d - p)" if "rollout_partition spec = Some p" "\<not> (?u <s ?d)" for p
    using partition_test_implied [OF assms(1) assms(2) [OF that(1)] that(2)] .
  show ?thesis
    using dead
    by (auto simp: checkStatefulSetHealth_def statefulset_ready_def Let_def not_less_signed
        linorder_not_less split: option.splits) (simp_all add: word_sless_alt)
qed

lemma checkPdbHealth_iff:
  "fst (checkPdbHealth meta st) \<longleftrightarrow>
     om_generation meta \<le> pdb_observedGeneration st \<and>
     sint (pdb_desiredHealthy st) \<le> sint (pdb_currentHealthy st)"
  by (simp add: checkPdbHealth_def word_sle_eq)

lemma checkPVCHealth_iff: "fst (checkPVCHealth phase) \<longleftrightarrow> phase = ''Bound''"
  by (simp add: checkPVCHealth_def)

lemma has_ready_count: "has_ready_endpoints subsets \<longleftrightarrow> ready_count subsets > 0"
  by (induction subsets) (auto simp: has_ready_endpoints_def ready_count_def)

lemma ready_le_total: "ready_count subsets \<le> total_count subsets"
  by (simp add: total_count_def)

text \<open>A verdict is never healthy together with an error.\<close>

lemma checkServiceHealth_ok:
  "fst (fst (checkServiceHealth k key spec ingress w)) \<Longrightarrow>
    snd (snd (fst (checkServiceHealth k key spec ingress w))) = None"
  by (auto simp: checkServiceHealth_def split: prod.splits sum.splits if_splits)

lemma check_typed_ok:
  assumes "fst (fst (check_typed k kind g obj w))"
  shows "snd (snd (fst (check_typed k kind g obj w))) = None"
proof (cases "ko_body obj")
  case (Service spec ingress)
  with assms show ?thesis by (simp add: check_typed_def checkServiceHealth_ok)
qed (use assms in \<open>auto simp: check_typed_def checkDeploymentHealth_def checkStatefulSetHealth_def
      checkPVCHealth_def checkPdbHealth_def checkPdbHealthBeta1_def Let_def
      split: if_splits option.splits\<close>)

lemma CheckHealth_ok:
  "fst (fst (CheckHealth k ns name av kind w)) \<Longrightarrow>
    snd (snd (fst (CheckHealth k ns name av kind w))) = None"
  by (auto simp: CheckHealth_def Let_def check_typed_ok split: prod.splits sum.splits option.splits)

subsection \<open>Properties\<close>

text \<open>
  C31. A StatefulSet whose replica count and partition are not negative is healthy exactly when its
  generation was observed and the updated, ready and current replicas reach the desired count. The
  partition never changes the verdict: the test for it is implied by the one before.
\<close>

theorem statefulset_health:
  assumes "0 \<le> sint (value_or (sts_replicas spec) 1)"
    and "\<And>p. rollout_partition spec = Some p \<Longrightarrow> 0 \<le> sint p"
  shows "fst (checkStatefulSetHealth meta spec status) = statefulset_ready meta spec status"
  by (rule checkStatefulSetHealth_iff [OF assms])

definition example_sts_spec :: "int32 \<Rightarrow> int32 \<Rightarrow> statefulSetSpec" where
  "example_sts_spec replicas part =
     \<lparr>sts_replicas = Some replicas, sts_selector = Map.empty,
      sts_template = \<lparr>pt_labels = Map.empty, pt_annotations = Map.empty,
        pt_spec = \<lparr>ps_initContainers = [], ps_containers = [], ps_volumes = [], ps_serviceAccountName = [],
          ps_securityContext = None, ps_nodeSelector = Map.empty, ps_tolerations = [],
          ps_affinity = None, ps_restartPolicy = []\<rparr>\<rparr>,
      sts_volumeClaimTemplates = [], sts_serviceName = [],
      sts_updateStrategy = \<lparr>us_type = ''RollingUpdate'',
        us_rollingUpdate = Some \<lparr>ru_partition = Some part, ru_rest = []\<rparr>\<rparr>,
      sts_podManagementPolicy = []\<rparr>"

definition example_sts_status :: "int32 \<Rightarrow> int32 \<Rightarrow> int32 \<Rightarrow> statefulSetStatus" where
  "example_sts_status ready current updated =
     \<lparr>sts_observedGeneration = 1, sts_readyReplicas = ready, sts_currentReplicas = current,
      sts_updatedReplicas = updated\<rparr>"

text \<open>Three replicas and a partition of two: one updated pod is all the rollout asks for, but not enough.\<close>

theorem statefulset_health_witness:
  "\<not> fst (checkStatefulSetHealth (empty_meta\<lparr>om_generation := 1\<rparr>) (example_sts_spec 3 2)
       (example_sts_status 3 3 1)) \<and>
   fst (checkStatefulSetHealth (empty_meta\<lparr>om_generation := 1\<rparr>) (example_sts_spec 3 2)
       (example_sts_status 3 3 3))"
  using statefulset_health [of "example_sts_spec 3 2" "empty_meta\<lparr>om_generation := 1\<rparr>"]
  by (simp add: example_sts_spec_def example_sts_status_def rollout_partition_def statefulset_ready_def
      empty_meta_def Let_def)

text \<open>
  A disruption budget is healthy exactly when its generation was observed and at least the desired
  number of pods is healthy, in both versions of the API; the number of disruptions it allows only
  changes the message.
\<close>

theorem pdb_health:
  "fst (checkPdbHealth meta st) =
     (om_generation meta \<le> pdb_observedGeneration st \<and> sint (pdb_desiredHealthy st) \<le> sint (pdb_currentHealthy st)) \<and>
   checkPdbHealthBeta1 meta st = checkPdbHealth meta st"
  using checkPdbHealth_iff by (simp add: checkPdbHealthBeta1_def checkPdbHealth_def)

text \<open>
  A service that is not headless, a load balancer or an external name is healthy exactly when its
  endpoints are found and hold a ready address.
\<close>

theorem service_health:
  assumes "svc_clusterIP spec \<noteq> ClusterIPNone" "svc_type spec \<notin> {''LoadBalancer'', ''ExternalName''}"
  shows "fst (fst (checkServiceHealth k key spec ingress w)) =
    (case fst (kc_get_endpoints k key w) of Inl e \<Rightarrow> False | Inr subsets \<Rightarrow> ready_count subsets > 0)"
  using assms by (auto simp: checkServiceHealth_def has_ready_count split: sum.splits prod.splits)

theorem service_health_witness:
  "fst (fst (checkServiceHealth
     (bare_cluster\<lparr>kc_get_endpoints := \<lambda>key w.
        (Inr [\<lparr>eps_addresses = [''10.0.0.1''], eps_notReadyAddresses = []\<rparr>], w)\<rparr>)
     (NsName ''default'' ''web'')
     \<lparr>svc_selector = Map.empty, svc_clusterIP = ''10.0.0.9'', svc_type = ''ClusterIP'', svc_ports = [],
      svc_sessionAffinity = [], svc_sessionAffinityConfig = None\<rparr> [] (0::nat)))"
  by (subst service_health) (simp_all add: ClusterIPNone_def ready_count_def)

text \<open>
  A health check that returns an error never calls the resource healthy; when the resource is
  missing there is no error either, so the controller waits instead of failing.
\<close>

theorem check_health_error_unhealthy:
  "\<not> (fst (fst (CheckHealth k ns name av kind w)) \<and> snd (snd (fst (CheckHealth k ns name av kind w))) \<noteq> None)"
  by (auto dest: CheckHealth_ok)

end
