(* ===== verification/Rollout.thy ===== *)
theory Rollout
  imports Process Health
begin

text \<open>
  \<^verbatim>\<open>applyResources\<close> and \<^verbatim>\<open>checkHealthAndCalculateStatus\<close> of
  \<^verbatim>\<open>internal/controller/app/applicationdefinition_controller.go\<close>: the objects are brought to the
  cluster in order, with the errors noted at their components; then every component is judged.
\<close>

subsection \<open>Applying the objects\<close>

text \<open>The cluster IP of an existing service is kept.\<close>

definition preserve_cluster_ip :: "'w cluster \<Rightarrow> kobject \<Rightarrow> 'w \<Rightarrow> (goerror + kobject) \<times> 'w" where
  "preserve_cluster_ip k obj w =
     (case ko_body obj of
        Service spec ingress \<Rightarrow>
          (case kc_get_service k (object_key obj) w of
             (Inl e, w1) \<Rightarrow>
               (if \<not> is_not_found e
                then Inl (wrapf (''failed to get existing service ''
                       @ lib_key_string k (object_key obj) @ '': '') e)
                else Inr obj, w1)
           | (Inr currentSvc, w1) \<Rightarrow>
               (Inr (obj\<lparr>ko_body := Service (spec\<lparr>svc_clusterIP := svc_clusterIP currentSvc\<rparr>) ingress\<rparr>), w1))
      | _ \<Rightarrow> (Inr obj, w))"

definition put_apply_result :: "string \<Rightarrow> applyResult \<Rightarrow> reconcileState \<Rightarrow> reconcileState" where
  "put_apply_result key r st = st\<lparr>rs_applyResults := (rs_applyResults st)(key \<mapsto> r)\<rparr>"

definition note_apply_error :: "'w cluster \<Rightarrow> kobject \<Rightarrow> goerror \<Rightarrow> reconcileState \<Rightarrow> reconcileState" where
  "note_apply_error k obj e st =
     st\<lparr>rs_componentStatuses := updateComponentStatusForApplyError k (rs_componentStatuses st) obj e\<rparr>"

definition failure_text :: "'w cluster \<Rightarrow> string \<Rightarrow> kobject \<Rightarrow> goerror \<Rightarrow> string" where
  "failure_text k what obj e =
     what @ gvk_kind (object_gvk k obj) @ '' '' @ lib_key_string k (object_key obj) @ '': '' @ err_msg e"

definition apply_event :: "'w cluster \<Rightarrow> appDef \<Rightarrow> kobject \<Rightarrow> operationResult \<Rightarrow> emitted list" where
  "apply_event k app obj op =
     (let kind = gvk_kind (object_gvk k obj) in
      case op of
        OperationResultCreated \<Rightarrow>
          recordEvent k app ''ApplyResources'' StatusSuccess (''Sync'' @ kind) ''Normal'' ''ResourceCreated''
            (''Created '' @ kind @ '': '' @ get_name obj)
      | OperationResultUpdated \<Rightarrow>
          recordEvent k app ''ApplyResources'' StatusSuccess (''Sync'' @ kind) ''Normal'' ''ResourceUpdated''
            (''Updated '' @ kind @ '': '' @ get_name obj)
      | _ \<Rightarrow> [])"

text \<open>After the object was applied: the result is stored and reported.\<close>

definition settle_result ::
    "'w cluster \<Rightarrow> kobject \<Rightarrow> applyResult \<Rightarrow> goerror option \<Rightarrow> reconcileState \<Rightarrow> goerror option \<times> reconcileState" where
  "settle_result k obj r firstApplyErr st =
     (let key = BuildObjectResultMapKey k (Some obj); app = rs_appDef st;
          st = put_apply_result key r st
      in case ar_error r of
           Some e \<Rightarrow>
             if is_conflict e then (first_error firstApplyErr e, st)
             else (first_error firstApplyErr e,
                   note_apply_error k obj e
                     (emit (recordEventf k app ''ApplyResources'' StatusFailure ''SyncComponent'' ''Warning''
                        ''ResourceApplyFailed'' (failure_text k ''Failed to apply resource '' obj e)) st))
         | None \<Rightarrow> (firstApplyErr, emit (apply_event k app obj (ar_operation r)) st))"

text \<open>One object; \<open>True\<close> in the result: \<^verbatim>\<open>applyResources\<close> returns with this error.\<close>

definition apply_object ::
    "'w cluster \<Rightarrow> kobject \<Rightarrow> goerror option \<Rightarrow> reconcileState \<Rightarrow> 'w
      \<Rightarrow> ((bool \<times> goerror option) \<times> kobject \<times> reconcileState) \<times> 'w" where
  "apply_object k obj firstApplyErr st w =
     (case preserve_cluster_ip k obj w of
        (Inl e, w1) \<Rightarrow> (((True, Some e), obj, st), w1)
      | (Inr obj1, w1) \<Rightarrow>
          (case lib_set_controller_ref k (rs_appDef st) obj1 of
             Inl e \<Rightarrow>
               (let errMsg = failure_text k ''Failed to set OwnerReference on '' obj1 e;
                    e' = (case firstApplyErr of None \<Rightarrow> errorf errMsg | Some fe \<Rightarrow> fe);
                    st1 = emit (recordEventf k (rs_appDef st) ''ApplyResources'' StatusFailure
                            ''SyncComponent'' ''Warning'' ''SetOwnerRefFailed'' errMsg) st
                in (((True, Some e'), obj1,
                     note_apply_error k obj1 e'
                       (put_apply_result (BuildObjectResultMapKey k (Some obj1)) (apply_failed e') st1)), w1))
           | Inr obj2 \<Rightarrow>
               (case ApplyObjectV2 k obj2 OperatorName w1 of
                  (r, w2) \<Rightarrow>
                    (case settle_result k obj2 r firstApplyErr st of
                       (fe, st') \<Rightarrow> (((False, fe), obj2, st'), w2)))))"

fun apply_objects ::
    "'w cluster \<Rightarrow> kobject list \<Rightarrow> kobject list \<Rightarrow> goerror option \<Rightarrow> reconcileState \<Rightarrow> 'w
      \<Rightarrow> ((bool \<times> goerror option) \<times> reconcileState) \<times> 'w" where
  "apply_objects k applied [] firstApplyErr st w =
     (((False, firstApplyErr), st\<lparr>rs_desiredObjects := applied\<rparr>), w)"
| "apply_objects k applied (obj # objs) firstApplyErr st w =
     (case apply_object k obj firstApplyErr st w of
        (((stop, fe), obj', st'), w') \<Rightarrow>
          if stop then (((True, fe), st'\<lparr>rs_desiredObjects := applied @ obj' # objs\<rparr>), w')
          else apply_objects k (applied @ [obj']) objs fe st' w')"

definition applyResources ::
    "'w cluster \<Rightarrow> reconcileState \<Rightarrow> 'w \<Rightarrow> (goerror option \<times> reconcileState) \<times> 'w" where
  "applyResources k st w =
     (if length (rs_desiredObjects st) = 0 then ((None, st), w)
      else case apply_objects k [] (rs_desiredObjects st) None st w of
        (((True, e), st'), w') \<Rightarrow> ((e, st'), w')
      | (((False, e), st'), w') \<Rightarrow>
          ((e, st'\<lparr>rs_componentStatuses :=
             updateComponentStatusesFromApplyResults k (rs_componentStatuses st')
               (rs_desiredObjects st') (rs_applyResults st')\<rparr>), w'))"

subsection \<open>Judging the components\<close>

definition previous_error :: "string \<Rightarrow> bool" where
  "previous_error msg \<longleftrightarrow>
     str_contains msg ''Error:'' \<or> str_contains msg ''Failed'' \<or>
     msg \<in> {''BuilderStrategyNotFound'', ''CompDefNotFound'', ''InvalidCompDefSpec'',
       ''ConfigUnmarshalFailed'', ''BuildObjectsFailed'', ''InvalidBuiltObject''}"

text \<open>What one component contributes: is it ready, does it need a requeue, an error.\<close>

type_synonym verdict = "bool \<times> bool \<times> goerror option"

definition check_component ::
    "'w cluster \<Rightarrow> appDef \<Rightarrow> string \<Rightarrow> componentStatus \<Rightarrow> 'w \<Rightarrow> (componentStatus \<times> verdict) \<times> 'w" where
  "check_component k app compName cs0 w =
     (case as_components (ad_spec app) of
        [] \<Rightarrow> ((cs0, True, False, None), w)
      | spec # _ \<Rightarrow>
          (let cs = cs0\<lparr>cs_namespace := app_namespace app, cs_resourceName := compName,
                        cs_apiVersion := ac_apiVersion spec, cs_kind := ac_kind spec\<rparr> in
           if find (\<lambda>c. ac_name c = compName) (as_components (ad_spec app)) = None then
             ((cs, False, False, Some (errorf (''component spec not found for '' @ compName))), w)
           else
             let isInfoMissing = (cs_resourceName cs = [] \<or> cs_kind cs = [] \<or> cs_apiVersion cs = []);
                 isPreviousError = previous_error (cs_message cs)
             in if isInfoMissing \<or> isPreviousError then
                  ((cs\<lparr>cs_health := False,
                       cs_message := (if \<not> isPreviousError \<and> cs_message cs \<noteq> ''Resource Info Missing''
                                      then ''Resource Info Missing'' else cs_message cs)\<rparr>,
                    False, False, None), w)
                else
                  (case CheckHealth k (cs_namespace cs) (cs_resourceName cs) (cs_apiVersion cs) (cs_kind cs) w of
                     ((k8sHealthy, k8sMessage, Some e), w') \<Rightarrow>
                       ((cs\<lparr>cs_health := False, cs_message := ''K8sHealthCheckError: '' @ err_msg e\<rparr>,
                         False, True, Some e), w')
                   | ((k8sHealthy, k8sMessage, None), w') \<Rightarrow>
                       (if \<not> k8sHealthy
                        then (cs\<lparr>cs_health := False, cs_message := k8sMessage\<rparr>, False, True, None)
                        else (cs\<lparr>cs_health := True, cs_message := ''Component is ready and healthy''\<rparr>,
                              True, False, None), w'))))"

definition combine :: "verdict \<Rightarrow> verdict \<Rightarrow> verdict" where
  "combine a b =
     (fst a \<and> fst b, fst (snd a) \<or> fst (snd b),
      case snd (snd a) of None \<Rightarrow> snd (snd b) | Some e \<Rightarrow> Some e)"

fun check_components ::
    "'w cluster \<Rightarrow> appDef \<Rightarrow> string list \<Rightarrow> verdict \<Rightarrow> status_map \<Rightarrow> 'w \<Rightarrow> (verdict \<times> status_map) \<times> 'w" where
  "check_components k app [] v m w = ((v, m), w)"
| "check_components k app (name # names) v m w =
     (case map_of m name of
        None \<Rightarrow> check_components k app names v m w
      | Some cs \<Rightarrow>
          (case check_component k app name cs w of
             ((cs', v'), w') \<Rightarrow>
               check_components k app names (combine v v') (AList.update name cs' m) w'))"

text \<open>(all ready, needs a requeue, first error)\<close>

definition checkHealthAndCalculateStatus ::
    "'w cluster \<Rightarrow> reconcileState \<Rightarrow> 'w \<Rightarrow> (verdict \<times> reconcileState) \<times> 'w" where
  "checkHealthAndCalculateStatus k st w =
     (case check_components k (rs_appDef st) (lib_range k (map fst (rs_componentStatuses st)))
             (True, False, None) (rs_componentStatuses st) w of
        ((v, m), w') \<Rightarrow> ((v, st\<lparr>rs_componentStatuses := m\<rparr>), w'))"

subsection \<open>What applying keeps and shows\<close>

text \<open>The part of the state that neither applying nor judging touches: \<open>kept st st'\<close>.\<close>

definition kept :: "reconcileState \<Rightarrow> reconcileState \<Rightarrow> bool" where
  "kept st st' \<longleftrightarrow>
     rs_appDef st' = rs_appDef st \<and> rs_originalStatus st' = rs_originalStatus st \<and>
     rs_firstError st' = rs_firstError st \<and>
     fst ` set (rs_componentStatuses st') = fst ` set (rs_componentStatuses st) \<and>
     (statuses_ok (rs_componentStatuses st) \<longrightarrow> statuses_ok (rs_componentStatuses st'))"

lemma kept_refl [simp]: "kept st st"
  by (simp add: kept_def)

lemma kept_trans: "kept a b \<Longrightarrow> kept b c \<Longrightarrow> kept a c"
  by (simp add: kept_def)

lemma kept_simps:
  "kept st (emit evs st)" "kept st (put_apply_result key r st)"
  "kept st (st\<lparr>rs_desiredObjects := objs\<rparr>)"
  by (simp_all add: kept_def put_apply_result_def)

lemma kept_note_apply_error: "kept st (note_apply_error k obj e st)"
  using apply_error_keys [of k "rs_componentStatuses st" obj e]
  by (simp add: kept_def note_apply_error_def statuses_ok_apply_error)

lemma kept_steps:
  "kept st s \<Longrightarrow> kept st (emit evs s)" "kept st s \<Longrightarrow> kept st (put_apply_result key r s)"
  "kept st s \<Longrightarrow> kept st (note_apply_error k obj e s)"
  using kept_trans kept_simps kept_note_apply_error by metis+

lemma settle_result_kept: "settle_result k obj r fe st = (fe', st') \<Longrightarrow> kept st st'"
  unfolding settle_result_def Let_def
  by (auto split: option.splits if_splits intro!: kept_steps)

lemma apply_object_kept: "apply_object k obj fe st w = ((res, obj', st'), w') \<Longrightarrow> kept st st'"
  unfolding apply_object_def Let_def
  by (auto split: sum.splits prod.splits option.splits intro!: kept_steps dest: settle_result_kept)

lemma apply_objects_kept:
  "apply_objects k done todo fe st w = ((res, st'), w') \<Longrightarrow> kept st st'"
proof (induction todo arbitrary: "done" fe st w)
  case (Cons obj objs)
  obtain stop fe1 obj1 st1 w1 where one: "apply_object k obj fe st w = (((stop, fe1), obj1, st1), w1)"
    by (metis surj_pair)
  note k1 = apply_object_kept [OF one]
  show ?case
  proof (cases stop)
    case True
    with Cons.prems one kept_trans [OF k1 kept_simps(3)] show ?thesis by auto
  next
    case False
    with Cons.prems one Cons.IH kept_trans [OF k1] show ?thesis by fastforce
  qed
qed (auto simp: kept_simps)

lemma applyResources_kept:
  assumes "applyResources k st w = ((e, st'), w')"
  shows "kept st st'"
proof (cases "rs_desiredObjects st = []")
  case False
  obtain stop e1 st1 w1 where run:
    "apply_objects k [] (rs_desiredObjects st) None st w = (((stop, e1), st1), w1)" by (metis surj_pair)
  note k1 = apply_objects_kept [OF run]
  let ?m = "updateComponentStatusesFromApplyResults k (rs_componentStatuses st1) (rs_desiredObjects st1)
      (rs_applyResults st1)"
  have "fst ` set ?m = fst ` set (rs_componentStatuses st1)"
    by (metis apply_results_keys list.set_map)
  then have "kept st1 (st1\<lparr>rs_componentStatuses := ?m\<rparr>)"
    by (simp add: kept_def statuses_ok_apply_results)
  with k1 have k2: "kept st (st1\<lparr>rs_componentStatuses := ?m\<rparr>)" by (rule kept_trans)
  show ?thesis
  proof (cases stop)
    case True
    with False assms run k1 show ?thesis by (simp add: applyResources_def)
  next
    case go: False
    with False assms run k2 show ?thesis by (simp add: applyResources_def)
  qed
qed (use assms in \<open>simp add: applyResources_def\<close>)

definition applied_ok :: "'w cluster \<Rightarrow> (string \<rightharpoonup> applyResult) \<Rightarrow> kobject \<Rightarrow> bool" where
  "applied_ok k results obj \<longleftrightarrow>
     (case results (BuildObjectResultMapKey k (Some obj)) of
        None \<Rightarrow> False | Some r \<Rightarrow> ar_error r = None)"

lemma settle_result_ok:
  assumes "settle_result k obj r fe st = (None, st')"
  shows "fe = None \<and> ar_error r = None \<and>
    rs_applyResults st' = (rs_applyResults st)(BuildObjectResultMapKey k (Some obj) \<mapsto> r)"
  using assms by (auto simp: settle_result_def put_apply_result_def Let_def split: option.splits if_splits)

lemma apply_object_ok:
  assumes "apply_object k obj fe st w = (((stop, None), obj', st'), w')"
  shows "\<not> stop \<and> fe = None \<and>
    (\<exists>r. ar_error r = None \<and>
      rs_applyResults st' = (rs_applyResults st)(BuildObjectResultMapKey k (Some obj') \<mapsto> r))"
  using assms
  by (auto simp: apply_object_def Let_def split: sum.splits prod.splits option.splits
      dest!: settle_result_ok)

lemma apply_objects_ok:
  assumes "apply_objects k done todo fe st w = (((stop, None), st'), w')"
    and "fe = None \<Longrightarrow> \<forall>obj \<in> set done. applied_ok k (rs_applyResults st) obj"
  shows "\<not> stop \<and> fe = None \<and> length (rs_desiredObjects st') = length done + length todo \<and>
    (\<forall>obj \<in> set (rs_desiredObjects st'). applied_ok k (rs_applyResults st') obj)"
  using assms
proof (induction todo arbitrary: "done" fe st w)
  case Nil
  then show ?case by auto
next
  case (Cons obj objs)
  obtain stop1 fe1 obj1 st1 w1 where one: "apply_object k obj fe st w = (((stop1, fe1), obj1, st1), w1)"
    by (metis surj_pair)
  show ?case
  proof (cases fe1)
    case None
    with apply_object_ok one obtain r where r: "\<not> stop1" "fe = None" "ar_error r = None"
      "rs_applyResults st1 = (rs_applyResults st)(BuildObjectResultMapKey k (Some obj1) \<mapsto> r)" by metis
    have "\<forall>obj \<in> set (done @ [obj1]). applied_ok k (rs_applyResults st1) obj"
      using Cons.prems(2) [OF r(2)] r(3,4) by (auto simp: applied_ok_def)
    moreover have "apply_objects k (done @ [obj1]) objs fe1 st1 w1 = (((stop, None), st'), w')"
      using Cons.prems(1) one r(1) by simp
    ultimately show ?thesis using Cons.IH [of "done @ [obj1]" fe1 st1 w1] r(2) by simp
  next
    case (Some e)
    show ?thesis
    proof (cases stop1)
      case True
      with Cons.prems(1) one Some show ?thesis by simp
    next
      case False
      then have "apply_objects k (done @ [obj1]) objs fe1 st1 w1 = (((stop, None), st'), w')"
        using Cons.prems(1) one by simp
      from Cons.IH [OF this] Some show ?thesis by simp
    qed
  qed
qed

lemma applyResources_ok:
  assumes "applyResources k st w = ((None, st'), w')"
  shows "length (rs_desiredObjects st') = length (rs_desiredObjects st) \<and>
    (\<forall>obj \<in> set (rs_desiredObjects st'). applied_ok k (rs_applyResults st') obj)"
proof (cases "rs_desiredObjects st = []")
  case False
  obtain stop e1 st1 w1 where run:
    "apply_objects k [] (rs_desiredObjects st) None st w = (((stop, e1), st1), w1)" by (metis surj_pair)
  with False assms have "e1 = None" by (auto simp: applyResources_def split: bool.splits)
  with apply_objects_ok [of k "[]" "rs_desiredObjects st" None st w stop st1 w1] run False assms
  show ?thesis by (auto simp: applyResources_def split: bool.splits)
qed (use assms in \<open>simp add: applyResources_def\<close>)

subsection \<open>What judging shows\<close>

definition judged_healthy :: "componentStatus \<Rightarrow> bool" where
  "judged_healthy cs \<longleftrightarrow> cs_health cs \<and> cs_message cs = ''Component is ready and healthy''"

lemma check_component_name [simp]: "cs_name (fst (fst (check_component k app n cs w))) = cs_name cs"
  by (simp add: check_component_def Let_def split: list.splits prod.splits option.splits)

lemma check_component_ready:
  assumes "check_component k app n cs w = ((cs', ready, requeue, err), w')" "as_components (ad_spec app) \<noteq> []"
  shows "ready \<Longrightarrow> judged_healthy cs'" "ready \<Longrightarrow> \<not> requeue \<and> err = None"
    "\<not> ready \<Longrightarrow> \<not> requeue \<Longrightarrow> err = None \<Longrightarrow>
      \<not> cs_health cs' \<and> (cs_message cs' = ''Resource Info Missing'' \<or> previous_error (cs_message cs'))"
  using assms
  by (auto simp: check_component_def judged_healthy_def Let_def
      split: list.splits prod.splits option.splits if_splits)

text \<open>A component is ready exactly when its resource is found healthy.\<close>

lemma check_component_ready_iff:
  assumes "as_components (ad_spec app) = spec # rest" "n \<in> ac_name ` set (as_components (ad_spec app))"
    and "n \<noteq> []" "ac_kind spec \<noteq> []" "ac_apiVersion spec \<noteq> []" "\<not> previous_error (cs_message cs)"
    and "CheckHealth k (app_namespace app) n (ac_apiVersion spec) (ac_kind spec) w = ((ok, msg, err), w')"
  shows "fst (snd (fst (check_component k app n cs w))) \<longleftrightarrow> ok \<and> err = None"
proof -
  have "find (\<lambda>c. ac_name c = n) (spec # rest) \<noteq> None"
  proof
    assume "find (\<lambda>c. ac_name c = n) (spec # rest) = None"
    then have "\<not> (\<exists>c. c \<in> set (spec # rest) \<and> ac_name c = n)" unfolding find_None_iff .
    with assms(1,2) show False by auto
  qed
  then show ?thesis
    using assms by (auto simp: check_component_def Let_def split: option.splits if_splits)
qed

lemma map_of_update_neq: "n \<noteq> key \<Longrightarrow> map_of (AList.update key v m) n = map_of m n"
  by (simp add: update_conv')

lemma update_keys: "map_of m key = Some v0 \<Longrightarrow> fst ` set (AList.update key v m) = fst ` set m"
  by (metis dom_map_of_conv_image_fst dom_fun_upd domI insert_absorb option.distinct(1) update_conv')

text \<open>One component of the loop, made explicit.\<close>

lemma check_components_Cons:
  assumes "check_components k app (name # names) v m w = ((v', m'), w')" "map_of m name = Some cs"
  obtains cs1 r q e w1 where "check_component k app name cs w = ((cs1, r, q, e), w1)"
    "check_components k app names (combine v (r, q, e)) (AList.update name cs1 m) w1 = ((v', m'), w')"
    "fst ` set (AList.update name cs1 m) = fst ` set m"
    "statuses_ok m \<Longrightarrow> statuses_ok (AList.update name cs1 m)"
proof -
  obtain cs1 r q e w1 where one: "check_component k app name cs w = ((cs1, r, q, e), w1)"
    by (metis surj_pair)
  have "statuses_ok m \<Longrightarrow> statuses_ok (AList.update name cs1 m)"
    using check_component_name [of k app name cs w] one statuses_ok_lookup [OF _ assms(2)]
    by (intro statuses_ok_update) auto
  with that [OF one _ update_keys [OF assms(2)]] assms one show ?thesis by simp
qed

lemma check_components_kept:
  assumes "check_components k app names v m w = ((v', m'), w')"
  shows "fst ` set m' = fst ` set m \<and> (statuses_ok m \<longrightarrow> statuses_ok m') \<and>
    (\<forall>n. n \<notin> set names \<longrightarrow> map_of m' n = map_of m n)"
  using assms
proof (induction names arbitrary: v m w)
  case (Cons name names)
  show ?case
  proof (cases "map_of m name")
    case None
    with Cons show ?thesis by simp
  next
    case (Some cs)
    from check_components_Cons [OF Cons.prems Some] obtain cs1 r q e w1 where
      rest: "check_components k app names (combine v (r, q, e)) (AList.update name cs1 m) w1 = ((v', m'), w')"
      and m: "fst ` set (AList.update name cs1 m) = fst ` set m"
        "statuses_ok m \<Longrightarrow> statuses_ok (AList.update name cs1 m)" by metis
    from Cons.IH [OF rest] m show ?thesis by (simp add: update_conv')
  qed
qed simp

lemma combine_simps [simp]:
  "fst (combine a b) \<longleftrightarrow> fst a \<and> fst b" "fst (snd (combine a b)) \<longleftrightarrow> fst (snd a) \<or> fst (snd b)"
  "snd (snd (combine a b)) = None \<longleftrightarrow> snd (snd a) = None \<and> snd (snd b) = None"
  by (auto simp: combine_def split: option.splits)

lemma check_components_ready:
  assumes "check_components k app names v m w = ((v', m'), w')" "distinct names"
    and "set names \<subseteq> fst ` set m" "as_components (ad_spec app) \<noteq> []"
    and "fst v'"
  shows "fst v \<and> (\<forall>n \<in> set names. \<exists>cs. map_of m' n = Some cs \<and> judged_healthy cs)"
  using assms(1-3)
proof (induction names arbitrary: v m w)
  case (Cons name names)
  from Cons.prems(3) obtain cs where cs: "map_of m name = Some cs"
    using weak_map_of_SomeI by fastforce
  from check_components_Cons [OF Cons.prems(1) cs] obtain cs1 r q e w1 where
    one: "check_component k app name cs w = ((cs1, r, q, e), w1)"
    and rest: "check_components k app names (combine v (r, q, e)) (AList.update name cs1 m) w1 = ((v', m'), w')"
    and keys: "fst ` set (AList.update name cs1 m) = fst ` set m" by metis
  have this_one: "map_of m' name = Some cs1"
    using check_components_kept [OF rest] Cons.prems(2) by (simp add: update_conv')
  have "r \<Longrightarrow> judged_healthy cs1" by (rule check_component_ready(1) [OF one assms(4)])
  with Cons.IH [OF rest] keys Cons.prems(2,3) this_one show ?case by auto
qed (use assms(5) in simp)

lemma check_components_quiet:
  "check_components k app names v m w = ((v', m'), w') \<Longrightarrow> \<not> fst (snd v') \<Longrightarrow> snd (snd v') = None \<Longrightarrow>
    \<not> fst (snd v) \<and> snd (snd v) = None"
proof (induction names arbitrary: v m w)
  case (Cons name names)
  show ?case
  proof (cases "map_of m name")
    case None
    with Cons show ?thesis by simp
  next
    case (Some cs)
    from check_components_Cons [OF Cons.prems(1) Some] obtain cs1 r q e w1 where
      rest: "check_components k app names (combine v (r, q, e)) (AList.update name cs1 m) w1 = ((v', m'), w')"
      by metis
    from Cons.IH [OF rest Cons.prems(2,3)] show ?thesis by simp
  qed
qed simp

text \<open>A component that is not judged: its kind or version is missing, or its message reports an error.\<close>

definition left_out :: "componentStatus \<Rightarrow> bool" where
  "left_out cs \<longleftrightarrow>
     \<not> cs_health cs \<and> (cs_message cs = ''Resource Info Missing'' \<or> previous_error (cs_message cs))"

text \<open>What a check that ends with neither an error nor a requeue says of each component.\<close>

lemma check_components_silent:
  assumes "check_components k app names v m w = ((v', m'), w')" "distinct names"
    and "set names \<subseteq> fst ` set m" "as_components (ad_spec app) \<noteq> []"
    and "\<not> fst (snd v')" "snd (snd v') = None"
  shows "\<forall>n \<in> set names. \<exists>cs. map_of m' n = Some cs \<and> (judged_healthy cs \<or> left_out cs)"
  using assms(1-3)
proof (induction names arbitrary: v m w)
  case (Cons name names)
  from Cons.prems(3) obtain cs where cs: "map_of m name = Some cs"
    using weak_map_of_SomeI by fastforce
  from check_components_Cons [OF Cons.prems(1) cs] obtain cs1 r q e w1 where
    one: "check_component k app name cs w = ((cs1, r, q, e), w1)"
    and rest: "check_components k app names (combine v (r, q, e)) (AList.update name cs1 m) w1 = ((v', m'), w')"
    and keys: "fst ` set (AList.update name cs1 m) = fst ` set m" by metis
  have this_one: "map_of m' name = Some cs1"
    using check_components_kept [OF rest] Cons.prems(2) by (simp add: update_conv')
  have "\<not> q" "e = None" using check_components_quiet [OF rest assms(5,6)] by simp_all
  with check_component_ready(1,3) [OF one assms(4)] have "judged_healthy cs1 \<or> left_out cs1"
    by (cases r) (simp_all add: left_out_def)
  with Cons.IH [OF rest] keys Cons.prems(2,3) this_one show ?case by simp
qed simp

end
