(* ===== verification/Controller.thy ===== *)
theory Controller
  imports Rollout
begin

text \<open>
  \<^verbatim>\<open>Reconcile\<close> of \<^verbatim>\<open>internal/controller/app/applicationdefinition_controller.go\<close> with the two
  handlers that end a run early, and the types the controller watches. A run gives a result, an
  error and the state it ended in, or panics (the left side).
\<close>

record ctrlResult =
  cr_requeue :: bool
  cr_requeueAfter :: nat

definition no_requeue :: ctrlResult where
  "no_requeue = \<lparr>cr_requeue = False, cr_requeueAfter = 0\<rparr>"

definition requeue_now :: ctrlResult where
  "requeue_now = \<lparr>cr_requeue = True, cr_requeueAfter = 0\<rparr>"

definition requeue_in :: "nat \<Rightarrow> ctrlResult" where
  "requeue_in seconds = \<lparr>cr_requeue = False, cr_requeueAfter = seconds\<rparr>"

type_synonym run_end = "(ctrlResult \<times> goerror option) \<times> reconcileState"

subsection \<open>Early ends\<close>

definition collected_kinds :: "string list" where
  "collected_kinds =
     [''Deployment'', ''StatefulSet'', ''Service'', ''PersistentVolumeClaim'', ''ConfigMap'', ''Secret'',
      ''ServiceAccount'']"

text \<open>An error of one kind is logged and the next kind is collected.\<close>

fun collect_kinds :: "'w cluster \<Rightarrow> appDef \<Rightarrow> string list \<Rightarrow> 'w \<Rightarrow> 'w" where
  "collect_kinds k app [] w = w"
| "collect_kinds k app (kind # kinds) w =
     collect_kinds k app kinds
       (snd (kc_delete_all_of k kind (app_namespace app) (AppNameLabel, app_name app) w))"

definition handleEmptyApp :: "'w cluster \<Rightarrow> reconcileState \<Rightarrow> 'w \<Rightarrow> run_end \<times> 'w" where
  "handleEmptyApp k st w =
     (let w1 = collect_kinds k (rs_appDef st) collected_kinds w;
          st1 = update_app (\<lambda>app.
            setCondition k (mk_condition ConditionReady ConditionTrue ''NoComponentsDefined''
                ''Application has no components defined, orphaned resources cleaned up'')
              (with_status (\<lambda>s. s\<lparr>st_components := []\<rparr>) (set_phase ApplicationPhaseRunning app))) st
      in case updateStatusIfNeeded k (rs_appDef st1) (rs_originalStatus st1) w1 of
           (((_, err), app'), w2) \<Rightarrow> (((no_requeue, err), st1\<lparr>rs_appDef := app'\<rparr>), w2))"

definition handleReconcileError ::
    "'w cluster \<Rightarrow> string \<Rightarrow> goerror \<Rightarrow> reconcileState \<Rightarrow> 'w \<Rightarrow> run_end \<times> 'w" where
  "handleReconcileError k reason e st w =
     (let st1 = update_app (\<lambda>app.
            setCondition k (mk_condition ConditionReady ConditionFalse reason (err_msg e))
              (set_phase ApplicationPhaseFailed app)) st;
          st2 = st1\<lparr>rs_componentStatuses := updateComponentStatusesForError (rs_componentStatuses st1) e\<rparr>;
          st3 = update_app (with_status (\<lambda>s. s\<lparr>st_components :=
                  mapToSliceComponentStatus k (rs_componentStatuses st2)\<rparr>)) st2
      in case updateStatusIfNeeded k (rs_appDef st3) (rs_originalStatus st3) w of
           ((_, app'), w') \<Rightarrow>
             (let err = first_error (rs_firstError st3) e
              in (((no_requeue, err), st3\<lparr>rs_appDef := app', rs_firstError := err\<rparr>), w')))"

subsection \<open>The end of a run\<close>

text \<open>Step 7 up to the status update.\<close>

definition completion_event :: "'w cluster \<Rightarrow> bool \<Rightarrow> reconcileState \<Rightarrow> emitted list" where
  "completion_event k allReady st =
     (case rs_firstError st of
        Some e \<Rightarrow>
          recordEventf k (rs_appDef st) ''Reconcile'' StatusFailure ''SyncComponent'' ''Warning''
            ''ReconcileFailed'' (''Reconciliation failed: '' @ err_msg e)
      | None \<Rightarrow>
          if allReady then
            recordEvent k (rs_appDef st) ''Reconcile'' StatusSuccess ''SyncComponent'' ''Normal''
              ''ReconcileCompleted'' ''Reconciliation completed successfully, all components ready''
          else
            recordEvent k (rs_appDef st) ''Reconcile'' StatusInProgress ''SyncComponent'' ''Normal''
              ''ReconcileProgressing'' ''Reconciliation in progress, waiting for components to be ready'')"

definition note_change_id :: "bool \<Rightarrow> reconcileState \<Rightarrow> reconcileState" where
  "note_change_id allReady st =
     (if allReady \<and> rs_firstError st = None then
        (case om_annotations (ad_meta (rs_appDef st)) AnnotationChangeID of
           None \<Rightarrow> st
         | Some changeID \<Rightarrow>
             if changeID \<noteq> [] then update_app (with_status (\<lambda>s. s\<lparr>st_lastChangeID := changeID\<rparr>)) st
             else st)
      else st)"

definition conclude :: "'w cluster \<Rightarrow> bool \<Rightarrow> reconcileState \<Rightarrow> reconcileState" where
  "conclude k allReady st =
     (let st1 = determineFinalPhase k allReady st;
          st2 = update_app (with_status (\<lambda>s. s\<lparr>st_components :=
                  mapToSliceComponentStatus k (rs_componentStatuses st1)\<rparr>)) st1
      in note_change_id allReady (emit (completion_event k allReady st2) st2))"

definition finish_run ::
    "'w cluster \<Rightarrow> bool \<Rightarrow> bool \<Rightarrow> reconcileState \<Rightarrow> 'w \<Rightarrow> run_end \<times> 'w" where
  "finish_run k allReady needsRequeue st w =
     (let st1 = conclude k allReady st in
      case updateStatusIfNeeded k (rs_appDef st1) (rs_originalStatus st1) w of
        (((_, statusUpdateErr), app'), w') \<Rightarrow>
          (let st2 = st1\<lparr>rs_appDef := app',
                 rs_firstError := (case statusUpdateErr of
                     None \<Rightarrow> rs_firstError st1 | Some e \<Rightarrow> first_error (rs_firstError st1) e)\<rparr>;
               requeue = (needsRequeue \<or> statusUpdateErr \<noteq> None);
               interval = (if (case statusUpdateErr of None \<Rightarrow> False | Some e \<Rightarrow> is_conflict e)
                           then 5 else 30)
           in (((if requeue then requeue_in interval else no_requeue, rs_firstError st2), st2), w')))"

text \<open>Steps 5 and 6.\<close>

definition apply_and_judge :: "'w cluster \<Rightarrow> reconcileState \<Rightarrow> 'w \<Rightarrow> ((bool \<times> bool) \<times> reconcileState) \<times> 'w" where
  "apply_and_judge k st w =
     (case applyResources k st w of
        ((applyErr, st1), w1) \<Rightarrow>
          (let st2 = (case applyErr of
                  None \<Rightarrow> st1 | Some e \<Rightarrow> st1\<lparr>rs_firstError := first_error (rs_firstError st1) e\<rparr>)
           in case rs_firstError st2 of
                None \<Rightarrow>
                  (case checkHealthAndCalculateStatus k st2 w1 of
                     (((allReady, needsRequeue, healthCheckErr), st3), w2) \<Rightarrow>
                       (case healthCheckErr of
                          None \<Rightarrow> (((allReady, needsRequeue), st3), w2)
                        | Some e \<Rightarrow>
                            (((allReady, True), st3\<lparr>rs_firstError := first_error (rs_firstError st3) e\<rparr>), w2)))
              | Some e \<Rightarrow>
                  (((False, True),
                    st2\<lparr>rs_componentStatuses := updateComponentStatusesForError (rs_componentStatuses st2) e\<rparr>), w1)))"

text \<open>Steps 4 to 8.\<close>

definition run_components ::
    "'w cluster \<Rightarrow> builder_id registry \<Rightarrow> reconcileState \<Rightarrow> 'w \<Rightarrow> string + run_end \<times> 'w" where
  "run_components k reg st w =
     (case processComponentsAndBuildObjects k reg st of
        (ProcessPanic msg, st1) \<Rightarrow> Inl msg
      | (ProcessFailed e, st1) \<Rightarrow>
          Inr (handleReconcileError k ''ProcessingFailed'' e (st1\<lparr>rs_firstError := Some e\<rparr>) w)
      | (Processed, st1) \<Rightarrow>
          (case apply_and_judge k st1 w of
             (((allReady, needsRequeue), st2), w2) \<Rightarrow> Inr (finish_run k allReady needsRequeue st2 w2)))"

subsection \<open>Reconcile\<close>

text \<open>Step 3.6.\<close>

definition stable_and_running :: "appDef \<Rightarrow> bool" where
  "stable_and_running app \<longleftrightarrow>
     app_phase app = ApplicationPhaseRunning \<and>
     st_observedGeneration (ad_status app) = om_generation (ad_meta app) \<and>
     st_lastChangeID (ad_status app) \<noteq> [] \<and>
     annotation app AnnotationChangeID = st_lastChangeID (ad_status app)"

text \<open>Steps 2 to 8, on a state whose component statuses are initialised.\<close>

definition run_initialised ::
    "'w cluster \<Rightarrow> builder_id registry \<Rightarrow> reconcileState \<Rightarrow> 'w \<Rightarrow> string + run_end \<times> 'w" where
  "run_initialised k reg st w =
     (case handleFinalizer k (rs_appDef st) w of
        (((isDeleted, ferr), app1), w1) \<Rightarrow>
          (let st1 = st\<lparr>rs_appDef := app1\<rparr> in
           if ferr \<noteq> None \<or> isDeleted then Inr (((no_requeue, ferr), st1), w1)
           else case setInitialPhase k st1 w1 of
             (((phaseUpdated, perr), st2), w2) \<Rightarrow>
               if perr \<noteq> None then Inr (((no_requeue, perr), st2), w2)
               else if phaseUpdated then Inr (((requeue_now, None), st2), w2)
               else if is_suspended (rs_appDef st2) \<and> app_phase (rs_appDef st2) = ApplicationPhaseSuspended
               then Inr (((no_requeue, None), st2), w2)
               else if stable_and_running (rs_appDef st2) then Inr (((no_requeue, None), st2), w2)
               else run_components k reg st2 w2))"

definition run_fetched ::
    "'w cluster \<Rightarrow> builder_id registry \<Rightarrow> appDef \<Rightarrow> 'w \<Rightarrow> string + run_end \<times> 'w" where
  "run_fetched k reg app w =
     (let st = fresh_state app in
      case initializeComponentStatuses (as_components (ad_spec app)) (rs_componentStatuses st) of
        (Some e, m) \<Rightarrow>
          Inr (handleReconcileError k ''InitializationFailed'' e (st\<lparr>rs_componentStatuses := m\<rparr>) w)
      | (None, m) \<Rightarrow>
          (let st1 = st\<lparr>rs_componentStatuses := m\<rparr> in
           if as_components (ad_spec app) = [] then Inr (handleEmptyApp k st1 w)
           else run_initialised k reg st1 w))"

text \<open>\<open>watched\<close> is \<^verbatim>\<open>common.Namespace\<close>; a run that reads no application ends without a state.\<close>

definition Reconcile ::
    "'w cluster \<Rightarrow> builder_id registry \<Rightarrow> string \<Rightarrow> nsname \<Rightarrow> 'w
      \<Rightarrow> string + ((ctrlResult \<times> goerror option) \<times> reconcileState option) \<times> 'w" where
  "Reconcile k reg watched req w =
     (if nn_namespace req \<noteq> watched then Inr (((no_requeue, None), None), w)
      else case kc_get_app k req w of
        (Inl e, w1) \<Rightarrow>
          Inr (((no_requeue, if is_not_found e then None else Some e), None), w1)
      | (Inr app, w1) \<Rightarrow>
          (case run_fetched k reg app w1 of
             Inl msg \<Rightarrow> Inl msg
           | Inr ((res, st), w2) \<Rightarrow> Inr ((res, Some st), w2)))"

text \<open>The kinds whose objects wake the controller: those it owns.\<close>

definition owned_types :: "bool \<Rightarrow> (string \<times> string) list" where
  "owned_types isV1Supported =
     [(''apps/v1'', ''Deployment''), (''apps/v1'', ''StatefulSet''), (''v1'', ''Service''),
      (''v1'', ''PersistentVolumeClaim''), (''v1'', ''ConfigMap''), (''v1'', ''Secret''),
      (''v1'', ''ServiceAccount'')]
     @ (if isV1Supported then [(''policy/v1'', ''PodDisruptionBudget'')]
        else [(''policy/v1beta1'', ''PodDisruptionBudget'')])"

end
