(* ===== verification/Runs.thy ===== *)
theory Runs
  imports Controller
begin

text \<open>
  What a run of the controller does, built from the facts of its parts: the status that a run
  leaves, the phase it steps to, the finalizer, and the runs that end early.
\<close>

subsection \<open>The status update\<close>

lemma observe_generation_simps [simp]:
  "ad_meta (observe_generation app) = ad_meta app" "ad_spec (observe_generation app) = ad_spec app"
  "ad_status (observe_generation app) =
     (ad_status app)\<lparr>st_observedGeneration := om_generation (ad_meta app)\<rparr>"
  "app_phase (observe_generation app) = app_phase app"
  by (simp_all add: observe_generation_def app_phase_def)

text \<open>Whatever happens, the object in memory ends with the status wanted, but for the generation.\<close>

definition same_but_generation :: "applicationStatus \<Rightarrow> applicationStatus \<Rightarrow> bool" where
  "same_but_generation s t \<longleftrightarrow> t = s\<lparr>st_observedGeneration := st_observedGeneration t\<rparr>"

lemma same_but_generation_simps [simp]:
  "same_but_generation s s" "same_but_generation s (s\<lparr>st_observedGeneration := g\<rparr>)"
  by (simp_all add: same_but_generation_def)

lemma same_but_generation_fields:
  "same_but_generation s t \<Longrightarrow> st_phase t = st_phase s \<and> st_conditions t = st_conditions s \<and>
    st_components t = st_components s \<and> st_lastChangeID t = st_lastChangeID s \<and>
    st_suspendedReplicas t = st_suspendedReplicas s \<and> st_annotations t = st_annotations s"
  unfolding same_but_generation_def by (metis applicationStatus.select_convs(2-7) applicationStatus.surjective applicationStatus.update_convs(1))

lemma status_loop_status:
  assumes "status_echo k" "status_update_loop k desired n app w = ((res, app'), w')"
    and "same_but_generation desired (ad_status app)"
  shows "same_but_generation desired (ad_status app')"
proof -
  from status_write.loop_cases [where k = k and desired = desired, of n app w] obtain i app1 w1
    where c: "contended (kc_status_update k) (kc_get_app k) (reapply_status desired) i app w app1 w1"
    and e: "ends_with (kc_status_update k) (kc_get_app k) (i = n) app1 w1 ((res, app'), w')"
    using assms(2) by auto
  from contended_prepared [OF c] assms(3) have "same_but_generation desired (ad_status app1)"
    by (auto simp: reapply_status_def)
  moreover have "app' = app1 \<or> ad_status app' = ad_status app1"
    using e assms(1) by (cases res) (auto simp: ends_with_def status_echo_def)
  ultimately show ?thesis by auto
qed

lemma updateStatusIfNeeded_status:
  assumes "status_echo k" "updateStatusIfNeeded k app orig w = ((res, app'), w')"
  shows "same_but_generation (ad_status app) (ad_status app')"
proof (cases "status_unchanged (ad_status (observe_generation app)) orig")
  case True
  with assms(2) show ?thesis by (auto simp: updateStatusIfNeeded_def Let_def)
next
  case False
  let ?app = "observe_generation app"
  obtain r a w1 where run: "status_update_loop k (ad_status ?app) max_attempts ?app w = ((r, a), w1)"
    by (metis surj_pair)
  with False assms(2) have "app' = a"
    by (auto simp: updateStatusIfNeeded_def Let_def split: retryResult.splits)
  with status_loop_status [OF assms(1) run] show ?thesis by (simp add: same_but_generation_def)
qed

lemma updateStatusIfNeeded_no_conflict:
  assumes "get_never_conflicts k" "updateStatusIfNeeded k app orig w = (((b, Some e), app'), w')"
  shows "\<not> is_conflict e"
proof -
  let ?app = "observe_generation app"
  obtain r a w1 where run: "status_update_loop k (ad_status ?app) max_attempts ?app w = ((r, a), w1)"
    by (metis surj_pair)
  have fetch: "kc_get_app k key w = (Inl e, w') \<Longrightarrow> \<not> is_conflict e" for key w e w'
    using assms(1) unfolding get_never_conflicts_def by blast
  show ?thesis
    using assms(2) run status_write.stopped_no_conflict [OF _ fetch, of k "ad_status ?app" max_attempts ?app w]
    by (auto simp: updateStatusIfNeeded_def Let_def status_attempts_error_def
        split: if_splits retryResult.splits)
qed

text \<open>Nothing is written when the five compared parts are unchanged, and only then.\<close>

lemma updateStatusIfNeeded_unchanged:
  "status_unchanged (ad_status (observe_generation app)) orig \<Longrightarrow>
    updateStatusIfNeeded k app orig w = (((False, None), observe_generation app), w)"
  by (simp add: updateStatusIfNeeded_def Let_def)

lemma updateStatusIfNeeded_written:
  assumes "updateStatusIfNeeded k app orig w = (((True, err), app'), w')"
  shows "\<exists>app1 w1. kc_status_update k app1 w1 = (Inr app', w') \<and>
    same_but_generation (ad_status app) (ad_status app1) \<and>
    st_observedGeneration (ad_status app1) = om_generation (ad_meta app1)"
proof -
  let ?app = "observe_generation app"
  let ?Q = "\<lambda>a. same_but_generation (ad_status app) (ad_status a) \<and>
    st_observedGeneration (ad_status a) = om_generation (ad_meta a)"
  from assms have run: "status_update_loop k (ad_status ?app) max_attempts ?app w = ((Written, app'), w')"
    by (auto simp: updateStatusIfNeeded_def Let_def split: if_splits prod.splits retryResult.splits)
  have "\<exists>app1 w1. ?Q app1 \<and> kc_status_update k app1 w1 = (Inr app', w')"
    by (rule status_write.written_prepared [OF run]) (simp_all add: reapply_status_def same_but_generation_def)
  then show ?thesis by blast
qed

subsection \<open>The end of a run\<close>

lemma note_change_id_simps [simp]:
  "app_phase (rs_appDef (note_change_id r st)) = app_phase (rs_appDef st)"
  "st_conditions (ad_status (rs_appDef (note_change_id r st))) = st_conditions (ad_status (rs_appDef st))"
  "rs_firstError (note_change_id r st) = rs_firstError st"
  "rs_componentStatuses (note_change_id r st) = rs_componentStatuses st"
  "rs_originalStatus (note_change_id r st) = rs_originalStatus st"
  "st_components (ad_status (rs_appDef (note_change_id r st))) = st_components (ad_status (rs_appDef st))"
  by (auto simp: note_change_id_def app_phase_def split: option.splits)

lemma app_phase_components [simp]:
  "app_phase (with_status (\<lambda>s. s\<lparr>st_components := x\<rparr>) a) = app_phase a"
  by (simp add: app_phase_def)

lemma conclude_simps:
  "app_phase (rs_appDef (conclude k r st)) =
     next_phase (app_phase (rs_appDef st)) (outcome_of (rs_firstError st) r)"
  "rs_firstError (conclude k r st) = rs_firstError st"
  "rs_componentStatuses (conclude k r st) = rs_componentStatuses st"
  "st_components (ad_status (rs_appDef (conclude k r st))) =
     mapToSliceComponentStatus k (rs_componentStatuses st)"
  "st_conditions (ad_status (rs_appDef (conclude k r st))) =
     st_conditions (ad_status (rs_appDef (determineFinalPhase k r st)))"
proof -
  show "app_phase (rs_appDef (conclude k r st)) =
     next_phase (app_phase (rs_appDef st)) (outcome_of (rs_firstError st) r)"
    by (simp add: conclude_def Let_def determineFinalPhase_phase)
qed (simp_all add: conclude_def Let_def)

lemma finish_run_status:
  assumes "status_echo k" "finish_run k r q st w = ((res, st'), w')"
  shows "same_but_generation (ad_status (rs_appDef (conclude k r st))) (ad_status (rs_appDef st'))"
  using assms(2) updateStatusIfNeeded_status [OF assms(1)]
  by (auto simp: finish_run_def Let_def split: prod.splits)

lemma finish_run_phase:
  assumes "status_echo k" "finish_run k r q st w = ((res, st'), w')"
  shows "app_phase (rs_appDef st') =
    next_phase (app_phase (rs_appDef st)) (outcome_of (rs_firstError st) r)"
  using same_but_generation_fields [OF finish_run_status [OF assms]] conclude_simps(1) [of k r st]
  by (simp add: app_phase_def)

lemma finish_run_statuses:
  "finish_run k r q st w = ((res, st'), w') \<Longrightarrow> rs_componentStatuses st' = rs_componentStatuses st"
  by (auto simp: finish_run_def Let_def conclude_simps split: prod.splits)

text \<open>The status that a run ends with lists the component statuses it computed.\<close>

lemma finish_run_components:
  assumes "status_echo k" "range_law k" "statuses_ok (rs_componentStatuses st)"
    and "finish_run k r q st w = ((res, st'), w')"
  shows "set (st_components (ad_status (rs_appDef st'))) = snd ` set (rs_componentStatuses st)"
  using same_but_generation_fields [OF finish_run_status [OF assms(1,4)]]
  by (simp add: conclude_simps slice_props [OF assms(3,2)])

text \<open>The result: an error is reported, and a requeue asked for, whenever something is left to do.\<close>

lemma finish_run_result:
  assumes "finish_run k r q st w = (((res, err), st'), w')"
  shows "err = None \<Longrightarrow> rs_firstError st = None" "q \<Longrightarrow> cr_requeueAfter res > 0"
  using assms
  by (auto simp: finish_run_def Let_def conclude_simps requeue_in_def split: prod.splits option.splits)

lemma handleReconcileError_phase:
  assumes "status_echo k" "handleReconcileError k reason e st w = ((res, st'), w')"
  shows "app_phase (rs_appDef st') = ApplicationPhaseFailed"
proof -
  let ?app = "with_status (\<lambda>s. s\<lparr>st_components := mapToSliceComponentStatus k
      (updateComponentStatusesForError (rs_componentStatuses st) e)\<rparr>)
    (setCondition k (mk_condition ConditionReady ConditionFalse reason (err_msg e))
      (set_phase ApplicationPhaseFailed (rs_appDef st)))"
  obtain b app' w1 where u: "updateStatusIfNeeded k ?app (rs_originalStatus st) w = ((b, app'), w1)"
    by (metis surj_pair)
  with assms(2) have "rs_appDef st' = app'"
    by (auto simp: handleReconcileError_def Let_def split: prod.splits)
  moreover have "app_phase ?app = ApplicationPhaseFailed"
    by (simp add: app_phase_def setCondition_def)
  ultimately show ?thesis
    using same_but_generation_fields [OF updateStatusIfNeeded_status [OF assms(1) u]]
    by (simp add: app_phase_def)
qed

lemma handleReconcileError_result:
  "handleReconcileError k reason e st w = (((res, err), st'), w') \<Longrightarrow>
    err = first_error (rs_firstError st) e"
  by (auto simp: handleReconcileError_def Let_def split: prod.splits)

subsection \<open>The phase of a run\<close>

lemma processComponents_phase:
  assumes "processComponentsAndBuildObjects k reg st = (Processed, st')"
  shows "app_phase (rs_appDef st') =
    (if is_suspended (rs_appDef st) then ApplicationPhaseSuspended
     else if app_phase (rs_appDef st) = ApplicationPhaseSuspended then ApplicationPhaseUpdateing
     else app_phase (rs_appDef st))"
proof -
  from assms obtain st1 where
    run: "process_components k reg (as_components (ad_spec (rs_appDef st))) (st\<lparr>rs_desiredObjects := []\<rparr>) = (Processed, st1)"
    and pr: "handlePauseResume st1 = (None, st')"
    by (auto simp: processComponentsAndBuildObjects_def split: prod.splits processResult.splits option.splits)
  from process_components_carried [OF run] have same: "same_but_annotations (rs_appDef st) (rs_appDef st1)"
    by (simp add: carried_def)
  from pr have "app_phase (rs_appDef st') =
    (if is_suspended (rs_appDef st1) then ApplicationPhaseSuspended
     else if app_phase (rs_appDef st1) = ApplicationPhaseSuspended then ApplicationPhaseUpdateing
     else app_phase (rs_appDef st1))"
    by (auto simp: handlePauseResume_def Let_def split: prod.splits) (auto simp: app_phase_def)
  with same_but_annotations_frame(3,4) [OF same] show ?thesis by simp
qed

lemma processComponents_error:
  assumes "processComponentsAndBuildObjects k reg st = (Processed, st')"
  shows "rs_firstError st' = rs_firstError st"
proof -
  from assms obtain st1 where
    run: "process_components k reg (as_components (ad_spec (rs_appDef st))) (st\<lparr>rs_desiredObjects := []\<rparr>) = (Processed, st1)"
    and pr: "handlePauseResume st1 = (None, st')"
    by (auto simp: processComponentsAndBuildObjects_def split: prod.splits processResult.splits option.splits)
  from pr have "rs_firstError st' = rs_firstError st1"
    by (auto simp: handlePauseResume_def Let_def split: prod.splits)
  with process_components_carried [OF run] show ?thesis by (simp add: carried_def)
qed

lemma apply_and_judge_app:
  assumes "apply_and_judge k st w = ((v, st'), w')"
  shows "rs_appDef st' = rs_appDef st"
  using assms
  by (auto simp: apply_and_judge_def checkHealthAndCalculateStatus_def Let_def kept_def
      split: prod.splits option.splits dest!: applyResources_kept)

lemma processed_phase_step:
  assumes "processComponentsAndBuildObjects k reg st = (Processed, st1)"
    and "app_phase (rs_appDef st) \<notin> {ApplicationPhaseUnset, ApplicationPhasePending}"
  shows "phase_step (app_phase (rs_appDef st)) (next_phase (app_phase (rs_appDef st1)) out)"
proof (cases "is_suspended (rs_appDef st)")
  case True
  with processComponents_phase [OF assms(1)] show ?thesis by (simp add: phase_step.suspend)
next
  case False
  with processComponents_phase [OF assms(1)] assms(2) show ?thesis
    by (cases "app_phase (rs_appDef st) = ApplicationPhaseSuspended")
      (auto intro: phase_step.resume phase_step.cycle)
qed

lemma run_components_phase_step:
  assumes "status_echo k" "run_components k reg st w = Inr ((res, st'), w')"
    and "app_phase (rs_appDef st) \<notin> {ApplicationPhaseUnset, ApplicationPhasePending}"
  shows "phase_step (app_phase (rs_appDef st)) (app_phase (rs_appDef st'))"
proof -
  obtain r st1 where p: "processComponentsAndBuildObjects k reg st = (r, st1)" by fastforce
  show ?thesis
  proof (cases r)
    case (ProcessFailed e)
    with assms(2) p have "handleReconcileError k ''ProcessingFailed'' e (st1\<lparr>rs_firstError := Some e\<rparr>) w = ((res, st'), w')"
      by (simp add: run_components_def)
    from handleReconcileError_phase [OF assms(1) this] show ?thesis by (simp add: phase_step.failed)
  next
    case Processed
    obtain ready q st2 w2 where j: "apply_and_judge k st1 w = (((ready, q), st2), w2)" by (metis surj_pair)
    with assms(2) p Processed have f: "finish_run k ready q st2 w2 = ((res, st'), w')"
      by (simp add: run_components_def)
    from finish_run_phase [OF assms(1) f] apply_and_judge_app [OF j]
      processed_phase_step [OF p [unfolded Processed] assms(3)]
    show ?thesis by simp
  qed (use assms(2) p in \<open>simp add: run_components_def\<close>)
qed

text \<open>The initial phase, written or not, is the creating one.\<close>

lemma setInitialPhase_phase:
  assumes "status_echo k" "setInitialPhase k st w = (((updated, err), st'), w')"
  shows "app_phase (rs_appDef st) \<in> {ApplicationPhaseUnset, ApplicationPhasePending} \<and>
      app_phase (rs_appDef st') = ApplicationPhaseCreating \<and> (updated \<or> err \<noteq> None) \<or>
    app_phase (rs_appDef st) \<notin> {ApplicationPhaseUnset, ApplicationPhasePending} \<and>
      st' = st \<and> \<not> updated \<and> err = None \<and> w' = w"
proof (cases "app_phase (rs_appDef st) \<in> {ApplicationPhaseUnset, ApplicationPhasePending}")
  case True
  let ?app = "start_processing k (rs_appDef st)"
  have creating: "app_phase (start_processing k a) = ApplicationPhaseCreating" for a
    by (simp add: start_processing_def)
  obtain r a w1 where run: "initial_phase_loop k max_attempts ?app w = ((r, a), w1)" by (metis surj_pair)
  from initial_phase.loop_cases [where k = k, of max_attempts ?app w] run obtain i app1 w2
    where c: "contended (kc_status_update k) (kc_get_app k) (start_processing k) i ?app w app1 w2"
    and e: "ends_with (kc_status_update k) (kc_get_app k) (i = max_attempts) app1 w2 ((r, a), w1)" by auto
  from contended_prepared [OF c] creating have "app_phase app1 = ApplicationPhaseCreating" by auto
  moreover have "a = app1 \<or> ad_status a = ad_status app1"
    using e assms(1) by (cases r) (auto simp: ends_with_def status_echo_def)
  ultimately have "app_phase a = ApplicationPhaseCreating" by (auto simp: app_phase_def)
  with True run assms(2) show ?thesis
    by (cases r) (auto simp: setInitialPhase_def Let_def)
next
  case False
  with assms(2) show ?thesis by (simp add: setInitialPhase_def Let_def)
qed


text \<open>A run from the finalizer on, with the object the finalizer step leaves.\<close>

lemma run_initialised_phase_step:
  assumes "status_echo k" "run_initialised k reg st w = Inr ((res, st'), w')"
    and "handleFinalizer k (rs_appDef st) w = ((out, app1), w1)"
  shows "phase_step (app_phase app1) (app_phase (rs_appDef st'))"
proof -
  obtain del ferr where out: "out = (del, ferr)" by fastforce
  show ?thesis
  proof (cases "ferr \<noteq> None \<or> del")
    case True
    with assms(2,3) out have "rs_appDef st' = app1" by (auto simp: run_initialised_def)
    then show ?thesis by (simp add: phase_step.stay)
  next
    case go: False
    obtain up perr st2 w2 where i: "setInitialPhase k (st\<lparr>rs_appDef := app1\<rparr>) w1 = (((up, perr), st2), w2)"
      by (metis surj_pair)
    note ph = setInitialPhase_phase [OF assms(1) i]
    show ?thesis
    proof (cases "app_phase app1 \<in> {ApplicationPhaseUnset, ApplicationPhasePending}")
      case True
      with ph have early: "up \<or> perr \<noteq> None" and c: "app_phase (rs_appDef st2) = ApplicationPhaseCreating"
        by auto
      from early assms(2,3) out go i have "st' = st2"
        by (auto simp: run_initialised_def Let_def split: if_splits)
      with True c show ?thesis by (simp add: phase_step.initial)
    next
      case False
      with ph have same: "st2 = st\<lparr>rs_appDef := app1\<rparr>" "\<not> up" "perr = None" by auto
      with assms(2,3) out go i have "st' = st2 \<or> run_components k reg st2 w2 = Inr ((res, st'), w')"
        by (auto simp: run_initialised_def Let_def split: if_splits)
      then show ?thesis
        using run_components_phase_step [OF assms(1), of reg st2 w2 res st' w'] False same(1)
        by (auto intro: phase_step.stay)
    qed
  qed
qed

subsection \<open>The finalizer\<close>

lemma add_finalizer_has:
  "finalizer_law k \<Longrightarrow> has_finalizer k (add_finalizer k app)"
  "finalizer_law k \<Longrightarrow> \<not> has_finalizer k (remove_finalizer k app)"
  by (simp_all add: finalizer_law_def has_finalizer_def add_finalizer_def remove_finalizer_def)

lemma handleFinalizer_live:
  assumes "finalizer_law k" "om_deletionTimestamp (ad_meta app) = None"
    and "handleFinalizer k app w = (((del, None), app'), w')"
  shows "\<not> del \<and> (has_finalizer k app \<and> app' = app \<and> w' = w \<or>
    (\<exists>app1 w1. has_finalizer k app1 \<and> kc_update_app k app1 w1 = (Inr app', w')))"
proof (cases "has_finalizer k app")
  case True
  with assms show ?thesis by (simp add: handleFinalizer_def)
next
  case False
  obtain r a w1 where run: "add_finalizer_loop k max_attempts (add_finalizer k app) w = ((r, a), w1)"
    by (metis surj_pair)
  with False assms have "r = Written" "a = app'" "w1 = w'" "\<not> del"
    by (auto simp: handleFinalizer_def split: retryResult.splits)
  with run finalizer_adding.written_prepared [of k max_attempts "add_finalizer k app" w app' w' "has_finalizer k"]
    add_finalizer_has(1) [OF assms(1)] show ?thesis by auto
qed

text \<open>
  The deletion of claims as a chain of calls from one state of the API to the next: each claim was deleted
  or was already gone.
\<close>

inductive claims_deleted :: "'w cluster \<Rightarrow> nsname list \<Rightarrow> 'w \<Rightarrow> 'w \<Rightarrow> bool" for k where
  none: "claims_deleted k [] w w"
| gone: "kc_delete_pvc k pvc w = (r, w1) \<Longrightarrow> \<forall>e. r = Some e \<longrightarrow> is_not_found e \<Longrightarrow>
    claims_deleted k pvcs w1 w' \<Longrightarrow> claims_deleted k (pvc # pvcs) w w'"

inductive_simps claims_deleted_simps [simp]:
  "claims_deleted k [] w w'" "claims_deleted k (pvc # pvcs) w w'"

lemma delete_pvcs_chain: "delete_pvcs k pvcs w = (None, w') \<longleftrightarrow> claims_deleted k pvcs w w'"
proof (induction pvcs arbitrary: w)
  case (Cons pvc pvcs)
  obtain r w1 where "kc_delete_pvc k pvc w = (r, w1)" by fastforce
  with Cons show ?case by (cases r) auto
qed auto

lemma delete_pvcs_error:
  "delete_pvcs k pvcs w = (Some e, w') \<Longrightarrow> \<not> is_not_found e"
  by (induction pvcs arbitrary: w) (auto split: prod.splits option.splits if_splits)

lemma handleFinalizer_deleting:
  assumes "om_deletionTimestamp (ad_meta app) \<noteq> None" "has_finalizer k app"
    and "handleFinalizer k app w = (((del, None), app'), w')"
  shows "del \<and> (\<exists>w1. cleanup_pvcs k app w = (None, w1) \<and>
    (\<exists>r. remove_finalizer_loop k max_attempts (remove_finalizer k app) w1 = ((r, app'), w') \<and>
      (r = Written \<or> r = Exhausted)))"
  using assms
  by (auto simp: handleFinalizer_def split: prod.splits option.splits retryResult.splits)

text \<open>
  The finalizer of the application as the API stores it (\<open>stored\<close>) goes only by an accepted update of the
  application: neither a refused one nor reading it, nor listing and deleting claims, takes it off. Other
  clients leave it alone.
\<close>

definition finalizer_stays :: "'w cluster \<Rightarrow> ('w \<Rightarrow> appDef) \<Rightarrow> bool" where
  "finalizer_stays k stored \<longleftrightarrow>
     (\<forall>w. has_finalizer k (stored w) \<longrightarrow>
       (\<forall>app e w'. kc_update_app k app w = (Inl e, w') \<longrightarrow> has_finalizer k (stored w')) \<and>
       (\<forall>key. has_finalizer k (stored (snd (kc_get_app k key w)))) \<and>
       (\<forall>ns l. has_finalizer k (stored (snd (kc_list_pvcs k ns l w)))) \<and>
       (\<forall>pvc. has_finalizer k (stored (snd (kc_delete_pvc k pvc w)))))"

lemma finalizer_staysD:
  assumes "finalizer_stays k stored" "has_finalizer k (stored w)"
  shows "kc_update_app k app w = (Inl e, w') \<Longrightarrow> has_finalizer k (stored w')"
    "kc_get_app k key w = (r, w') \<Longrightarrow> has_finalizer k (stored w')"
    "kc_list_pvcs k ns l w = (ls, w') \<Longrightarrow> has_finalizer k (stored w')"
    "kc_delete_pvc k pvc w = (d, w') \<Longrightarrow> has_finalizer k (stored w')"
  using assms unfolding finalizer_stays_def by (metis snd_conv)+

lemma cleanup_finalizer_stays:
  assumes "finalizer_stays k stored" "has_finalizer k (stored w)" "cleanup_pvcs k app w = (r, w')"
  shows "has_finalizer k (stored w')"
proof -
  have del: "delete_pvcs k pvcs v = (e, v') \<Longrightarrow> has_finalizer k (stored v) \<Longrightarrow> has_finalizer k (stored v')"
    for pvcs v e v'
  proof (induction pvcs arbitrary: v)
    case (Cons pvc pvcs)
    obtain d v1 where d: "kc_delete_pvc k pvc v = (d, v1)" by fastforce
    with finalizer_staysD(4) [OF assms(1) Cons.prems(2) d] Cons show ?case by (cases d) (auto split: if_splits)
  qed simp
  obtain ls w1 where ls: "kc_list_pvcs k (app_namespace app) (AppNameLabel, app_name app) w = (ls, w1)" by fastforce
  with finalizer_staysD(3) [OF assms(1,2) ls] assms(3) del show ?thesis
    by (cases ls) (auto simp: cleanup_pvcs_def)
qed

lemma contended_finalizer_stays:
  assumes "contended (kc_update_app k) (kc_get_app k) prepare n app w app' w'"
    and "finalizer_stays k stored" "has_finalizer k (stored w)"
  shows "has_finalizer k (stored w')"
  using assms(1,3)
proof (induction rule: contended.induct)
  case (more app w e w1 fresh w2 n app' w')
  from finalizer_staysD(1) [OF assms(2) more.prems more.hyps(1)] more.hyps(3)
  have "has_finalizer k (stored w2)" by (rule finalizer_staysD(2) [OF assms(2)])
  then show ?case by (rule more.IH)
qed

subsection \<open>Ready runs\<close>

lemma processComponents_statuses:
  assumes "processComponentsAndBuildObjects k reg st = (Processed, st')"
  shows "map fst (rs_componentStatuses st') = map fst (rs_componentStatuses st)"
    "statuses_ok (rs_componentStatuses st) \<Longrightarrow> statuses_ok (rs_componentStatuses st')"
    "ad_spec (rs_appDef st') = ad_spec (rs_appDef st)"
    "ad_meta (rs_appDef st') = ad_meta (rs_appDef st)"
proof -
  from assms obtain st1 where
    run: "process_components k reg (as_components (ad_spec (rs_appDef st))) (st\<lparr>rs_desiredObjects := []\<rparr>) = (Processed, st1)"
    and pr: "handlePauseResume st1 = (None, st')"
    by (auto simp: processComponentsAndBuildObjects_def split: prod.splits processResult.splits option.splits)
  from pr have p: "rs_componentStatuses st' = rs_componentStatuses st1"
    "ad_spec (rs_appDef st') = ad_spec (rs_appDef st1)" "ad_meta (rs_appDef st') = ad_meta (rs_appDef st1)"
    by (auto simp: handlePauseResume_def Let_def split: prod.splits)
  from process_components_carried [OF run] p
  show "map fst (rs_componentStatuses st') = map fst (rs_componentStatuses st)"
    "statuses_ok (rs_componentStatuses st) \<Longrightarrow> statuses_ok (rs_componentStatuses st')"
    "ad_spec (rs_appDef st') = ad_spec (rs_appDef st)"
    "ad_meta (rs_appDef st') = ad_meta (rs_appDef st)"
    by (simp_all add: carried_def same_but_annotations_def)
qed

lemma range_names:
  assumes "range_law k" "statuses_ok m"
  shows "distinct (lib_range k (map fst m))" "set (lib_range k (map fst m)) = fst ` set m"
  using assms permutes_distinct [of "lib_range k"] permutes_set [of "lib_range k"]
  by (auto simp: range_law_def statuses_ok_def amap_ok_def)

text \<open>The entries that the health check leaves are those of the names it was given.\<close>

lemma checkHealth_run:
  assumes "checkHealthAndCalculateStatus k st w = ((v, st'), w')" "range_law k"
    and "statuses_ok (rs_componentStatuses st)"
  obtains names where
    "check_components k (rs_appDef st) names (True, False, None) (rs_componentStatuses st) w =
      ((v, rs_componentStatuses st'), w')"
    "distinct names" "set names = fst ` set (rs_componentStatuses st)"
    "\<And>n cs. (n, cs) \<in> set (rs_componentStatuses st') \<Longrightarrow>
      n \<in> set names \<and> map_of (rs_componentStatuses st') n = Some cs"
proof -
  let ?m = "rs_componentStatuses st"
  note r = range_names [OF assms(2,3)]
  from assms(1) have run: "check_components k (rs_appDef st) (lib_range k (map fst ?m)) (True, False, None) ?m w =
      ((v, rs_componentStatuses st'), w')"
    by (auto simp: checkHealthAndCalculateStatus_def split: prod.splits)
  note kept = check_components_kept [OF run]
  have "n \<in> fst ` set ?m \<and> map_of (rs_componentStatuses st') n = Some cs"
    if "(n, cs) \<in> set (rs_componentStatuses st')" for n cs
  proof
    show "n \<in> fst ` set ?m" using that kept by (metis fst_conv image_eqI)
    show "map_of (rs_componentStatuses st') n = Some cs"
      using that kept assms(3) by (simp add: statuses_ok_def amap_ok_def map_of_eq_Some_iff)
  qed
  with that [OF run r] r(2) show thesis by simp
qed

lemma checkHealth_ready:
  assumes "checkHealthAndCalculateStatus k st w = (((True, q, e), st'), w')" "range_law k"
    and "statuses_ok (rs_componentStatuses st)" "as_components (ad_spec (rs_appDef st)) \<noteq> []"
  shows "\<forall>(n, cs) \<in> set (rs_componentStatuses st'). judged_healthy cs"
proof (rule checkHealth_run [OF assms(1-3)])
  fix names
  assume run: "check_components k (rs_appDef st) names (True, False, None) (rs_componentStatuses st) w =
      (((True, q, e), rs_componentStatuses st'), w')"
    and names: "distinct names" "set names = fst ` set (rs_componentStatuses st)"
    and all: "\<And>n cs. (n, cs) \<in> set (rs_componentStatuses st') \<Longrightarrow>
      n \<in> set names \<and> map_of (rs_componentStatuses st') n = Some cs"
  from check_components_ready [OF run names(1) _ assms(4)] names(2)
  have "\<forall>n \<in> set names. \<exists>cs. map_of (rs_componentStatuses st') n = Some cs \<and> judged_healthy cs" by simp
  with all show ?thesis by fastforce
qed

lemma checkHealth_silent:
  assumes "checkHealthAndCalculateStatus k st w = (((ready, False, None), st'), w')" "range_law k"
    and "statuses_ok (rs_componentStatuses st)" "as_components (ad_spec (rs_appDef st)) \<noteq> []"
  shows "\<forall>(n, cs) \<in> set (rs_componentStatuses st'). judged_healthy cs \<or> left_out cs"
proof (rule checkHealth_run [OF assms(1-3)])
  fix names
  assume run: "check_components k (rs_appDef st) names (True, False, None) (rs_componentStatuses st) w =
      (((ready, False, None), rs_componentStatuses st'), w')"
    and names: "distinct names" "set names = fst ` set (rs_componentStatuses st)"
    and all: "\<And>n cs. (n, cs) \<in> set (rs_componentStatuses st') \<Longrightarrow>
      n \<in> set names \<and> map_of (rs_componentStatuses st') n = Some cs"
  from check_components_silent [OF run names(1) _ assms(4)] names(2)
  have "\<forall>n \<in> set names. \<exists>cs. map_of (rs_componentStatuses st') n = Some cs \<and> (judged_healthy cs \<or> left_out cs)"
    by simp
  with all show ?thesis by fastforce
qed

text \<open>
  Steps 5 and 6 taken apart: when they end without an error the objects were applied without one, and
  the verdict is that of the health check.
\<close>

lemma apply_and_judge_ok:
  assumes "apply_and_judge k st w = (((ready, q), st'), w')" "rs_firstError st' = None"
  obtains st1 w1 where "applyResources k st w = ((None, st1), w1)"
    "checkHealthAndCalculateStatus k st1 w1 = (((ready, q, None), st'), w')"
    "rs_desiredObjects st' = rs_desiredObjects st1" "rs_applyResults st' = rs_applyResults st1"
proof -
  obtain ae st1 w1 where a: "applyResources k st w = ((ae, st1), w1)" by (metis surj_pair)
  have fe: "ae = None \<and> rs_firstError st1 = None"
    using assms(1,2) a
    by (cases ae; cases "rs_firstError st1")
      (auto simp: apply_and_judge_def checkHealthAndCalculateStatus_def Let_def
        split: prod.splits option.splits)
  obtain rd rq he st2 w2 where c: "checkHealthAndCalculateStatus k st1 w1 = (((rd, rq, he), st2), w2)"
    by (metis surj_pair)
  have "he = None"
    using assms a fe c by (cases he) (auto simp: apply_and_judge_def Let_def)
  with assms(1) a fe c have "rd = ready" "rq = q" "st2 = st'" "w2 = w'"
    by (auto simp: apply_and_judge_def Let_def)
  with a fe c \<open>he = None\<close> show thesis
    by (intro that [of st1 w1]) (auto simp: checkHealthAndCalculateStatus_def split: prod.splits)
qed

text \<open>The entries of the status a run ends with, when the objects were applied without an error.\<close>

lemma judged_entries:
  assumes "status_echo k" "range_law k" "statuses_ok (rs_componentStatuses st)"
    and p: "processComponentsAndBuildObjects k reg st = (Processed, st1)"
    and a: "applyResources k st1 w = ((None, st3), w3)"
    and c: "checkHealthAndCalculateStatus k st3 w3 = ((v, st2), w2)"
    and f: "finish_run k ready q st2 w2 = ((res, st'), w')"
  shows "statuses_ok (rs_componentStatuses st3)"
    "as_components (ad_spec (rs_appDef st3)) = as_components (ad_spec (rs_appDef st))"
    "set (st_components (ad_status (rs_appDef st'))) = snd ` set (rs_componentStatuses st2)"
    "ac_name ` set (as_components (ad_spec (rs_appDef st)))
      \<subseteq> cs_name ` set (st_components (ad_status (rs_appDef st')))"
proof -
  note kept = applyResources_kept [OF a] and ps = processComponents_statuses [OF p]
  show ok: "statuses_ok (rs_componentStatuses st3)"
    and "as_components (ad_spec (rs_appDef st3)) = as_components (ad_spec (rs_appDef st))"
    using kept ps assms(3) by (simp_all add: kept_def)
  from c obtain names where run: "check_components k (rs_appDef st3) names (True, False, None)
      (rs_componentStatuses st3) w3 = ((v, rs_componentStatuses st2), w2)"
    by (auto simp: checkHealthAndCalculateStatus_def split: prod.splits)
  note judged = check_components_kept [OF run]
  with ok have ok2: "statuses_ok (rs_componentStatuses st2)" by simp
  show listed: "set (st_components (ad_status (rs_appDef st'))) = snd ` set (rs_componentStatuses st2)"
    by (rule finish_run_components [OF assms(1,2) ok2 f])
  have "cs_name ` snd ` set (rs_componentStatuses st2) = fst ` set (rs_componentStatuses st2)"
    using ok2 by (force simp: statuses_ok_def image_image intro!: image_cong)
  moreover have "fst ` set (rs_componentStatuses st2) = fst ` set (rs_componentStatuses st1)"
    using judged kept by (simp add: kept_def)
  ultimately show "ac_name ` set (as_components (ad_spec (rs_appDef st)))
      \<subseteq> cs_name ` set (st_components (ad_status (rs_appDef st')))"
    using processed_names [OF p] listed by simp
qed

text \<open>A run that reports no error, taken apart.\<close>

lemma run_components_ok:
  assumes "run_components k reg st w = Inr (((res, None), st'), w')"
  obtains st1 ready q st2 w2 where "processComponentsAndBuildObjects k reg st = (Processed, st1)"
    "apply_and_judge k st1 w = (((ready, q), st2), w2)" "rs_firstError st2 = None"
    "finish_run k ready q st2 w2 = (((res, None), st'), w')"
proof -
  obtain r st1 where p: "processComponentsAndBuildObjects k reg st = (r, st1)" by fastforce
  obtain v st2 w2 where j: "apply_and_judge k st1 w = ((v, st2), w2)" by (metis surj_pair)
  obtain ready q where v: "v = (ready, q)" by fastforce
  have "r = Processed"
    using assms p handleReconcileError_result
    by (cases r) (fastforce simp: run_components_def)+
  with assms p j v have f: "finish_run k ready q st2 w2 = (((res, None), st'), w')"
    by (simp add: run_components_def)
  with finish_run_result(1) [OF f] p j v \<open>r = Processed\<close> that show thesis by simp
qed

lemma conclude_objects:
  "rs_desiredObjects (conclude k r st) = rs_desiredObjects st"
  "rs_applyResults (conclude k r st) = rs_applyResults st"
proof -
  have "rs_applyResults (determineFinalPhase k r st) = rs_applyResults st" for r
    by (simp add: determineFinalPhase_def Let_def split: option.splits)
  then show "rs_desiredObjects (conclude k r st) = rs_desiredObjects st"
    "rs_applyResults (conclude k r st) = rs_applyResults st"
    by (simp_all add: conclude_def note_change_id_def Let_def split: option.splits)
qed

lemma finish_run_objects:
  "finish_run k r q st w = ((res, st'), w') \<Longrightarrow>
    rs_desiredObjects st' = rs_desiredObjects st \<and> rs_applyResults st' = rs_applyResults st"
  by (auto simp: finish_run_def conclude_objects Let_def split: prod.splits)

subsection \<open>Runs that do not panic, runs that do nothing\<close>

lemma handleFinalizer_present:
  "om_deletionTimestamp (ad_meta app) = None \<Longrightarrow> has_finalizer k app \<Longrightarrow>
    handleFinalizer k app w = (((False, None), app), w)"
  by (simp add: handleFinalizer_def)

lemma run_components_no_panic:
  assumes "ac_name ` set (as_components (ad_spec (rs_appDef st))) \<subseteq> fst ` set (rs_componentStatuses st)"
  shows "run_components k reg st w \<noteq> Inl msg"
proof -
  obtain r st1 where run: "process_components k reg (as_components (ad_spec (rs_appDef st)))
      (st\<lparr>rs_desiredObjects := []\<rparr>) = (r, st1)" by fastforce
  with process_components_no_panic [of "as_components (ad_spec (rs_appDef st))" "st\<lparr>rs_desiredObjects := []\<rparr>" k reg]
    assms have "r \<noteq> ProcessPanic m" for m by auto
  with run show ?thesis
    by (cases r) (auto simp: run_components_def processComponentsAndBuildObjects_def
        split: prod.splits processResult.splits option.splits)
qed

lemma setInitialPhase_spec:
  assumes "setInitialPhase k st w = (((False, None), st'), w')"
  shows "st' = st"
  using assms by (auto simp: setInitialPhase_def Let_def split: if_splits prod.splits retryResult.splits)

lemma run_initialised_no_panic:
  assumes "ac_name ` set (as_components (ad_spec (rs_appDef st))) \<subseteq> fst ` set (rs_componentStatuses st)"
    and "handleFinalizer k (rs_appDef st) w = ((out, app1), w1)" "ad_spec app1 = ad_spec (rs_appDef st)"
  shows "run_initialised k reg st w \<noteq> Inl msg"
proof -
  obtain del ferr where out: "out = (del, ferr)" by fastforce
  obtain up perr st2 w2 where i: "setInitialPhase k (st\<lparr>rs_appDef := app1\<rparr>) w1 = (((up, perr), st2), w2)"
    by (metis surj_pair)
  have "run_components k reg st2 w2 \<noteq> Inl msg" if "\<not> up" "perr = None"
    using setInitialPhase_spec [of k "st\<lparr>rs_appDef := app1\<rparr>" w1 st2 w2] that i assms(1,3)
    by (intro run_components_no_panic) simp
  with assms(2) out i show ?thesis by (auto simp: run_initialised_def Let_def)
qed

end
