(* ===== verification/Examples.thy ===== *)
theory Examples
  imports Runs
begin

text \<open>
  A small cluster on which runs of the controller can be evaluated: one stored application, a number
  of conflicts to come, and the edit that a conflicting writer makes. Its workload is ready, and the
  properties of a component unmarshal into the example configuration.
\<close>

record fakeWorld =
  fw_app :: appDef
  fw_conflicts :: nat
  fw_edit :: appDef

definition conflicting :: "fakeWorld \<Rightarrow> fakeWorld" where
  "conflicting w = w\<lparr>fw_conflicts := fw_conflicts w - 1, fw_app := fw_edit w\<rparr>"

definition store :: "appDef \<Rightarrow> fakeWorld \<Rightarrow> (goerror + appDef) \<times> fakeWorld" where
  "store app w =
     (if fw_conflicts w > 0 then (Inl conflict_error, conflicting w) else (Inr app, w\<lparr>fw_app := app\<rparr>))"

definition ready_workload :: kobject where
  "ready_workload =
     \<lparr>ko_apiVersion = ''apps/v1'', ko_kind = ''StatefulSet'',
      ko_meta = empty_meta\<lparr>om_name := ''web'', om_namespace := ''default'', om_generation := 1\<rparr>,
      ko_body = StatefulSet (example_sts_spec 3 0) (example_sts_status 3 3 3)\<rparr>"

definition example_cluster :: "fakeWorld cluster" where
  "example_cluster = bare_cluster
     \<lparr>kc_get_app := \<lambda>key w. (Inr (fw_app w), w),
      kc_update_app := store,
      kc_status_update := store,
      kc_get_unstructured := \<lambda>g key w. (Inr [], w),
      lib_from_unstructured := \<lambda>u g. Inr ready_workload,
      lib_unmarshal := \<lambda>properties. Inr example_config\<rparr>"

lemma example_laws:
  "finalizer_law example_cluster" "status_echo example_cluster" "range_law example_cluster"
  "get_never_conflicts example_cluster" "condition_law example_cluster"
  using bare_laws bare_condition_law
  by (auto simp: example_cluster_def finalizer_law_def status_echo_def range_law_def store_def
      get_never_conflicts_def condition_law_def split: if_splits)

definition example_registry :: "builder_id registry" where
  "example_registry = [''operator'' \<mapsto> RuntimeBuilderStrategy]"

definition managed_app :: "applicationPhase \<Rightarrow> bool option \<Rightarrow> appDef" where
  "managed_app phase suspend =
     example_app
     \<lparr>ad_meta := (ad_meta example_app)\<lparr>om_finalizers := [appDefFinalizer]\<rparr>,
      ad_spec := (ad_spec example_app)\<lparr>as_suspend := suspend\<rparr>,
      ad_status := empty_status\<lparr>st_phase := phase\<rparr>\<rparr>"

text \<open>The application after its deletion was asked for.\<close>

definition deleted_app :: appDef where
  "deleted_app = (managed_app ApplicationPhaseRunning None)
     \<lparr>ad_meta := (ad_meta (managed_app ApplicationPhaseRunning None))\<lparr>om_deletionTimestamp := Some ''now''\<rparr>\<rparr>"

definition example_world :: "appDef \<Rightarrow> nat \<Rightarrow> appDef \<Rightarrow> fakeWorld" where
  "example_world app n edit = \<lparr>fw_app = app, fw_conflicts = n, fw_edit = edit\<rparr>"

definition example_state :: "appDef \<Rightarrow> reconcileState" where
  "example_state app =
     (fresh_state app)\<lparr>rs_componentStatuses := [(''web'', initial_status ''web'')]\<rparr>"

definition quiet_world :: "appDef \<Rightarrow> fakeWorld" where
  "quiet_world app = example_world app 0 app"

subsection \<open>A run of the example\<close>

text \<open>The parts of a run are evaluated one by one.\<close>

abbreviation example_start :: reconcileState where
  "example_start \<equiv> example_state (managed_app ApplicationPhaseCreating None)"

abbreviation example_rest :: fakeWorld where
  "example_rest \<equiv> quiet_world (managed_app ApplicationPhaseCreating None)"

lemma example_processed:
  obtains st where "processComponentsAndBuildObjects example_cluster example_registry example_start = (Processed, st)"
    "app_phase (rs_appDef st) = ApplicationPhaseCreating" "rs_firstError st = None"
proof -
  let ?st = "snd (processComponentsAndBuildObjects example_cluster example_registry example_start)"
  have "fst (processComponentsAndBuildObjects example_cluster example_registry example_start) = Processed"
    by code_simp
  then have run: "processComponentsAndBuildObjects example_cluster example_registry example_start = (Processed, ?st)"
    by (metis prod.collapse)
  have "app_phase (rs_appDef ?st) = ApplicationPhaseCreating"
    using processComponents_phase [OF run]
    by (simp add: example_state_def fresh_state_def managed_app_def is_suspended_def app_phase_def)
  moreover have "rs_firstError ?st = None"
    using processComponents_error [OF run] by (simp add: example_state_def fresh_state_def)
  ultimately show thesis by (rule that [OF run])
qed

lemma example_judged:
  obtains st1 st2 w2 where
    "processComponentsAndBuildObjects example_cluster example_registry example_start = (Processed, st1)"
    "apply_and_judge example_cluster st1 example_rest = (((True, False), st2), w2)"
    "rs_firstError st2 = None" "fw_conflicts w2 = 0" "app_phase (rs_appDef st2) = ApplicationPhaseCreating"
proof -
  let ?j = "\<lambda>st. apply_and_judge example_cluster st example_rest"
  have eval: "case ?j (snd (processComponentsAndBuildObjects example_cluster example_registry example_start)) of
      ((v, st), w) \<Rightarrow> v = (True, False) \<and> rs_firstError st = None \<and> fw_conflicts w = 0"
    by code_simp
  obtain st1 where st1: "processComponentsAndBuildObjects example_cluster example_registry example_start = (Processed, st1)"
    "app_phase (rs_appDef st1) = ApplicationPhaseCreating" by (rule example_processed)
  obtain v st2 w2 where j: "?j st1 = ((v, st2), w2)" by (metis surj_pair)
  from eval st1(1) j have "v = (True, False)" "rs_firstError st2 = None" "fw_conflicts w2 = 0" by simp_all
  with that [OF st1(1), of st2 w2] j apply_and_judge_app [OF j] st1(2) show thesis by simp
qed

text \<open>A world without conflicts accepts the status.\<close>

lemma quiet_status_update:
  assumes "fw_conflicts w = 0"
  shows "snd (fst (fst (updateStatusIfNeeded example_cluster app orig w))) = None"
proof -
  let ?app = "observe_generation app"
  have "status_update_loop example_cluster (ad_status ?app) (Suc 2) ?app w =
      ((Written, ?app), w\<lparr>fw_app := ?app\<rparr>)"
    by (rule status_write.loop_written) (use assms in \<open>simp add: example_cluster_def store_def\<close>)
  then show ?thesis by (simp add: updateStatusIfNeeded_def Let_def max_attempts_def eval_nat_numeral)
qed

lemma example_run:
  obtains st' w' where
    "run_components example_cluster example_registry example_start example_rest = Inr (((no_requeue, None), st'), w')"
    "app_phase (rs_appDef st') = ApplicationPhaseRunning"
proof -
  obtain st1 st2 w2 where p: "processComponentsAndBuildObjects example_cluster example_registry example_start = (Processed, st1)"
    and j: "apply_and_judge example_cluster st1 example_rest = (((True, False), st2), w2)"
    and ok: "rs_firstError st2 = None" "fw_conflicts w2 = 0" "app_phase (rs_appDef st2) = ApplicationPhaseCreating"
    by (rule example_judged)
  obtain res st' w' where f: "finish_run example_cluster True False st2 w2 = ((res, st'), w')" by (metis surj_pair)
  let ?c = "conclude example_cluster True st2"
  obtain b e app' w3 where u: "updateStatusIfNeeded example_cluster (rs_appDef ?c) (rs_originalStatus ?c) w2 =
      (((b, e), app'), w3)" by (metis surj_pair)
  with quiet_status_update [OF ok(2), of "rs_appDef ?c" "rs_originalStatus ?c"] have "e = None" by simp
  with f u ok(1) have "res = (no_requeue, None)"
    by (simp add: finish_run_def Let_def conclude_simps)
  moreover have "app_phase (rs_appDef st') = ApplicationPhaseRunning"
    using finish_run_phase [OF example_laws(2) f] ok by (simp add: outcome_of_def)
  moreover have "run_components example_cluster example_registry example_start example_rest = Inr ((res, st'), w')"
    using p j f by (simp add: run_components_def)
  ultimately show thesis using that by simp
qed

end
