(* ===== verification/Convergence.thy ===== *)
theory Convergence
  imports Examples
begin

text \<open>
  Where the controller leads when the cluster cooperates: an accepted application on a cluster that
  accepts every write, keeps what is created and rolls its workloads out becomes Running within a number of
  runs that depends on how long the workloads take, no run fails, and it stays Running. What the cluster
  promises is about the calls of the API; that the health check finds the workloads that were applied, and
  judges them healthy when they are rolled out, is proved of the code.
\<close>

subsection \<open>Objects that can be applied, messages that do not stop a check\<close>

definition identified :: "kobject \<Rightarrow> bool" where
  "identified obj \<longleftrightarrow>
     named_object obj \<and> ko_kind obj \<noteq> [] \<and> ko_apiVersion obj \<in> {''v1'', ''apps/v1''}"

lemma identified_complete: "gvk_law k \<Longrightarrow> identified obj \<Longrightarrow> \<not> missing_identity k obj"
  by (auto simp: identified_def missing_identity_def object_gvk_def gvk_law_def named_object_def)

lemma identified_labels [simp]: "identified (apply_labels app c obj) = identified obj"
  by (simp add: identified_def named_object_def)

lemma identified_same:
  "get_name a = get_name b \<Longrightarrow> get_namespace a = get_namespace b \<Longrightarrow> ko_kind a = ko_kind b \<Longrightarrow>
    ko_apiVersion a = ko_apiVersion b \<Longrightarrow> identified a = identified b"
  by (simp add: identified_def named_object_def)

definition fine :: "status_map \<Rightarrow> bool" where
  "fine m \<longleftrightarrow> (\<forall>cs \<in> snd ` set m. \<not> previous_error (cs_message cs))"

lemma fine_map_entry:
  "fine m \<Longrightarrow> (\<And>cs. \<not> previous_error (cs_message cs) \<Longrightarrow> \<not> previous_error (cs_message (f cs))) \<Longrightarrow>
    fine (AList.map_entry n f m)"
  by (induction m) (auto simp: fine_def)

lemma fine_lookup: "fine m \<Longrightarrow> map_of m n = Some cs \<Longrightarrow> \<not> previous_error (cs_message cs)"
  by (auto simp: fine_def dest!: map_of_SomeD)

lemma quiet_messages [simp]:
  "\<not> previous_error ''Initializing''" "\<not> previous_error ''Processing''" "\<not> previous_error ''Built successfully''"
  "\<not> previous_error ''Applied successfully, awaiting health check''"
  by code_simp+

definition applicable :: "reconcileState \<Rightarrow> bool" where
  "applicable st \<longleftrightarrow> fine (rs_componentStatuses st) \<and> (\<forall>obj \<in> set (rs_desiredObjects st). identified obj)"

subsection \<open>Processing an accepted application\<close>

context builder_strategy
begin

lemma accepted_identified:
  assumes "accepts c cfg" "app_namespace app \<noteq> []" "build app c cfg = (Inr objs, app')" "obj \<in> set objs"
  shows "identified obj"
  using build_well_named [OF assms(1,3,4)] assms(2)
  by (simp add: well_named_def identified_def named_object_def)

end

lemma fine_set_message:
  "\<not> previous_error msg \<Longrightarrow> fine (rs_componentStatuses st) \<Longrightarrow> fine (rs_componentStatuses (set_message n msg st))"
  by (simp add: set_message_def set_component_def fine_map_entry)

lemma process_objects_fine:
  "process_objects k c objs st = (None, st') \<Longrightarrow> fine (rs_componentStatuses st) \<Longrightarrow>
    fine (rs_componentStatuses st')"
proof (induction objs arbitrary: st)
  case (Cons obj objs)
  let ?obj = "apply_labels (rs_appDef st) c obj"
  let ?st = "set_component (ac_name c) (note_primary k ?obj)
    (st\<lparr>rs_desiredObjects := rs_desiredObjects st @ [?obj]\<rparr>)"
  from Cons.prems(1) have "process_objects k c objs ?st = (None, st')"
    by (simp add: Let_def split: if_splits)
  moreover have "fine (rs_componentStatuses ?st)"
    using Cons.prems(2) by (simp add: set_component_def fine_map_entry note_primary_def Let_def)
  ultimately show ?case by (rule Cons.IH)
qed simp

lemma process_component_applicable:
  assumes "process_component k reg c st = (Processed, st')" "component_accepted k c"
    and "GetAppBuilderStrategy reg ''operator'' = Some RuntimeBuilderStrategy"
    and "app_namespace (rs_appDef st) \<noteq> []" "applicable st"
  shows "applicable st'"
proof -
  let ?c = "c\<lparr>ac_type := ''operator''\<rparr>" and ?s1 = "set_message (ac_name c) ''Processing'' st"
  from assms(1,3) obtain cfg objs app s4 where
    u: "UnmarshalAppSpecificConfig k ''operator'' (ac_properties c) = Inr cfg"
    and b: "BuildObjects HashConfigMap (lib_now k) (rs_appDef st) c cfg = (Inr objs, app)"
    and p: "process_objects k ?c objs (?s1\<lparr>rs_unmarshalledConfigs :=
        (rs_unmarshalledConfigs ?s1)(ac_name c \<mapsto> cfg), rs_appDef := app\<rparr>) = (None, s4)"
    and st': "st' = set_message (ac_name c) ''Built successfully'' s4"
    by (auto simp: process_component_def Let_def
        split: if_splits option.splits sum.splits prod.splits)
  from assms(2) u have acc: "runtime_accepts c cfg" by (simp add: component_accepted_def)
  have "fine (rs_componentStatuses s4)"
    by (rule process_objects_fine [OF p]) (use assms(5) in \<open>simp add: applicable_def fine_set_message\<close>)
  moreover have "identified obj" if "obj \<in> set objs" for obj
    by (rule runtime_strategy.accepted_identified [OF acc assms(4) b that])
  ultimately show ?thesis
    using assms(5) process_objects_desired [OF p]
    by (auto simp: applicable_def st' fine_set_message)
qed

lemma process_components_applicable:
  assumes "process_components k reg cs st = (Processed, st')" "\<forall>c \<in> set cs. component_accepted k c"
    and "GetAppBuilderStrategy reg ''operator'' = Some RuntimeBuilderStrategy"
    and "app_namespace (rs_appDef st) \<noteq> []" "applicable st"
  shows "applicable st'"
  using assms(1,2,4,5)
proof (induction cs arbitrary: st)
  case (Cons c cs)
  from Cons.prems(1) obtain st1 where one: "process_component k reg c st = (Processed, st1)"
    and rest: "process_components k reg cs st1 = (Processed, st')"
    by (auto split: prod.splits processResult.splits)
  have "app_namespace (rs_appDef st1) = app_namespace (rs_appDef st)"
    using process_component_carried [OF one] same_but_annotations_frame(1) by (simp add: carried_def)
  with Cons.prems process_component_applicable [OF one _ assms(3)] show ?case
    by (intro Cons.IH [OF rest]) auto
qed simp

lemma same_maps_entry:
  "map f xs = map f ys \<and> map g xs = map g ys \<and> map h xs = map h ys \<Longrightarrow> x \<in> set xs \<Longrightarrow>
    \<exists>y \<in> set ys. f x = f y \<and> g x = g y \<and> h x = h y"
proof (induction xs arbitrary: ys)
  case (Cons a xs)
  then show ?case by (cases ys) auto
qed simp

lemma handlePauseResume_applicable:
  assumes "handlePauseResume st = (None, st')" "applicable st"
  shows "applicable st'"
proof -
  from assms(1) obtain m where loop: "pause_resume_loop (is_suspended (rs_appDef st)) (rs_desiredObjects st)
      (st_suspendedReplicas (ad_status (rs_appDef st))) = (rs_desiredObjects st', m)"
    and s: "rs_componentStatuses st' = rs_componentStatuses st"
    by (auto simp: handlePauseResume_def Let_def split: prod.splits)
  have "\<forall>obj \<in> set (rs_desiredObjects st'). identified obj"
  proof
    fix obj
    assume "obj \<in> set (rs_desiredObjects st')"
    with same_maps_entry [of ko_meta _ _ ko_kind ko_apiVersion] pause_resume_loop_frame [OF loop]
    obtain obj0 where "obj0 \<in> set (rs_desiredObjects st)" "ko_meta obj = ko_meta obj0"
      "ko_kind obj = ko_kind obj0" "ko_apiVersion obj = ko_apiVersion obj0" by metis
    moreover from this have "identified obj = identified obj0"
      by (intro identified_same) (simp_all add: object_defs)
    ultimately show "identified obj" using assms(2) by (simp add: applicable_def)
  qed
  with s assms(2) show ?thesis by (simp add: applicable_def)
qed

text \<open>What identifies an object for the API server: its kind, and its namespace and name.\<close>

definition object_id :: "'w cluster \<Rightarrow> kobject \<Rightarrow> gvk \<times> nsname" where
  "object_id k obj = (object_gvk k obj, object_key obj)"

lemma object_id_same:
  "get_name a = get_name b \<Longrightarrow> get_namespace a = get_namespace b \<Longrightarrow> ko_kind a = ko_kind b \<Longrightarrow>
    ko_apiVersion a = ko_apiVersion b \<Longrightarrow> object_id k a = object_id k b"
  by (simp add: object_id_def object_gvk_def object_key_def)

text \<open>The workload of every component is among the objects to apply.\<close>

definition workload_id :: "'w cluster \<Rightarrow> appDef \<Rightarrow> string \<Rightarrow> gvk \<times> nsname" where
  "workload_id k app name = (workloadGVK k, NsName (app_namespace app) name)"

lemma built_has_workload:
  assumes "BuildObjects hash now a c cfg = (Inr raw, a')"
  obtains obj where "obj \<in> set raw" "ko_apiVersion obj = ''apps/v1''" "ko_kind obj = ''StatefulSet''"
    "get_name obj = DeriveResourceName (ac_name c)" "get_namespace obj = app_namespace a"
proof -
  from assms obtain rc where cfg: "cfg = Some rc" and v: "verifyParameters (Some rc) c = None"
    by (auto simp: BuildObjects_def split: option.splits)
  show thesis
  proof (rule BuildObjects_valid [OF v, of a hash now])
    fix ct vct
    assume "BuildObjects hash now a c (Some rc) =
      (Inr (component_objects hash now a c rc ct vct), record_hash hash rc (ac_name c) a)"
    with assms cfg have raw: "raw = component_objects hash now a c rc ct vct" by simp
    let ?cl = "BuildCommonLabels (app_name a) (ac_type c) (ac_name c)"
      and ?sl = "BuildSelectorLabels (ac_name c) (ac_type c)"
    let ?w = "build_workload rc (ac_name c) (app_namespace a) ?cl ?sl (template_of rc (ac_name c) ct ?cl ?sl
        (if config_changed hash rc (ac_name c) a then [restart_key \<mapsto> now] else Map.empty)) [vct]"
    have "?w \<in> set raw" unfolding raw component_objects_def Let_def by simp
    then show thesis by (rule that) simp_all
  qed
qed

lemma processed_workloads:
  assumes "processComponentsAndBuildObjects k reg st = (Processed, st')"
    and "GetAppBuilderStrategy reg ''operator'' = Some RuntimeBuilderStrategy"
    and "c \<in> set (as_components (ad_spec (rs_appDef st)))"
  shows "workload_id k (rs_appDef st) (DeriveResourceName (ac_name c)) \<in> object_id k ` set (rs_desiredObjects st')"
proof -
  from processed_built [OF assms(1)] assms(3) obtain objss objs where
    all: "rs_desiredObjects st' = concat objss" "objs \<in> set objss" and b: "built_by k reg (rs_appDef st) c objs"
    by (metis list_all2_conv_all_nth in_set_conv_nth)
  from b assms(2) obtain cfg a raw a' where same: "same_but_annotations (rs_appDef st) a"
    and built: "BuildObjects HashConfigMap (lib_now k) a c cfg = (Inr raw, a')"
    and copies: "list_all2 (labelled_copy (rs_appDef st) c) raw objs"
    unfolding built_by_def by auto
  obtain obj where obj: "obj \<in> set raw" "ko_apiVersion obj = ''apps/v1''" "ko_kind obj = ''StatefulSet''"
    "get_name obj = DeriveResourceName (ac_name c)" "get_namespace obj = app_namespace a"
    by (rule built_has_workload [OF built])
  from obj(1) copies obtain obj' where obj': "obj' \<in> set objs" "labelled_copy (rs_appDef st) c obj obj'"
    by (metis list_all2_conv_all_nth in_set_conv_nth)
  then have "object_id k obj' = workload_id k (rs_appDef st) (DeriveResourceName (ac_name c))"
    using obj same_but_annotations_frame(1) [OF same]
    by (simp add: labelled_copy_def object_id_def workload_id_def object_gvk_def workloadGVK_def StatefulSetType_def
        object_key_def)
  with all obj'(1) show ?thesis by force
qed

subsection \<open>A cluster that cooperates\<close>

text \<open>
  \<open>stored\<close> is the application in the API server, \<open>present\<close> the objects that are there, and \<open>delay\<close> bounds how
  many reads of a workload may still find it unready. Reads find the application, writes of it are stored
  and echoed, and no other call fails or changes it. An object that is created is there from then on. A
  StatefulSet that is there is read as one, with a replica count and a partition that are not negative;
  it is rolled out when the delay is over, and until then every read shortens the delay. Nothing is said
  of the reads of objects that are not there.
\<close>

definition quiet_call :: "('w \<Rightarrow> appDef) \<Rightarrow> ('w \<Rightarrow> nat) \<Rightarrow> ('w \<Rightarrow> (gvk \<times> nsname) set) \<Rightarrow> 'w \<Rightarrow> 'w \<Rightarrow> bool" where
  "quiet_call stored delay present w w' \<longleftrightarrow>
     stored w' = stored w \<and> delay w' \<le> delay w \<and> present w \<subseteq> present w'"

definition cooperative_writes :: "'w cluster \<Rightarrow> ('w \<Rightarrow> appDef) \<Rightarrow> ('w \<Rightarrow> nat) \<Rightarrow> bool" where
  "cooperative_writes k stored delay \<longleftrightarrow>
     (\<forall>w. kc_get_app k (app_key (stored w)) w = (Inr (stored w), w)) \<and>
     (\<forall>app w. ad_spec app = ad_spec (stored w) \<and> ad_status app = ad_status (stored w) \<longrightarrow>
        (\<exists>w'. kc_update_app k app w = (Inr app, w') \<and> stored w' = app \<and> delay w' \<le> delay w)) \<and>
     (\<forall>app w. ad_spec app = ad_spec (stored w) \<and> ad_meta app = ad_meta (stored w) \<longrightarrow>
        (\<exists>w'. kc_status_update k app w = (Inr app, w') \<and> stored w' = app \<and> delay w' \<le> delay w))"

definition cooperative_objects ::
    "'w cluster \<Rightarrow> ('w \<Rightarrow> appDef) \<Rightarrow> ('w \<Rightarrow> nat) \<Rightarrow> ('w \<Rightarrow> (gvk \<times> nsname) set) \<Rightarrow> bool" where
  "cooperative_objects k stored delay present \<longleftrightarrow>
     (\<forall>key w. \<exists>r w'. kc_get_service k key w = (r, w') \<and> quiet_call stored delay present w w' \<and>
        (\<forall>e. r = Inl e \<longrightarrow> is_not_found e)) \<and>
     (\<forall>obj w. \<exists>b w'. kc_create_if_not_exist k obj w = (Inr b, w') \<and> quiet_call stored delay present w w' \<and>
        object_id k obj \<in> present w') \<and>
     (\<forall>obj w. \<exists>b w'. kc_reconcile_resource k obj w = (Inr b, w') \<and> quiet_call stored delay present w w') \<and>
     (\<forall>app obj. \<exists>obj'. lib_set_controller_ref k app obj = Inr obj')"

definition sensible_counts :: "statefulSetSpec \<Rightarrow> bool" where
  "sensible_counts spec \<longleftrightarrow>
     0 \<le> sint (value_or (sts_replicas spec) 1) \<and> (\<forall>p. rollout_partition spec = Some p \<longrightarrow> 0 \<le> sint p)"

definition cooperative_reads ::
    "'w cluster \<Rightarrow> ('w \<Rightarrow> appDef) \<Rightarrow> ('w \<Rightarrow> nat) \<Rightarrow> ('w \<Rightarrow> (gvk \<times> nsname) set) \<Rightarrow> bool" where
  "cooperative_reads k stored delay present \<longleftrightarrow>
     lib_scheme_new k (workloadGVK k) = None \<and>
     (\<forall>key w. (workloadGVK k, key) \<in> present w \<longrightarrow>
        (\<exists>u w' obj spec status. kc_get_unstructured k (workloadGVK k) key w = (Inr u, w') \<and>
           quiet_call stored delay present w w' \<and> lib_from_unstructured k u (workloadGVK k) = Inr obj \<and>
           ko_body obj = StatefulSet spec status \<and> sensible_counts spec \<and>
           (if delay w = 0 then statefulset_ready (ko_meta obj) spec status else delay w' < delay w)))"

definition cooperative ::
    "'w cluster \<Rightarrow> ('w \<Rightarrow> appDef) \<Rightarrow> ('w \<Rightarrow> nat) \<Rightarrow> ('w \<Rightarrow> (gvk \<times> nsname) set) \<Rightarrow> bool" where
  "cooperative k stored delay present \<longleftrightarrow>
     cooperative_writes k stored delay \<and> cooperative_objects k stored delay present \<and>
     cooperative_reads k stored delay present \<and> owner_ref_law k \<and> gvk_law k \<and> finalizer_law k \<and> range_law k"

lemma quiet_call_refl [simp]: "quiet_call stored delay present w w"
  by (simp add: quiet_call_def)

lemma quiet_call_trans:
  "quiet_call stored delay present a b \<Longrightarrow> quiet_call stored delay present b c \<Longrightarrow> quiet_call stored delay present a c"
  by (auto simp: quiet_call_def)

lemma cooperative_laws:
  assumes "cooperative k stored delay present"
  shows "cooperative_writes k stored delay" "cooperative_objects k stored delay present"
    "cooperative_reads k stored delay present" "owner_ref_law k" "gvk_law k" "finalizer_law k" "range_law k"
  using assms by (simp_all add: cooperative_def)

subsection \<open>Applying on a cooperative cluster\<close>

lemma preserve_cluster_ip_coop:
  assumes "cooperative_objects k stored delay present" "identified obj"
  obtains obj' w' where "preserve_cluster_ip k obj w = (Inr obj', w')" "identified obj'"
    "quiet_call stored delay present w w'" "object_id k obj' = object_id k obj"
proof -
  obtain r w1 where get: "kc_get_service k (object_key obj) w = (r, w1)" "quiet_call stored delay present w w1"
    "\<forall>e. r = Inl e \<longrightarrow> is_not_found e"
    using assms(1) unfolding cooperative_objects_def by blast
  have body: "identified (obj\<lparr>ko_body := b\<rparr>)" "object_id k (obj\<lparr>ko_body := b\<rparr>) = object_id k obj" for b
    using assms(2) by (simp_all add: identified_def named_object_def object_id_def object_gvk_def object_defs)
  have "\<exists>obj' w'. preserve_cluster_ip k obj w = (Inr obj', w') \<and> identified obj' \<and>
      quiet_call stored delay present w w' \<and> object_id k obj' = object_id k obj"
    using get body assms(2)
    by (cases "ko_body obj"; cases r) (auto simp: preserve_cluster_ip_def)
  with that show thesis by blast
qed

lemma reconcile_attempts_coop:
  assumes "cooperative_objects k stored delay present"
  obtains w' where "reconcile_attempts k obj (Suc n) w = (None, w')" "quiet_call stored delay present w w'"
proof -
  from assms obtain b w' where "kc_reconcile_resource k obj w = (Inr b, w')" "quiet_call stored delay present w w'"
    unfolding cooperative_objects_def by blast
  with that show thesis by simp
qed

lemma ApplyObjectV2_coop:
  assumes "cooperative k stored delay present" "identified obj"
  obtains r w' where "ApplyObjectV2 k obj fm w = (r, w')" "ar_error r = None" "quiet_call stored delay present w w'"
    "object_id k obj \<in> present w'"
proof -
  note obj = cooperative_laws(2) [OF assms(1)]
  have complete: "\<not> missing_identity k obj"
    by (rule identified_complete [OF cooperative_laws(5) [OF assms(1)] assms(2)])
  obtain b w1 where c: "kc_create_if_not_exist k obj w = (Inr b, w1)" "quiet_call stored delay present w w1"
    "object_id k obj \<in> present w1"
    using obj unfolding cooperative_objects_def by blast
  obtain w2 where r: "reconcile_attempts k obj (Suc 2) w1 = (None, w2)" "quiet_call stored delay present w1 w2"
    by (rule reconcile_attempts_coop [OF obj])
  have there: "object_id k obj \<in> present w2" using c(3) r(2) by (auto simp: quiet_call_def)
  have "max_retries = Suc 2" by (simp add: max_retries_def)
  with c r complete there quiet_call_trans [OF c(2) r(2)] that show thesis
    by (cases b) (auto simp: ApplyObjectV2_def)
qed

lemma apply_object_coop:
  assumes "cooperative k stored delay present" "identified obj"
  obtains obj' st' w' where "apply_object k obj None st w = (((False, None), obj', st'), w')"
    "quiet_call stored delay present w w'" "rs_componentStatuses st' = rs_componentStatuses st"
    "object_id k obj \<in> present w'"
proof -
  obtain obj1 w1 where p: "preserve_cluster_ip k obj w = (Inr obj1, w1)" "identified obj1" "quiet_call stored delay present w w1"
    "object_id k obj1 = object_id k obj"
    by (rule preserve_cluster_ip_coop [OF cooperative_laws(2) [OF assms(1)] assms(2)])
  obtain obj2 where o2: "lib_set_controller_ref k (rs_appDef st) obj1 = Inr obj2"
    using cooperative_laws(2) [OF assms(1)] unfolding cooperative_objects_def by blast
  note frame = owner_ref_law_frame [OF cooperative_laws(4) [OF assms(1)] o2]
  have "identified obj2 = identified obj1" "object_id k obj2 = object_id k obj1"
    by (rule identified_same object_id_same; use frame in simp)+
  with p(2,4) obtain r w2 where a: "ApplyObjectV2 k obj2 OperatorName w1 = (r, w2)" "ar_error r = None"
    "quiet_call stored delay present w1 w2" "object_id k obj \<in> present w2"
    using ApplyObjectV2_coop [OF assms(1)] by metis
  with p o2 quiet_call_trans [OF p(3) a(3)] that show thesis
    by (auto simp: apply_object_def settle_result_def put_apply_result_def Let_def)
qed

lemma apply_objects_coop:
  assumes "cooperative k stored delay present"
  shows "\<forall>obj \<in> set todo. identified obj \<Longrightarrow>
    \<exists>st' w'. apply_objects k done todo None st w = (((False, None), st'), w') \<and>
      quiet_call stored delay present w w' \<and> rs_componentStatuses st' = rs_componentStatuses st \<and>
      object_id k ` set todo \<subseteq> present w'"
proof (induction todo arbitrary: "done" st w)
  case (Cons obj todo)
  then obtain obj1 st1 w1 where one: "apply_object k obj None st w = (((False, None), obj1, st1), w1)"
    "quiet_call stored delay present w w1" "rs_componentStatuses st1 = rs_componentStatuses st"
    "object_id k obj \<in> present w1"
    using apply_object_coop [OF assms] by (metis list.set_intros(1))
  from Cons.IH [of "done @ [obj1]" st1 w1] Cons.prems obtain st2 w2 where
    "apply_objects k (done @ [obj1]) todo None st1 w1 = (((False, None), st2), w2)"
    "quiet_call stored delay present w1 w2" "rs_componentStatuses st2 = rs_componentStatuses st1"
    "object_id k ` set todo \<subseteq> present w2" by auto
  moreover from this(2) one(4) have "object_id k obj \<in> present w2" by (auto simp: quiet_call_def)
  moreover have "quiet_call stored delay present w w2" by (rule quiet_call_trans [OF one(2)]) fact
  ultimately show ?case using one(1,3) by simp
qed simp

lemma fine_apply_results: "fine m \<Longrightarrow> fine (updateComponentStatusesFromApplyResults k m objs results)"
  by (induction m) (auto simp: fine_def updateComponentStatusesFromApplyResults_def split: if_split_asm)

lemma applyResources_coop:
  assumes "cooperative k stored delay present" "applicable st"
  obtains st' w' where "applyResources k st w = ((None, st'), w')" "quiet_call stored delay present w w'"
    "fine (rs_componentStatuses st')" "object_id k ` set (rs_desiredObjects st) \<subseteq> present w'"
proof (cases "rs_desiredObjects st = []")
  case True
  with assms(2) that show thesis by (auto simp: applyResources_def applicable_def)
next
  case False
  from assms(2) have "\<forall>obj \<in> set (rs_desiredObjects st). identified obj" by (simp add: applicable_def)
  from apply_objects_coop [OF assms(1) this, of "[]" st w] obtain st1 w1 where
    "apply_objects k [] (rs_desiredObjects st) None st w = (((False, None), st1), w1)"
    "quiet_call stored delay present w w1" "rs_componentStatuses st1 = rs_componentStatuses st"
    "object_id k ` set (rs_desiredObjects st) \<subseteq> present w1" by auto
  with False that fine_apply_results assms(2) show thesis
    by (auto simp: applyResources_def applicable_def)
qed

subsection \<open>Judging on a cooperative cluster\<close>

text \<open>
  An application that is accepted and that the health check can judge: it looks up the name of each component,
  with the kind and the version of the first. So the first component says it is a StatefulSet of apps/v1,
  which is what the builder makes of every component, and each name is the resource name derived from it.
\<close>

definition runnable :: "'w cluster \<Rightarrow> nsname \<Rightarrow> appDef \<Rightarrow> bool" where
  "runnable k req app \<longleftrightarrow>
     app_key app = req \<and> app_namespace app \<noteq> [] \<and> om_deletionTimestamp (ad_meta app) = None \<and>
     \<not> is_suspended app \<and> (\<forall>c \<in> set (as_components (ad_spec app)). component_accepted k c) \<and>
     distinct (map ac_name (as_components (ad_spec app))) \<and> [] \<notin> ac_name ` set (as_components (ad_spec app)) \<and>
     (\<forall>c \<in> set (as_components (ad_spec app)). DeriveResourceName (ac_name c) = ac_name c) \<and>
     (case as_components (ad_spec app) of [] \<Rightarrow> False
      | c # _ \<Rightarrow> ac_kind c = ''StatefulSet'' \<and> ac_apiVersion c = ''apps/v1'')"

lemma runnable_head:
  assumes "runnable k req app"
  obtains spec rest where "as_components (ad_spec app) = spec # rest" "ac_kind spec = ''StatefulSet''"
    "ac_apiVersion spec = ''apps/v1''"
  using assms by (auto simp: runnable_def split: list.splits)

lemma checkStatefulSetHealth_no_error [simp]: "snd (snd (checkStatefulSetHealth meta spec status)) = None"
  by (simp add: checkStatefulSetHealth_def Let_def split: option.splits)

text \<open>The health check finds a workload that is there, and finds it ready when it is rolled out.\<close>

lemma CheckHealth_coop:
  assumes "cooperative_reads k stored delay present" "workload_id k app n \<in> present w"
  obtains b msg w' where
    "CheckHealth k (app_namespace app) n ''apps/v1'' ''StatefulSet'' w = ((b, msg, None), w')"
    "quiet_call stored delay present w w'" "if delay w = 0 then b else delay w' < delay w"
proof -
  let ?g = "workloadGVK k" and ?key = "NsName (app_namespace app) n"
  from assms obtain u w' obj spec status where read: "kc_get_unstructured k ?g ?key w = (Inr u, w')"
    "quiet_call stored delay present w w'" "lib_from_unstructured k u ?g = Inr obj"
    and body: "ko_body obj = StatefulSet spec status" and counts: "sensible_counts spec"
    and d: "if delay w = 0 then statefulset_ready (ko_meta obj) spec status else delay w' < delay w"
    and new: "lib_scheme_new k ?g = None"
    unfolding cooperative_reads_def workload_id_def by blast
  obtain b msg where h: "checkStatefulSetHealth (ko_meta obj) spec status = (b, msg, None)"
    using checkStatefulSetHealth_no_error by (metis prod.collapse)
  have "b = statefulset_ready (ko_meta obj) spec status"
    using checkStatefulSetHealth_iff [of spec "ko_meta obj" status] counts h by (simp add: sensible_counts_def)
  moreover have "CheckHealth k (app_namespace app) n ''apps/v1'' ''StatefulSet'' w = ((b, msg, None), w')"
    using read new body h
    by (simp add: CheckHealth_def check_typed_def workloadGVK_def StatefulSetType_def Let_def)
  ultimately show thesis using that read(2) d by (simp split: if_splits)
qed

lemma check_component_coop:
  assumes "cooperative k stored delay present" "runnable k req app"
    and "n \<in> ac_name ` set (as_components (ad_spec app))" "\<not> previous_error (cs_message cs)"
    and "workload_id k app n \<in> present w"
  obtains cs' r q w' where "check_component k app n cs w = ((cs', r, q, None), w')"
    "quiet_call stored delay present w w'" "if delay w = 0 then r else delay w' < delay w"
proof -
  obtain spec rest where sp: "as_components (ad_spec app) = spec # rest" "ac_kind spec = ''StatefulSet''"
    "ac_apiVersion spec = ''apps/v1''" by (rule runnable_head [OF assms(2)])
  have "n \<noteq> []" using assms(2,3) unfolding runnable_def by metis
  have "\<exists>c \<in> set (spec # rest). ac_name c = n" using assms(3) sp(1) by auto
  then have found: "find (\<lambda>c. ac_name c = n) (spec # rest) \<noteq> None"
    unfolding find_None_iff by blast
  obtain b msg w' where c: "CheckHealth k (app_namespace app) n ''apps/v1'' ''StatefulSet'' w = ((b, msg, None), w')"
    "quiet_call stored delay present w w'" "if delay w = 0 then b else delay w' < delay w"
    by (rule CheckHealth_coop [OF cooperative_laws(3) [OF assms(1)] assms(5)])
  show thesis
  proof (rule that)
    show "check_component k app n cs w =
      ((if b then cs\<lparr>cs_namespace := app_namespace app, cs_resourceName := n, cs_apiVersion := ac_apiVersion spec,
          cs_kind := ac_kind spec, cs_health := True, cs_message := ''Component is ready and healthy''\<rparr>
        else cs\<lparr>cs_namespace := app_namespace app, cs_resourceName := n, cs_apiVersion := ac_apiVersion spec,
          cs_kind := ac_kind spec, cs_health := False, cs_message := msg\<rparr>, b, \<not> b, None), w')"
      using sp found \<open>n \<noteq> []\<close> assms(4) c(1) unfolding check_component_def sp(1) by (simp add: Let_def)
  qed (use c in auto)
qed

lemma check_components_coop:
  assumes "cooperative k stored delay present" "runnable k req app"
  shows "distinct names \<Longrightarrow> set names \<subseteq> ac_name ` set (as_components (ad_spec app)) \<Longrightarrow>
    \<forall>n \<in> set names. \<exists>cs. map_of m n = Some cs \<and> \<not> previous_error (cs_message cs) \<Longrightarrow>
    \<forall>n \<in> set names. workload_id k app n \<in> present w \<Longrightarrow>
    \<exists>r' q' m' w'. check_components k app names (r, q, None) m w = (((r', q', None), m'), w') \<and>
      quiet_call stored delay present w w' \<and> (delay w = 0 \<longrightarrow> r' = r) \<and>
      (names \<noteq> [] \<and> delay w > 0 \<longrightarrow> delay w' < delay w)"
proof (induction names arbitrary: r q m w)
  case (Cons n names)
  from Cons.prems(3) obtain cs where cs: "map_of m n = Some cs" "\<not> previous_error (cs_message cs)" by auto
  from Cons.prems(2) have n: "n \<in> ac_name ` set (as_components (ad_spec app))" by simp
  from Cons.prems(4) have here: "workload_id k app n \<in> present w" by simp
  obtain cs1 r1 q1 w1 where one: "check_component k app n cs w = ((cs1, r1, q1, None), w1)"
    "quiet_call stored delay present w w1" "if delay w = 0 then r1 else delay w1 < delay w"
    by (rule check_component_coop [OF assms n cs(2) here])
  have there: "\<forall>n' \<in> set names. workload_id k app n' \<in> present w1"
    using Cons.prems(4) one(2) by (auto simp: quiet_call_def)
  have "\<forall>n' \<in> set names. \<exists>cs. map_of (AList.update n cs1 m) n' = Some cs \<and> \<not> previous_error (cs_message cs)"
    using Cons.prems(1,3) by (auto simp: update_conv')
  from Cons.IH [OF _ _ this there, of "r \<and> r1" "q \<or> q1"] Cons.prems(1,2) obtain r2 q2 m2 w2 where rest:
    "check_components k app names (r \<and> r1, q \<or> q1, None) (AList.update n cs1 m) w1 = (((r2, q2, None), m2), w2)"
    "quiet_call stored delay present w1 w2" "delay w1 = 0 \<longrightarrow> r2 = (r \<and> r1)" by auto
  have "check_components k app (n # names) (r, q, None) m w = (((r2, q2, None), m2), w2)"
    using cs(1) one(1) rest(1) by (simp add: combine_def)
  moreover have "quiet_call stored delay present w w2" by (rule quiet_call_trans [OF one(2) rest(2)])
  moreover have "delay w = 0 \<longrightarrow> r2 = r" "delay w > 0 \<longrightarrow> delay w2 < delay w"
    using one(2,3) rest(2,3) by (auto simp: quiet_call_def split: if_splits)
  ultimately show ?case
    by (intro exI [of _ r2] exI [of _ q2] exI [of _ m2] exI [of _ w2]) simp
qed simp

lemma checkHealth_coop:
  assumes "cooperative k stored delay present" "runnable k req (rs_appDef st)" "statuses_ok (rs_componentStatuses st)"
    and "fst ` set (rs_componentStatuses st) = ac_name ` set (as_components (ad_spec (rs_appDef st)))"
    and "fine (rs_componentStatuses st)"
    and "\<forall>n \<in> ac_name ` set (as_components (ad_spec (rs_appDef st))). workload_id k (rs_appDef st) n \<in> present w"
  obtains r q st' w' where "checkHealthAndCalculateStatus k st w = (((r, q, None), st'), w')"
    "quiet_call stored delay present w w'" "if delay w = 0 then r else delay w' < delay w"
proof -
  let ?m = "rs_componentStatuses st" and ?names = "lib_range k (map fst (rs_componentStatuses st))"
  note names = range_names [OF cooperative_laws(7) [OF assms(1)] assms(3)]
  have entry: "\<exists>cs. map_of ?m n = Some cs \<and> \<not> previous_error (cs_message cs)" if "n \<in> set ?names" for n
  proof -
    from that names(2) have "map_of ?m n \<noteq> None" by (simp add: map_of_eq_None_iff)
    with fine_lookup [OF assms(5)] show ?thesis by blast
  qed
  have "as_components (ad_spec (rs_appDef st)) \<noteq> []" using runnable_head [OF assms(2)] by (metis list.distinct(1))
  with names(2) assms(4) have "set ?names \<noteq> {}" by auto
  then have ne: "?names \<noteq> []" by simp
  have sub: "set ?names \<subseteq> ac_name ` set (as_components (ad_spec (rs_appDef st)))"
    using names(2) assms(4) by simp
  have there: "\<forall>n \<in> set ?names. workload_id k (rs_appDef st) n \<in> present w" using assms(6) sub by blast
  from check_components_coop [OF assms(1,2) names(1) sub _ there, of ?m True False] entry obtain r q m' w' where
    run: "check_components k (rs_appDef st) ?names (True, False, None) ?m w = (((r, q, None), m'), w')"
    and quiet: "quiet_call stored delay present w w'" and d: "delay w = 0 \<longrightarrow> r = True" "delay w > 0 \<longrightarrow> delay w' < delay w"
    using ne by metis
  from run have "checkHealthAndCalculateStatus k st w = (((r, q, None), st\<lparr>rs_componentStatuses := m'\<rparr>), w')"
    by (simp add: checkHealthAndCalculateStatus_def)
  with quiet d show thesis by (intro that) auto
qed

subsection \<open>A run on a cooperative cluster\<close>

definition being_set_up :: "appDef \<Rightarrow> bool" where
  "being_set_up app \<longleftrightarrow> app_phase app \<in> {ApplicationPhaseUnset, ApplicationPhasePending}"

text \<open>What is stored keeps everything but the status.\<close>

definition same_but_status :: "appDef \<Rightarrow> appDef \<Rightarrow> bool" where
  "same_but_status a b \<longleftrightarrow> ad_meta b = ad_meta a \<and> ad_spec b = ad_spec a"

lemma status_update_coop:
  assumes "cooperative_writes k stored delay" "same_but_status (stored w) app"
    and "app_phase (stored w) = st_phase orig"
  obtains b app' w' where "updateStatusIfNeeded k app orig w = (((b, None), app'), w')"
    "app_phase (stored w') = app_phase app" "same_but_status (stored w) (stored w')" "delay w' \<le> delay w"
proof (cases "status_unchanged (ad_status (observe_generation app)) orig")
  case True
  then have "app_phase app = st_phase orig" by (simp add: status_unchanged_def app_phase_def)
  with assms(3) show thesis
    by (intro that [OF updateStatusIfNeeded_unchanged [OF True]]) (simp_all add: same_but_status_def)
next
  case False
  let ?a = "observe_generation app"
  from assms(1,2) obtain w' where w': "kc_status_update k ?a w = (Inr ?a, w')" "stored w' = ?a" "delay w' \<le> delay w"
    unfolding cooperative_writes_def same_but_status_def by (metis observe_generation_simps(1,2))
  have "status_update_loop k (ad_status ?a) (Suc 2) ?a w = ((Written, ?a), w')"
    by (rule status_write.loop_written [OF w'(1)])
  with False have "updateStatusIfNeeded k app orig w = (((True, None), ?a), w')"
    by (simp add: updateStatusIfNeeded_def Let_def max_attempts_def eval_nat_numeral)
  with w'(2,3) assms(2) that show thesis by (auto simp: same_but_status_def)
qed

lemma conclude_same_but_status: "same_but_status (rs_appDef st) (rs_appDef (conclude k r st))"
  by (simp add: same_but_status_def conclude_def note_change_id_def Let_def split: option.splits)

lemma conclude_original: "rs_originalStatus (conclude k r st) = rs_originalStatus st"
  by (simp add: conclude_def Let_def)

lemma runnable_same:
  "same_but_status a b \<Longrightarrow> runnable k req b = runnable k req a"
  by (simp add: runnable_def same_but_status_def app_key_def app_namespace_def app_name_def is_suspended_def)

text \<open>The state of a run when the components are processed, and the parts of the rest of the run.\<close>

definition ready_to_run :: "'w cluster \<Rightarrow> nsname \<Rightarrow> reconcileState \<Rightarrow> bool" where
  "ready_to_run k req st \<longleftrightarrow>
     runnable k req (rs_appDef st) \<and> rs_firstError st = None \<and> statuses_ok (rs_componentStatuses st) \<and>
     fine (rs_componentStatuses st) \<and>
     fst ` set (rs_componentStatuses st) = ac_name ` set (as_components (ad_spec (rs_appDef st)))"

lemma process_coop:
  assumes "ready_to_run k req st" "GetAppBuilderStrategy reg ''operator'' = Some RuntimeBuilderStrategy"
    and "\<not> being_set_up (rs_appDef st)"
  obtains st' where "processComponentsAndBuildObjects k reg st = (Processed, st')" "applicable st'"
    "ready_to_run k req st'" "same_but_status (rs_appDef st) (rs_appDef st')"
    "rs_originalStatus st' = rs_originalStatus st"
    "\<not> being_set_up (rs_appDef st')" "app_phase (rs_appDef st') \<noteq> ApplicationPhaseSuspended"
    "workload_id k (rs_appDef st') ` ac_name ` set (as_components (ad_spec (rs_appDef st')))
      \<subseteq> object_id k ` set (rs_desiredObjects st')"
proof -
  let ?comps = "as_components (ad_spec (rs_appDef st))" and ?st = "st\<lparr>rs_desiredObjects := []\<rparr>"
  have app: "app_namespace (rs_appDef st) \<noteq> []" "\<forall>c \<in> set ?comps. component_accepted k c" "\<not> is_suspended (rs_appDef st)"
    using assms(1) by (simp_all add: ready_to_run_def runnable_def)
  have "fst (process_components k reg ?comps ?st) = Processed"
    by (rule process_components_accepted) (use app assms(1,2) in \<open>simp_all add: ready_to_run_def\<close>)
  then obtain st1 where pc: "process_components k reg ?comps ?st = (Processed, st1)" by (metis prod.collapse)
  obtain st2 where pr: "handlePauseResume st1 = (None, st2)"
    using handlePauseResume_None by (metis prod.collapse)
  have p: "processComponentsAndBuildObjects k reg st = (Processed, st2)"
    using pc pr by (simp add: processComponentsAndBuildObjects_def)
  have "applicable ?st" using assms(1) by (simp add: applicable_def ready_to_run_def)
  then have "applicable st1" by (intro process_components_applicable [OF pc app(2) assms(2)]) (use app(1) in simp_all)
  then have a2: "applicable st2" by (rule handlePauseResume_applicable [OF pr])
  note ps = processComponents_statuses [OF p] and ph = processComponents_phase [OF p]
  have same: "same_but_status (rs_appDef st) (rs_appDef st2)" using ps(3,4) by (simp add: same_but_status_def)
  have keys: "fst ` set (rs_componentStatuses st2) = fst ` set (rs_componentStatuses st)"
    using ps(1) by (metis list.set_map)
  have orig: "rs_originalStatus st2 = rs_originalStatus st"
    using process_components_carried [OF pc] pr
    by (auto simp: carried_def handlePauseResume_def Let_def split: prod.splits)
  have ready: "ready_to_run k req st2"
    using assms(1) a2 keys ps(2,3) processComponents_error [OF p] runnable_same [OF same, of k req]
    by (simp add: ready_to_run_def applicable_def)
  have "workload_id k (rs_appDef st) (ac_name c) \<in> object_id k ` set (rs_desiredObjects st2)" if "c \<in> set ?comps" for c
    using processed_workloads [OF p assms(2) that] assms(1) that by (simp add: ready_to_run_def runnable_def)
  then have there: "workload_id k (rs_appDef st2) ` ac_name ` set (as_components (ad_spec (rs_appDef st2)))
      \<subseteq> object_id k ` set (rs_desiredObjects st2)"
    using ps(3,4) by (auto simp: workload_id_def app_namespace_def)
  show thesis
    by (rule that [OF p a2 ready same orig _ _ there]) (use ph app(3) assms(3) in \<open>auto simp: being_set_up_def\<close>)
qed

lemma judge_coop:
  assumes "cooperative k stored delay present" "ready_to_run k req st" "applicable st"
    and "workload_id k (rs_appDef st) ` ac_name ` set (as_components (ad_spec (rs_appDef st)))
      \<subseteq> object_id k ` set (rs_desiredObjects st)"
  obtains r q st' w' where "apply_and_judge k st w = (((r, q), st'), w')" "quiet_call stored delay present w w'"
    "if delay w = 0 then r else delay w' < delay w" "rs_appDef st' = rs_appDef st"
    "rs_originalStatus st' = rs_originalStatus st" "rs_firstError st' = None"
proof -
  obtain st1 w1 where ap: "applyResources k st w = ((None, st1), w1)" "quiet_call stored delay present w w1"
    "fine (rs_componentStatuses st1)" "object_id k ` set (rs_desiredObjects st) \<subseteq> present w1"
    by (rule applyResources_coop [OF assms(1,3)])
  have k1: "rs_appDef st1 = rs_appDef st" "rs_originalStatus st1 = rs_originalStatus st" "rs_firstError st1 = None"
    "runnable k req (rs_appDef st1)" "statuses_ok (rs_componentStatuses st1)"
    "fst ` set (rs_componentStatuses st1) = ac_name ` set (as_components (ad_spec (rs_appDef st1)))"
    using applyResources_kept [OF ap(1)] assms(2) by (simp_all add: kept_def ready_to_run_def)
  have there: "\<forall>n \<in> ac_name ` set (as_components (ad_spec (rs_appDef st1))).
      workload_id k (rs_appDef st1) n \<in> present w1"
    unfolding k1(1) using assms(4) ap(4) by blast
  obtain r q st2 w2 where ch: "checkHealthAndCalculateStatus k st1 w1 = (((r, q, None), st2), w2)"
    "quiet_call stored delay present w1 w2" "if delay w1 = 0 then r else delay w2 < delay w1"
    by (rule checkHealth_coop [OF assms(1) k1(4-6) ap(3) there])
  have st2: "rs_appDef st2 = rs_appDef st1" "rs_originalStatus st2 = rs_originalStatus st1" "rs_firstError st2 = rs_firstError st1"
    using ch(1) by (auto simp: checkHealthAndCalculateStatus_def split: prod.splits)
  have run: "apply_and_judge k st w = (((r, q), st2), w2)"
    using ap(1) ch(1) k1(3) by (simp add: apply_and_judge_def Let_def)
  have d: "if delay w = 0 then r else delay w2 < delay w"
    using ap(2) ch(2,3) by (auto simp: quiet_call_def split: if_splits)
  show thesis
    by (rule that [OF run quiet_call_trans [OF ap(2) ch(2)] d]) (use st2 k1 in simp_all)
qed

lemma finish_coop:
  assumes "cooperative k stored delay present" "rs_firstError st = None" "same_but_status (stored w) (rs_appDef st)"
    and "app_phase (stored w) = st_phase (rs_originalStatus st)"
  obtains res st' w' where "finish_run k r q st w = (((res, None), st'), w')"
    "app_phase (stored w') = next_phase (app_phase (rs_appDef st)) (outcome_of None r)"
    "same_but_status (stored w) (stored w')" "delay w' \<le> delay w"
proof -
  let ?c = "conclude k r st"
  have same: "same_but_status (stored w) (rs_appDef ?c)"
    using assms(3) conclude_same_but_status [of st k r] by (simp add: same_but_status_def)
  have orig: "app_phase (stored w) = st_phase (rs_originalStatus ?c)"
    using assms(4) by (simp add: conclude_original)
  obtain b app' w' where
    u: "updateStatusIfNeeded k (rs_appDef ?c) (rs_originalStatus ?c) w = (((b, None), app'), w')"
    and w': "app_phase (stored w') = app_phase (rs_appDef ?c)" "same_but_status (stored w) (stored w')"
      "delay w' \<le> delay w"
    by (rule status_update_coop [OF cooperative_laws(1) [OF assms(1)] same orig])
  have "\<exists>res st'. finish_run k r q st w = (((res, None), st'), w')"
    using u assms(2) by (simp add: finish_run_def Let_def conclude_simps)
  with w' assms(2) that show thesis by (auto simp: conclude_simps)
qed

text \<open>What a run makes of the stored application and of the delay.\<close>

definition step_made :: "('w \<Rightarrow> appDef) \<Rightarrow> ('w \<Rightarrow> nat) \<Rightarrow> 'w \<Rightarrow> 'w \<Rightarrow> bool" where
  "step_made stored delay w w' \<longleftrightarrow>
     \<not> being_set_up (stored w') \<and>
     (if delay w = 0 then app_phase (stored w') = ApplicationPhaseRunning \<and> delay w' = 0
      else delay w' < delay w)"

lemma run_components_coop:
  assumes "cooperative k stored delay present" "ready_to_run k req st"
    and "GetAppBuilderStrategy reg ''operator'' = Some RuntimeBuilderStrategy"
    and "rs_appDef st = stored w" "\<not> being_set_up (stored w)" "app_phase (stored w) = st_phase (rs_originalStatus st)"
  obtains res st' w' where "run_components k reg st w = Inr (((res, None), st'), w')"
    "same_but_status (stored w) (stored w')" "step_made stored delay w w'"
proof -
  have up: "\<not> being_set_up (rs_appDef st)" using assms(4,5) by simp
  obtain st1 where p: "processComponentsAndBuildObjects k reg st = (Processed, st1)" "applicable st1"
    "ready_to_run k req st1" "same_but_status (rs_appDef st) (rs_appDef st1)" "rs_originalStatus st1 = rs_originalStatus st"
    "\<not> being_set_up (rs_appDef st1)" "app_phase (rs_appDef st1) \<noteq> ApplicationPhaseSuspended"
    "workload_id k (rs_appDef st1) ` ac_name ` set (as_components (ad_spec (rs_appDef st1)))
      \<subseteq> object_id k ` set (rs_desiredObjects st1)"
    by (rule process_coop [OF assms(2,3) up])
  obtain r q st2 w2 where j: "apply_and_judge k st1 w = (((r, q), st2), w2)" "quiet_call stored delay present w w2"
    "if delay w = 0 then r else delay w2 < delay w" "rs_appDef st2 = rs_appDef st1"
    "rs_originalStatus st2 = rs_originalStatus st1" "rs_firstError st2 = None"
    by (rule judge_coop [OF assms(1) p(3,2,8)])
  have w2: "stored w2 = stored w" "delay w2 \<le> delay w" using j(2) by (simp_all add: quiet_call_def)
  have same: "same_but_status (stored w2) (rs_appDef st2)" using p(4) j(4) assms(4) w2(1) by simp
  have orig: "app_phase (stored w2) = st_phase (rs_originalStatus st2)" using j(5) p(5) assms(6) w2(1) by simp
  obtain res st' w' where f: "finish_run k r q st2 w2 = (((res, None), st'), w')"
    "app_phase (stored w') = next_phase (app_phase (rs_appDef st2)) (outcome_of None r)"
    "same_but_status (stored w2) (stored w')" "delay w' \<le> delay w2"
    by (rule finish_coop [OF assms(1) j(6) same orig])
  have run: "run_components k reg st w = Inr (((res, None), st'), w')"
    using p(1) j(1) f(1) by (simp add: run_components_def)
  have phase: "\<not> being_set_up (stored w')" "r \<Longrightarrow> app_phase (stored w') = ApplicationPhaseRunning"
    using p(6,7) j(4) unfolding being_set_up_def f(2) outcome_of_def
    by (cases "app_phase (rs_appDef st2)"; cases r; simp)+
  have "step_made stored delay w w'"
    using phase j(3) w2(2) f(4) by (simp add: step_made_def split: if_splits)
  with run f(3) w2(1) that show thesis by simp
qed

subsection \<open>From the request to the verdict\<close>

lemma fine_update: "fine m \<Longrightarrow> \<not> previous_error (cs_message cs) \<Longrightarrow> fine (AList.update n cs m)"
  by (induction m) (auto simp: fine_def)

lemma initialize_loop_fine:
  "initialize_loop comps names m = ((None, names'), m') \<Longrightarrow> fine m \<Longrightarrow> fine m'"
  by (induction comps arbitrary: names m) (auto simp: initial_status_def fine_update split: if_splits)

lemma initialise_coop:
  assumes "runnable k req app"
  obtains m where "initializeComponentStatuses (as_components (ad_spec app)) [] = (None, m)"
    "ready_to_run k req ((fresh_state app)\<lparr>rs_componentStatuses := m\<rparr>)"
proof -
  let ?comps = "as_components (ad_spec app)"
  obtain r m where i: "initializeComponentStatuses ?comps [] = (r, m)" by fastforce
  have "fst (fst (initialize_loop ?comps [] [])) = None"
    using assms initialize_loop_error_iff [of ?comps "[]" "[]"] by (simp add: runnable_def)
  then obtain names m' where loop: "initialize_loop ?comps [] [] = ((None, names), m')" by (metis prod.collapse)
  with i have r: "r = None" and m: "m = filter (\<lambda>(key, cs). key \<in> set names) m'"
    by (simp_all add: initializeComponentStatuses_def)
  have "fine m'" by (rule initialize_loop_fine [OF loop]) (simp add: fine_def)
  then have "fine m" unfolding m by (auto simp: fine_def)
  with initializeComponentStatuses_ok [OF i [unfolded r]] assms i r that show thesis
    by (simp add: ready_to_run_def fresh_state_def)
qed

lemma finalizer_coop:
  assumes "cooperative k stored delay present" "om_deletionTimestamp (ad_meta (stored w)) = None"
  obtains w' where "handleFinalizer k (stored w) w = (((False, None), stored w'), w')"
    "has_finalizer k (stored w')" "ad_status (stored w') = ad_status (stored w)"
    "app_key (stored w') = app_key (stored w)" "ad_spec (stored w') = ad_spec (stored w)"
    "om_deletionTimestamp (ad_meta (stored w')) = None" "delay w' \<le> delay w" "has_finalizer k (stored w) \<longrightarrow> w' = w"
proof (cases "has_finalizer k (stored w)")
  case True
  with handleFinalizer_present [OF assms(2) True, of w] assms(2) show thesis by (intro that [of w]) simp_all
next
  case False
  let ?a = "add_finalizer k (stored w)"
  have frame: "ad_spec ?a = ad_spec (stored w)" "ad_status ?a = ad_status (stored w)"
    "app_key ?a = app_key (stored w)" "om_deletionTimestamp (ad_meta ?a) = None"
    using assms(2) by (simp_all add: add_finalizer_def app_key_def app_namespace_def app_name_def)
  obtain w' where w': "kc_update_app k ?a w = (Inr ?a, w')" "stored w' = ?a" "delay w' \<le> delay w"
    using cooperative_laws(1) [OF assms(1)] frame(1,2) unfolding cooperative_writes_def by metis
  have "add_finalizer_loop k (Suc 2) ?a w = ((Written, ?a), w')"
    by (rule finalizer_adding.loop_written [OF w'(1)])
  with False assms(2) w'(2) have "handleFinalizer k (stored w) w = (((False, None), stored w'), w')"
    by (simp add: handleFinalizer_def max_attempts_def eval_nat_numeral)
  with False w'(2,3) frame add_finalizer_has(1) [OF cooperative_laws(6) [OF assms(1)]] that show thesis
    by simp
qed

lemma initial_phase_coop:
  assumes "cooperative k stored delay present" "being_set_up (rs_appDef st)" "rs_appDef st = stored w"
  obtains st' w' where "setInitialPhase k st w = (((True, None), st'), w')"
    "same_but_status (stored w) (stored w')" "\<not> being_set_up (stored w')" "delay w' \<le> delay w"
proof -
  let ?a = "start_processing k (stored w)"
  have frame: "ad_spec ?a = ad_spec (stored w)" "ad_meta ?a = ad_meta (stored w)" "\<not> being_set_up ?a"
    by (simp_all add: start_processing_def being_set_up_def)
  obtain w' where w': "kc_status_update k ?a w = (Inr ?a, w')" "stored w' = ?a" "delay w' \<le> delay w"
    using cooperative_laws(1) [OF assms(1)] frame(1,2) unfolding cooperative_writes_def by metis
  have "initial_phase_loop k (Suc 2) ?a w = ((Written, ?a), w')"
    by (rule initial_phase.loop_written [OF w'(1)])
  with assms(2,3) have "\<exists>st'. setInitialPhase k st w = (((True, None), st'), w')"
    by (simp add: setInitialPhase_def being_set_up_def max_attempts_def eval_nat_numeral Let_def)
  with w'(2,3) frame that show thesis by (auto simp: same_but_status_def)
qed

text \<open>
  The work that is left: the delay, and one more run while the phase or the finalizer is to be set.
  \<open>settled\<close> says that a run changes nothing or comes closer to a world with no work left.
\<close>

definition work_left :: "'w cluster \<Rightarrow> ('w \<Rightarrow> appDef) \<Rightarrow> ('w \<Rightarrow> nat) \<Rightarrow> 'w \<Rightarrow> nat" where
  "work_left k stored delay w =
     delay w + (if being_set_up (stored w) \<or> \<not> has_finalizer k (stored w) then 1 else 0)"

definition settles :: "'w cluster \<Rightarrow> ('w \<Rightarrow> appDef) \<Rightarrow> ('w \<Rightarrow> nat) \<Rightarrow> 'w \<Rightarrow> 'w \<Rightarrow> bool" where
  "settles k stored delay w w' \<longleftrightarrow>
     (if work_left k stored delay w = 0
      then work_left k stored delay w' = 0 \<and> app_phase (stored w') = ApplicationPhaseRunning
      else work_left k stored delay w' < work_left k stored delay w \<or>
        w' = w \<and> app_phase (stored w) = ApplicationPhaseRunning)"

lemma settles_step:
  assumes "step_made stored delay w1 w'" "delay w1 \<le> delay w" "has_finalizer k (stored w')"
    and "has_finalizer k (stored w) \<longrightarrow> w1 = w" "\<not> being_set_up (stored w)"
  shows "settles k stored delay w w'"
  using assms by (auto simp: settles_def work_left_def step_made_def split: if_splits)

lemma run_initialised_coop:
  assumes "cooperative k stored delay present" "runnable k req (stored w)"
    and "GetAppBuilderStrategy reg ''operator'' = Some RuntimeBuilderStrategy"
    and "ready_to_run k req st" "rs_appDef st = stored w" "rs_originalStatus st = ad_status (stored w)"
  obtains res st' w' where "run_initialised k reg st w = Inr (((res, None), st'), w')"
    "runnable k req (stored w')" "settles k stored delay w w'"
proof -
  have live: "om_deletionTimestamp (ad_meta (stored w)) = None" using assms(2) by (simp add: runnable_def)
  obtain w1 where h: "handleFinalizer k (stored w) w = (((False, None), stored w1), w1)"
    and fin: "has_finalizer k (stored w1)" and frame: "ad_status (stored w1) = ad_status (stored w)"
      "app_key (stored w1) = app_key (stored w)" "ad_spec (stored w1) = ad_spec (stored w)"
      "om_deletionTimestamp (ad_meta (stored w1)) = None" "delay w1 \<le> delay w"
    and held: "has_finalizer k (stored w) \<longrightarrow> w1 = w"
    by (rule finalizer_coop [OF assms(1) live])
  have run1: "runnable k req (stored w1)"
    using assms(2) frame by (auto simp: runnable_def app_key_def app_namespace_def is_suspended_def)
  have phase1: "app_phase (stored w1) = app_phase (stored w)" "being_set_up (stored w1) = being_set_up (stored w)"
    using frame(1) by (simp_all add: being_set_up_def app_phase_def)
  let ?st = "st\<lparr>rs_appDef := stored w1\<rparr>"
  have ready: "ready_to_run k req ?st" using assms(4,5) run1 frame(3) by (simp add: ready_to_run_def)
  have fin_kept: "has_finalizer k (stored w')" "runnable k req (stored w')" if "same_but_status (stored w1) (stored w')" for w'
    using fin run1 runnable_same [OF that, of k req] that by (simp_all add: has_finalizer_def same_but_status_def)
  show thesis
  proof (cases "being_set_up (stored w)")
    case True
    then have "being_set_up (rs_appDef ?st)" using phase1(2) by simp
    then obtain st2 w2 where i: "setInitialPhase k ?st w1 = (((True, None), st2), w2)"
      "same_but_status (stored w1) (stored w2)" "\<not> being_set_up (stored w2)" "delay w2 \<le> delay w1"
      using initial_phase_coop [OF assms(1), of ?st w1] by auto
    have "settles k stored delay w w2"
      using True i(3,4) frame(5) fin_kept(1) [OF i(2)] by (simp add: settles_def work_left_def)
    with h i(1) assms(5) fin_kept(2) [OF i(2)] that show thesis by (simp add: run_initialised_def Let_def)
  next
    case False
    then have i: "setInitialPhase k ?st w1 = (((False, None), ?st), w1)"
      using phase1(2) by (simp add: setInitialPhase_def being_set_up_def Let_def)
    have awake: "\<not> is_suspended (stored w1)" using run1 by (simp add: runnable_def)
    show thesis
    proof (cases "stable_and_running (stored w1)")
      case True
      then have "app_phase (stored w) = ApplicationPhaseRunning" using phase1(1) by (simp add: stable_and_running_def)
      then have "settles k stored delay w w1"
        using False fin held frame(5) phase1 by (auto simp: settles_def work_left_def)
      with True h i awake assms(5) run1 that show thesis by (simp add: run_initialised_def Let_def)
    next
      case busy: False
      have orig: "app_phase (stored w1) = st_phase (rs_originalStatus ?st)"
        using assms(6) phase1(1) by (simp add: app_phase_def)
      have up: "\<not> being_set_up (stored w1)" using False phase1(2) by simp
      obtain res st' w' where run: "run_components k reg ?st w1 = Inr (((res, None), st'), w')"
        "same_but_status (stored w1) (stored w')" "step_made stored delay w1 w'"
        by (rule run_components_coop [OF assms(1) ready assms(3) _ up orig]) simp_all
      have "settles k stored delay w w'"
        by (rule settles_step [OF run(3) frame(5) fin_kept(1) [OF run(2)] held False])
      with run fin_kept(2) [OF run(2)] h i awake busy assms(5) that show thesis
        by (simp add: run_initialised_def Let_def)
    qed
  qed
qed

lemma Reconcile_coop:
  assumes "cooperative k stored delay present" "runnable k req (stored w)"
    and "GetAppBuilderStrategy reg ''operator'' = Some RuntimeBuilderStrategy"
  obtains res st' w' where "Reconcile k reg (nn_namespace req) req w = Inr (((res, None), st'), w')"
    "runnable k req (stored w')" "settles k stored delay w w'"
proof -
  have key: "app_key (stored w) = req" using assms(2) by (simp add: runnable_def)
  have get: "kc_get_app k req w = (Inr (stored w), w)"
    using cooperative_laws(1) [OF assms(1)] key unfolding cooperative_writes_def by metis
  obtain m where i: "initializeComponentStatuses (as_components (ad_spec (stored w))) [] = (None, m)"
    "ready_to_run k req ((fresh_state (stored w))\<lparr>rs_componentStatuses := m\<rparr>)"
    by (rule initialise_coop [OF assms(2)])
  let ?st = "(fresh_state (stored w))\<lparr>rs_componentStatuses := m\<rparr>"
  obtain res st' w' where run: "run_initialised k reg ?st w = Inr (((res, None), st'), w')"
    "runnable k req (stored w')" "settles k stored delay w w'"
    by (rule run_initialised_coop [OF assms i(2)]) (simp_all add: fresh_state_def)
  have "as_components (ad_spec (stored w)) \<noteq> []" using runnable_head [OF assms(2)] by (metis list.distinct(1))
  moreover have "rs_componentStatuses (fresh_state (stored w)) = []" by (simp add: fresh_state_def)
  ultimately have "run_fetched k reg (stored w) w = Inr (((res, None), st'), w')"
    using run(1) i(1) by (simp add: run_fetched_def Let_def)
  with get run that show thesis by (simp add: Reconcile_def)
qed

subsection \<open>Runs one after another\<close>

definition after_run :: "'w cluster \<Rightarrow> builder_id registry \<Rightarrow> nsname \<Rightarrow> 'w \<Rightarrow> 'w" where
  "after_run k reg req w =
     (case Reconcile k reg (nn_namespace req) req w of Inl _ \<Rightarrow> w | Inr (_, w') \<Rightarrow> w')"

lemma after_run_coop:
  assumes "cooperative k stored delay present" "runnable k req (stored w)"
    and "GetAppBuilderStrategy reg ''operator'' = Some RuntimeBuilderStrategy"
  shows "runnable k req (stored (after_run k reg req w)) \<and> settles k stored delay w (after_run k reg req w)"
proof -
  obtain res st' w' where "Reconcile k reg (nn_namespace req) req w = Inr (((res, None), st'), w')"
    "runnable k req (stored w')" "settles k stored delay w w'" by (rule Reconcile_coop [OF assms])
  then show ?thesis by (simp add: after_run_def)
qed

lemma runs_settle:
  assumes "cooperative k stored delay present" "GetAppBuilderStrategy reg ''operator'' = Some RuntimeBuilderStrategy"
  shows "runnable k req (stored w) \<Longrightarrow> work_left k stored delay w < n \<Longrightarrow>
    app_phase (stored ((after_run k reg req ^^ n) w)) = ApplicationPhaseRunning"
proof (induction n arbitrary: w)
  case (Suc n)
  let ?w = "after_run k reg req w"
  have again: "(after_run k reg req ^^ Suc n) w = (after_run k reg req ^^ n) ?w"
    by (simp only: funpow_Suc_right comp_apply)
  from after_run_coop [OF assms(1) Suc.prems(1) assms(2)]
  have r: "runnable k req (stored ?w)" and s: "settles k stored delay w ?w" by simp_all
  show ?case
  proof (cases "work_left k stored delay w = 0")
    case True
    with s have zero: "work_left k stored delay ?w = 0" "app_phase (stored ?w) = ApplicationPhaseRunning"
      by (simp_all add: settles_def)
    with Suc.IH [OF r] show ?thesis unfolding again by (cases n) simp_all
  next
    case False
    show ?thesis
    proof (cases "?w = w")
      case True
      then have "(after_run k reg req ^^ m) w = w" for m by (induction m) simp_all
      with s False True show ?thesis by (simp add: settles_def)
    next
      case moved: False
      with s False have "work_left k stored delay ?w < work_left k stored delay w"
        by (simp add: settles_def)
      with Suc.IH [OF r] Suc.prems(2) show ?thesis unfolding again by simp
    qed
  qed
qed simp

lemma runs_stay_runnable:
  assumes "cooperative k stored delay present" "GetAppBuilderStrategy reg ''operator'' = Some RuntimeBuilderStrategy"
    and "runnable k req (stored w)"
  shows "runnable k req (stored ((after_run k reg req ^^ n) w))"
  by (induction n) (use after_run_coop [OF assms(1) _ assms(2)] assms(3) in simp_all)

text \<open>
  C1. On a cooperative cluster the controller gets an accepted application to Running, from whatever
  phase it finds it in, in at most two runs more than its workloads take reads to get rolled out, and
  keeps it there; no run on the way, or after, ends with an error. The workloads that the health check
  finds are the ones that the run has applied.
\<close>

theorem accepted_application_converges:
  assumes "cooperative k stored delay present" "runnable k req (stored w)"
    and "GetAppBuilderStrategy reg ''operator'' = Some RuntimeBuilderStrategy"
  shows "(\<forall>n \<ge> delay w + 2. app_phase (stored ((after_run k reg req ^^ n) w)) = ApplicationPhaseRunning) \<and>
    (\<forall>n. \<exists>res st' w'. Reconcile k reg (nn_namespace req) req ((after_run k reg req ^^ n) w)
       = Inr (((res, None), st'), w'))"
proof (intro conjI allI impI)
  fix n
  assume "delay w + 2 \<le> n"
  then have "work_left k stored delay w < n" by (simp add: work_left_def)
  then show "app_phase (stored ((after_run k reg req ^^ n) w)) = ApplicationPhaseRunning"
    by (rule runs_settle [OF assms(1,3,2)])
next
  fix n
  have "runnable k req (stored ((after_run k reg req ^^ n) w))"
    by (rule runs_stay_runnable [OF assms(1,3,2)])
  then show "\<exists>res st' w'. Reconcile k reg (nn_namespace req) req ((after_run k reg req ^^ n) w)
       = Inr (((res, None), st'), w')"
    using Reconcile_coop [OF assms(1) _ assms(3)] by metis
qed

text \<open>
  A cluster that cooperates: one stored application, the objects that were created, and workloads with one
  of three replicas ready for a number of reads. An object that was not created is not found.
\<close>

record settlingWorld =
  sw_app :: appDef
  sw_delay :: nat
  sw_objects :: "(gvk \<times> nsname) list"

abbreviation sw_present :: "settlingWorld \<Rightarrow> (gvk \<times> nsname) set" where
  "sw_present w \<equiv> set (sw_objects w)"

definition settling_workload :: "raw \<Rightarrow> kobject" where
  "settling_workload u =
     ready_workload\<lparr>ko_body := StatefulSet (example_sts_spec 3 0)
       (example_sts_status (if u = ''ready'' then 3 else 1) 3 3)\<rparr>"

definition settling_cluster :: "settlingWorld cluster" where
  "settling_cluster = bare_cluster
     \<lparr>kc_get_app := \<lambda>key w. (Inr (sw_app w), w),
      kc_update_app := \<lambda>app w. (Inr app, w\<lparr>sw_app := app\<rparr>),
      kc_status_update := \<lambda>app w. (Inr app, w\<lparr>sw_app := app\<rparr>),
      kc_create_if_not_exist := \<lambda>obj w.
        (let id = (example_gvk (ko_apiVersion obj) (ko_kind obj), object_key obj)
         in (Inr (id \<notin> sw_present w), w\<lparr>sw_objects := id # sw_objects w\<rparr>)),
      kc_get_unstructured := \<lambda>g key w.
        (if (g, key) \<in> sw_present w
         then (Inr (if sw_delay w = 0 then ''ready'' else []), w\<lparr>sw_delay := sw_delay w - 1\<rparr>)
         else (Inl not_found_error, w)),
      lib_from_unstructured := \<lambda>u g. Inr (settling_workload u),
      lib_unmarshal := \<lambda>properties. Inr example_config\<rparr>"

lemma settling_reads: "cooperative_reads settling_cluster sw_app sw_delay sw_present"
proof -
  have "ko_body (settling_workload u) = StatefulSet (example_sts_spec 3 0)
      (example_sts_status (if u = ''ready'' then 3 else 1) 3 3)" for u by (simp add: settling_workload_def)
  moreover have "sensible_counts (example_sts_spec 3 0)"
    by (simp add: sensible_counts_def example_sts_spec_def rollout_partition_def)
  moreover have "statefulset_ready (ko_meta (settling_workload ''ready'')) (example_sts_spec 3 0) (example_sts_status 3 3 3)"
    by (simp add: statefulset_ready_def settling_workload_def ready_workload_def example_sts_spec_def
        example_sts_status_def empty_meta_def Let_def)
  ultimately show ?thesis
    unfolding cooperative_reads_def
    by (auto simp: settling_cluster_def bare_cluster_def quiet_call_def)
qed

lemma settling_cooperative: "cooperative settling_cluster sw_app sw_delay sw_present"
proof -
  have "cooperative_writes settling_cluster sw_app sw_delay"
    by (simp add: cooperative_writes_def settling_cluster_def)
  moreover have "cooperative_objects settling_cluster sw_app sw_delay sw_present"
    by (auto simp: cooperative_objects_def settling_cluster_def bare_cluster_def quiet_call_def object_id_def
        object_gvk_def Let_def)
  moreover have "owner_ref_law settling_cluster" "gvk_law settling_cluster" "finalizer_law settling_cluster"
    "range_law settling_cluster"
    using bare_laws bare_gvk_law
    by (simp_all add: owner_ref_law_def gvk_law_def finalizer_law_def range_law_def settling_cluster_def)
  ultimately show ?thesis using settling_reads by (simp add: cooperative_def)
qed

lemma example_accepted:
  assumes "lib_unmarshal k = (\<lambda>properties. Inr example_config)"
  shows "component_accepted k example_component"
proof -
  have "DeriveResourceName ''web'' = ''web''" by code_simp
  with assms show ?thesis
    using example_config_valid
    by (simp add: component_accepted_def UnmarshalAppSpecificConfig_def runtime_accepts_def
        service_account_named_def example_config_def) (simp add: example_component_def)
qed

lemma settling_runnable: "runnable settling_cluster (NsName ''default'' ''shop'') example_app"
proof -
  have "DeriveResourceName ''web'' = ''web''" by code_simp
  then show ?thesis
    using example_accepted [of settling_cluster]
    by (simp add: runnable_def example_app_def app_key_def app_namespace_def app_name_def is_suspended_def
        empty_meta_def settling_cluster_def) (simp add: example_component_def)
qed

theorem accepted_application_converges_witness:
  "app_phase (sw_app ((after_run settling_cluster example_registry (NsName ''default'' ''shop'') ^^ 5)
     \<lparr>sw_app = example_app, sw_delay = 3, sw_objects = []\<rparr>)) = ApplicationPhaseRunning"
proof -
  let ?w = "\<lparr>sw_app = example_app, sw_delay = 3, sw_objects = []\<rparr>"
  have run: "runnable settling_cluster (NsName ''default'' ''shop'') (sw_app ?w)" by (simp add: settling_runnable)
  have reg: "GetAppBuilderStrategy example_registry ''operator'' = Some RuntimeBuilderStrategy"
    by (simp add: GetAppBuilderStrategy_def example_registry_def)
  from accepted_application_converges [OF settling_cooperative run reg] show ?thesis by simp
qed

end
