(* ===== verification/Histories.thy ===== *)
theory Histories
  imports Examples
begin

text \<open>
  The statuses over time: any number of runs, on any application, between changes that others make.
  \<open>seen w\<close> is the set of the statuses that the API server has held so far; a read may be stale, and
  returns one of them. Every status that the controller ever writes is consistent with itself:
  the components sorted, each once, one condition of each type, and the ready condition true in the
  phase Running and in no other.
\<close>

definition consistent_status :: "applicationStatus \<Rightarrow> bool" where
  "consistent_status s \<longleftrightarrow>
     sorted (map cs_name (st_components s)) \<and> distinct (map cs_name (st_components s)) \<and>
     distinct (map cond_type (st_conditions s)) \<and>
     (st_phase s = ApplicationPhaseUnset \<or> cond_of (st_conditions s) ConditionReady \<noteq> None) \<and>
     (st_phase s = ApplicationPhaseRunning \<longleftrightarrow>
       (\<exists>c. cond_of (st_conditions s) ConditionReady = Some c \<and> cond_status c = ConditionTrue))"

definition all_consistent :: "('w \<Rightarrow> applicationStatus set) \<Rightarrow> 'w \<Rightarrow> bool" where
  "all_consistent seen w \<longleftrightarrow> (\<forall>s \<in> seen w. consistent_status s)"

lemma empty_status_consistent [simp]: "consistent_status empty_status"
  by (simp add: consistent_status_def empty_status_def cond_of_def)

subsection \<open>What the API does to the statuses\<close>

text \<open>
  Only an accepted status update adds a status, besides the applications that others create
  meanwhile, whose status is empty. A plain update does not touch the status: it is a subresource.
\<close>

definition others_create :: "('w \<Rightarrow> applicationStatus set) \<Rightarrow> 'w \<Rightarrow> 'w \<Rightarrow> bool" where
  "others_create seen w w' \<longleftrightarrow> seen w \<subseteq> seen w' \<and> seen w' \<subseteq> insert empty_status (seen w)"

definition object_calls_keep :: "'w cluster \<Rightarrow> ('w \<Rightarrow> 'w \<Rightarrow> bool) \<Rightarrow> bool" where
  "object_calls_keep k R \<longleftrightarrow>
     (\<forall>key w. R w (snd (kc_get_service k key w))) \<and>
     (\<forall>key w. R w (snd (kc_get_endpoints k key w))) \<and>
     (\<forall>g key w. R w (snd (kc_get_unstructured k g key w))) \<and>
     (\<forall>obj w. R w (snd (kc_create_if_not_exist k obj w))) \<and>
     (\<forall>obj w. R w (snd (kc_reconcile_resource k obj w))) \<and>
     (\<forall>ns l w. R w (snd (kc_list_pvcs k ns l w))) \<and>
     (\<forall>pvc w. R w (snd (kc_delete_pvc k pvc w))) \<and>
     (\<forall>kind ns l w. R w (snd (kc_delete_all_of k kind ns l w)))"

lemma object_calls_keep_mono:
  "object_calls_keep k R \<Longrightarrow> (\<And>w w'. R w w' \<Longrightarrow> R' w w') \<Longrightarrow> object_calls_keep k R'"
  by (simp add: object_calls_keep_def)

definition status_history :: "'w cluster \<Rightarrow> ('w \<Rightarrow> applicationStatus set) \<Rightarrow> bool" where
  "status_history k seen \<longleftrightarrow>
     object_calls_keep k (others_create seen) \<and>
     (\<forall>key w r w'. kc_get_app k key w = (r, w') \<longrightarrow>
        others_create seen w w' \<and> (\<forall>app. r = Inr app \<longrightarrow> ad_status app \<in> seen w')) \<and>
     (\<forall>app w r w'. kc_update_app k app w = (r, w') \<longrightarrow>
        others_create seen w w' \<and> (\<forall>app'. r = Inr app' \<longrightarrow> ad_status app' \<in> seen w')) \<and>
     (\<forall>app w e w'. kc_status_update k app w = (Inl e, w') \<longrightarrow> others_create seen w w') \<and>
     (\<forall>app w app' w'. kc_status_update k app w = (Inr app', w') \<longrightarrow>
        (\<exists>w1. others_create seen w w1 \<and> seen w' = insert (ad_status app) (seen w1)) \<and>
        ad_status app' = ad_status app)"

lemma others_create_consistent:
  "others_create seen w w' \<Longrightarrow> all_consistent seen w \<Longrightarrow> all_consistent seen w'"
  by (auto simp: others_create_def all_consistent_def)

text \<open>The calls as steps that keep an invariant of the world.\<close>

definition calls_keep :: "'w cluster \<Rightarrow> ('w \<Rightarrow> bool) \<Rightarrow> bool" where
  "calls_keep k I \<longleftrightarrow> object_calls_keep k (\<lambda>w w'. I w \<longrightarrow> I w')"

lemma call_keeps:
  assumes "calls_keep k I"
  shows "kc_get_service k key w = (r1, w') \<Longrightarrow> I w \<Longrightarrow> I w'"
    "kc_get_endpoints k key w = (r2, w') \<Longrightarrow> I w \<Longrightarrow> I w'"
    "kc_get_unstructured k g key w = (r3, w') \<Longrightarrow> I w \<Longrightarrow> I w'"
    "kc_create_if_not_exist k obj w = (r4, w') \<Longrightarrow> I w \<Longrightarrow> I w'"
    "kc_reconcile_resource k obj w = (r4, w') \<Longrightarrow> I w \<Longrightarrow> I w'"
    "kc_list_pvcs k ns l w = (r5, w') \<Longrightarrow> I w \<Longrightarrow> I w'"
    "kc_delete_pvc k key w = (r6, w') \<Longrightarrow> I w \<Longrightarrow> I w'"
    "I w \<Longrightarrow> I (snd (kc_delete_all_of k kind ns l w))"
  using assms unfolding calls_keep_def object_calls_keep_def by (metis snd_conv)+

lemma status_history_calls:
  assumes "status_history k seen"
  shows "calls_keep k (all_consistent seen)"
proof -
  from assms have "object_calls_keep k (others_create seen)" by (simp add: status_history_def)
  then show ?thesis
    unfolding calls_keep_def by (rule object_calls_keep_mono) (simp add: others_create_consistent)
qed

lemma app_calls:
  assumes "status_history k seen" "all_consistent seen w"
  shows "kc_get_app k key w = (r, w') \<Longrightarrow>
      all_consistent seen w' \<and> (\<forall>app. r = Inr app \<longrightarrow> consistent_status (ad_status app))"
    "kc_update_app k app w = (r, w') \<Longrightarrow>
      all_consistent seen w' \<and> (\<forall>app'. r = Inr app' \<longrightarrow> consistent_status (ad_status app'))"
    "kc_status_update k app w = (r, w') \<Longrightarrow> consistent_status (ad_status app) \<Longrightarrow>
      all_consistent seen w' \<and> (\<forall>app'. r = Inr app' \<longrightarrow> consistent_status (ad_status app'))"
proof -
  note d = assms(1) [unfolded status_history_def]
  note grow = others_create_consistent [OF _ assms(2)]
  show "all_consistent seen w' \<and> (\<forall>app. r = Inr app \<longrightarrow> consistent_status (ad_status app))"
    if "kc_get_app k key w = (r, w')"
  proof -
    from d that have "others_create seen w w' \<and> (\<forall>app. r = Inr app \<longrightarrow> ad_status app \<in> seen w')" by blast
    with grow show ?thesis by (auto simp: all_consistent_def)
  qed
  show "all_consistent seen w' \<and> (\<forall>app'. r = Inr app' \<longrightarrow> consistent_status (ad_status app'))"
    if "kc_update_app k app w = (r, w')"
  proof -
    from d that have "others_create seen w w' \<and> (\<forall>app. r = Inr app \<longrightarrow> ad_status app \<in> seen w')" by blast
    with grow show ?thesis by (auto simp: all_consistent_def)
  qed
  show "all_consistent seen w' \<and> (\<forall>app'. r = Inr app' \<longrightarrow> consistent_status (ad_status app'))"
    if u: "kc_status_update k app w = (r, w')" and c: "consistent_status (ad_status app)"
  proof (cases r)
    case (Inl e)
    with d u have "others_create seen w w'" by blast
    with grow Inl show ?thesis by simp
  next
    case (Inr app')
    with d u obtain w1 where "others_create seen w w1" "seen w' = insert (ad_status app) (seen w1)"
      "ad_status app' = ad_status app" by blast
    with grow [of w1] c Inr show ?thesis by (simp add: all_consistent_def)
  qed
qed

subsection \<open>The work on objects keeps an invariant of the world\<close>

lemma reconcile_attempts_keeps:
  assumes "calls_keep k I"
  shows "reconcile_attempts k obj n w = (r, w') \<Longrightarrow> I w \<Longrightarrow> I w'"
  by (induction n arbitrary: w)
    (auto dest: call_keeps(5) [OF assms] split: prod.splits sum.splits if_splits)

lemma ApplyObjectV2_keeps:
  assumes "calls_keep k I" "ApplyObjectV2 k obj fm w = (r, w')"
  shows "I w \<Longrightarrow> I w'"
  using assms(2)
  by (auto simp: ApplyObjectV2_def split: if_splits prod.splits sum.splits bool.splits option.splits
      dest: call_keeps(4) [OF assms(1)] reconcile_attempts_keeps [OF assms(1)])

lemma preserve_cluster_ip_keeps:
  assumes "calls_keep k I" "preserve_cluster_ip k obj w = (r, w')"
  shows "I w \<Longrightarrow> I w'"
  using assms(2)
  by (auto simp: preserve_cluster_ip_def split: objectBody.splits prod.splits sum.splits if_splits
      dest: call_keeps(1) [OF assms(1)])

lemma apply_object_keeps:
  assumes "calls_keep k I" "apply_object k obj fe st w = (r, w')"
  shows "I w \<Longrightarrow> I w'"
  using assms(2)
  by (auto simp: apply_object_def Let_def split: prod.splits sum.splits
      dest: preserve_cluster_ip_keeps [OF assms(1)] ApplyObjectV2_keeps [OF assms(1)])

lemma apply_objects_keeps:
  assumes "calls_keep k I"
  shows "apply_objects k done todo fe st w = (r, w') \<Longrightarrow> I w \<Longrightarrow> I w'"
proof (induction todo arbitrary: "done" fe st w)
  case (Cons obj objs)
  obtain stop fe1 obj1 st1 w1 where one: "apply_object k obj fe st w = (((stop, fe1), obj1, st1), w1)"
    by (metis surj_pair)
  with apply_object_keeps [OF assms one] Cons show ?case by (auto split: if_splits)
qed simp

lemma applyResources_keeps:
  assumes "calls_keep k I" "applyResources k st w = (r, w')"
  shows "I w \<Longrightarrow> I w'"
  using assms(2) apply_objects_keeps [OF assms(1)]
  by (fastforce simp: applyResources_def split: if_splits prod.splits bool.splits)

lemma CheckHealth_keeps:
  assumes "calls_keep k I" "CheckHealth k ns n av kd w = (r, w')"
  shows "I w \<Longrightarrow> I w'"
proof -
  have service: "checkServiceHealth k key spec ing w1 = (r, w') \<Longrightarrow> I w1 \<Longrightarrow> I w'" for key spec ing w1 r w'
    by (auto simp: checkServiceHealth_def split: if_splits prod.splits sum.splits
        dest: call_keeps(2) [OF assms(1)])
  have typed: "check_typed k kd g obj w1 = (r, w') \<Longrightarrow> I w1 \<Longrightarrow> I w'" for g obj w1 r w'
    by (cases "ko_body obj") (auto simp: check_typed_def dest: service)
  show "I w \<Longrightarrow> I w'"
    using assms(2)
    by (auto simp: CheckHealth_def Let_def split: prod.splits sum.splits option.splits
        dest: call_keeps(3) [OF assms(1)] typed)
qed

lemma check_component_keeps:
  assumes "calls_keep k I" "check_component k app n cs w = (r, w')"
  shows "I w \<Longrightarrow> I w'"
proof (cases "as_components (ad_spec app)")
  case Nil
  with assms(2) show "I w \<Longrightarrow> I w'" by (simp add: check_component_def)
next
  case (Cons spec rest)
  obtain a b h w1 where c: "CheckHealth k (app_namespace app) n (ac_apiVersion spec) (ac_kind spec) w = ((a, b, h), w1)"
    by (metis surj_pair)
  with Cons assms(2) have "w' = w \<or> w' = w1"
    by (cases h) (auto simp: check_component_def Let_def split: if_splits)
  with CheckHealth_keeps [OF assms(1) c] show "I w \<Longrightarrow> I w'" by auto
qed

lemma check_components_keeps:
  assumes "calls_keep k I"
  shows "check_components k app names v m w = (r, w') \<Longrightarrow> I w \<Longrightarrow> I w'"
proof (induction names arbitrary: v m w)
  case (Cons n names)
  show ?case
  proof (cases "map_of m n")
    case (Some cs)
    obtain cs1 v1 w1 where one: "check_component k app n cs w = ((cs1, v1), w1)" by (metis surj_pair)
    with Cons.prems Some have "check_components k app names (combine v v1) (AList.update n cs1 m) w1 = (r, w')"
      by simp
    with Cons.IH check_component_keeps [OF assms one] Cons.prems(2) show ?thesis by blast
  qed (use Cons in simp)
qed simp

lemma apply_and_judge_keeps:
  assumes "calls_keep k I" "apply_and_judge k st w = (r, w')"
  shows "I w \<Longrightarrow> I w'"
  using assms(2)
  by (auto simp: apply_and_judge_def checkHealthAndCalculateStatus_def Let_def
      split: prod.splits option.splits
      dest: applyResources_keeps [OF assms(1)] check_components_keeps [OF assms(1)])

lemma collect_kinds_keeps:
  assumes "calls_keep k I"
  shows "I w \<Longrightarrow> I (collect_kinds k app kinds w)"
  by (induction kinds arbitrary: w) (simp_all add: call_keeps(8) [OF assms])

lemma cleanup_pvcs_keeps:
  assumes "calls_keep k I" "cleanup_pvcs k app w = (r, w')"
  shows "I w \<Longrightarrow> I w'"
proof -
  have "delete_pvcs k pvcs w1 = (r, w') \<Longrightarrow> I w1 \<Longrightarrow> I w'" for pvcs w1 r w'
    by (induction pvcs arbitrary: w1)
      (auto split: prod.splits option.splits if_splits dest: call_keeps(7) [OF assms(1)])
  with assms(2) show "I w \<Longrightarrow> I w'"
    by (auto simp: cleanup_pvcs_def split: prod.splits sum.splits dest: call_keeps(6) [OF assms(1)])
qed

subsection \<open>The writes keep the statuses consistent\<close>

context conflict_retry
begin

text \<open>A relation of the world and the object that reads, writes and the preparation keep.\<close>

lemma loop_relates:
  assumes "\<And>app w r w'. R w app \<Longrightarrow> write app w = (r, w') \<Longrightarrow>
      R w' (case r of Inl e \<Rightarrow> app | Inr app' \<Rightarrow> app')"
    and "\<And>app w r w'. R w app \<Longrightarrow> fetch (app_key app) w = (r, w') \<Longrightarrow>
      R w' (case r of Inl e \<Rightarrow> app | Inr fresh \<Rightarrow> prepare fresh)"
  shows "loop n app w = ((res, app'), w') \<Longrightarrow> R w app \<Longrightarrow> R w' app'"
proof (induction n arbitrary: app w)
  case 0
  then show ?case by (simp add: loop_0)
next
  case (Suc n)
  obtain r w1 where wr: "write app w = (r, w1)" by fastforce
  note kept = assms(1) [OF Suc.prems(2) wr]
  show ?case
  proof (cases r)
    case (Inr a)
    with wr Suc.prems(1) kept show ?thesis by (auto simp: loop_written)
  next
    case (Inl e)
    obtain r2 w2 where rd: "fetch (app_key app) w1 = (r2, w2)" by fastforce
    from kept Inl have "R w1 app" by simp
    note read = assms(2) [OF this rd]
    show ?thesis
    proof (cases "is_conflict e")
      case False
      with wr Inl Suc.prems kept show ?thesis by (auto simp: loop_stopped)
    next
      case True
      with wr Inl rd Suc read show ?thesis
        by (cases r2) (auto simp: loop_fetch_failed loop_again)
    qed
  qed
qed

text \<open>An invariant of the world and a property of the object.\<close>

lemma loop_keeps:
  assumes "\<And>app w r w'. J w \<Longrightarrow> P app \<Longrightarrow> write app w = (r, w') \<Longrightarrow> J w' \<and> (\<forall>app'. r = Inr app' \<longrightarrow> P app')"
    and "\<And>key w r w'. J w \<Longrightarrow> fetch key w = (r, w') \<Longrightarrow> J w' \<and> (\<forall>fresh. r = Inr fresh \<longrightarrow> P (prepare fresh))"
    and "loop n app w = ((res, app'), w')" "J w" "P app"
  shows "J w' \<and> P app'"
proof (rule loop_relates [OF _ _ assms(3), where R = "\<lambda>w a. J w \<and> P a"])
  show "J w' \<and> P (case r of Inl e \<Rightarrow> app | Inr a \<Rightarrow> a)"
    if "J w \<and> P app" "write app w = (r, w')" for app w r w'
    using assms(1) [of w app r w'] that by (cases r) auto
  show "J w' \<and> P (case r of Inl e \<Rightarrow> app | Inr fresh \<Rightarrow> prepare fresh)"
    if "J w \<and> P app" "fetch (app_key app) w = (r, w')" for app w r w'
    using assms(2) [of w "app_key app" r w'] that by (cases r) auto
qed (use assms(4,5) in blast)

end

abbreviation consistent_app :: "appDef \<Rightarrow> bool" where
  "consistent_app app \<equiv> consistent_status (ad_status app)"

text \<open>Setting the ready condition together with the phase keeps a status consistent.\<close>

lemma consistent_status_generation [simp]:
  "consistent_status (s\<lparr>st_observedGeneration := g\<rparr>) = consistent_status s"
  by (simp add: consistent_status_def)

lemma same_but_generation_consistent:
  "same_but_generation s t \<Longrightarrow> consistent_status s \<Longrightarrow> consistent_status t"
  unfolding same_but_generation_def by (metis consistent_status_generation)

definition distinct_conditions :: "appDef \<Rightarrow> bool" where
  "distinct_conditions app \<longleftrightarrow> distinct (map cond_type (st_conditions (ad_status app)))"

lemma ready_set_consistent:
  assumes "condition_law k"
    and "sorted (map cs_name (st_components (ad_status app)))" "distinct (map cs_name (st_components (ad_status app)))"
    and "distinct_conditions app"
    and "(app_phase app = ApplicationPhaseRunning) = (cst = ConditionTrue)"
  shows "consistent_app (setCondition k (mk_condition ConditionReady cst reason msg) app)"
proof -
  let ?c = "mk_condition ConditionReady cst reason msg" and ?cs = "st_conditions (ad_status app)"
  from condition_lawD [OF assms(1), of ?cs ?c] obtain c' where
    c': "cond_of (lib_set_condition k ?cs ?c) ConditionReady = Some c'" "cond_status c' = cst"
    by (metis mk_condition_simps(1,2) same_condition_def)
  moreover have "distinct (map cond_type (lib_set_condition k ?cs ?c))"
    using assms(1,4) by (simp add: condition_law_def distinct_conditions_def)
  ultimately show ?thesis
    using assms(2,3,5) by (simp add: consistent_status_def setCondition_def app_phase_def)
qed

lemma phase_set_parts:
  "st_components (ad_status (set_phase p app)) = st_components (ad_status app)"
  "distinct_conditions (set_phase p app) = distinct_conditions app"
  "app_phase (set_phase p app) = p"
  by (simp_all add: distinct_conditions_def app_phase_def)

lemma consistent_app_parts:
  assumes "consistent_app app"
  shows "sorted (map cs_name (st_components (ad_status app)))"
    "distinct (map cs_name (st_components (ad_status app)))" "distinct_conditions app"
  using assms by (simp_all add: consistent_status_def distinct_conditions_def)

lemma start_processing_consistent:
  "condition_law k \<Longrightarrow> consistent_app app \<Longrightarrow> consistent_app (start_processing k app)"
  unfolding start_processing_def
  by (rule ready_set_consistent) (simp_all add: phase_set_parts consistent_app_parts)

lemma finalizer_consistent:
  "consistent_app (add_finalizer k app) = consistent_app app"
  "consistent_app (remove_finalizer k app) = consistent_app app"
  by (simp_all add: add_finalizer_def remove_finalizer_def)

lemma finalizer_loops_consistent:
  assumes "status_history k seen" "all_consistent seen w" "consistent_app a"
  shows "add_finalizer_loop k n a w = ((res, a'), w') \<Longrightarrow> all_consistent seen w' \<and> consistent_app a'"
    "remove_finalizer_loop k n a w = ((res, a'), w') \<Longrightarrow> all_consistent seen w' \<and> consistent_app a'"
proof -
  note calls = app_calls(1,2) [OF assms(1)] and prep = finalizer_consistent
  show "all_consistent seen w' \<and> consistent_app a'" if "add_finalizer_loop k n a w = ((res, a'), w')"
    by (rule finalizer_adding.loop_keeps [where J = "all_consistent seen" and P = "\<lambda>a. consistent_app a", OF _ _ that assms(2,3)]) (use calls prep in blast)+
  show "all_consistent seen w' \<and> consistent_app a'" if "remove_finalizer_loop k n a w = ((res, a'), w')"
    by (rule finalizer_removal.loop_keeps [where J = "all_consistent seen" and P = "\<lambda>a. consistent_app a", OF _ _ that assms(2,3)]) (use calls prep in blast)+
qed

lemma handleFinalizer_consistent:
  assumes h: "status_history k seen"
    and run: "handleFinalizer k app w = ((out, app'), w')"
    and start: "all_consistent seen w" "consistent_app app"
  shows "all_consistent seen w' \<and> consistent_app app'"
proof -
  obtain ar a1 w1 where add: "add_finalizer_loop k max_attempts (add_finalizer k app) w = ((ar, a1), w1)"
    by (metis surj_pair)
  obtain ce w2 where c: "cleanup_pvcs k app w = (ce, w2)" by fastforce
  obtain rr a3 w3 where rem: "remove_finalizer_loop k max_attempts (remove_finalizer k app) w2 = ((rr, a3), w3)"
    by (metis surj_pair)
  note w2 = cleanup_pvcs_keeps [OF status_history_calls [OF h] c start(1)]
  have "all_consistent seen w1 \<and> consistent_app a1" "all_consistent seen w3 \<and> consistent_app a3"
    using finalizer_loops_consistent [OF h] add rem w2 start finalizer_consistent by blast+
  moreover have "app' = app \<and> w' \<in> {w, w2} \<or> app' = a1 \<and> w' = w1 \<or> app' = a3 \<and> w' = w3"
    using run add c rem
    by (cases ar; cases ce; cases rr) (auto simp: handleFinalizer_def split: if_splits)
  ultimately show ?thesis using w2 start by auto
qed

text \<open>The two loops of the status: what is wanted is consistent, so what is stored is.\<close>

lemma initial_phase_loop_consistent:
  assumes "status_history k seen" "condition_law k" "all_consistent seen w" "consistent_app a"
    and "initial_phase_loop k n a w = ((res, a'), w')"
  shows "all_consistent seen w' \<and> consistent_app a'"
  by (rule initial_phase.loop_keeps [where J = "all_consistent seen" and P = "\<lambda>a. consistent_app a", OF _ _ assms(5,3,4)])
    (use app_calls(1,3) [OF assms(1)] start_processing_consistent [OF assms(2)] in blast)+

lemma status_update_loop_consistent:
  assumes "status_history k seen" "consistent_status desired" "all_consistent seen w" "consistent_app a"
    and "status_update_loop k desired n a w = ((res, a'), w')"
  shows "all_consistent seen w' \<and> consistent_app a'"
proof (rule status_write.loop_keeps [where J = "all_consistent seen" and P = "\<lambda>a. consistent_app a", OF _ _ assms(5,3,4)])
  have "consistent_app (reapply_status desired fresh)" for fresh
    using assms(2) by (simp add: reapply_status_def)
  then show "all_consistent seen w' \<and> (\<forall>fresh. r = Inr fresh \<longrightarrow> consistent_app (reapply_status desired fresh))"
    if "all_consistent seen w" "kc_get_app k key w = (r, w')" for key w r w'
    using app_calls(1) [OF assms(1) that] by blast
qed (use app_calls(3) [OF assms(1)] in blast)

lemma updateStatusIfNeeded_consistent:
  assumes "status_history k seen" "updateStatusIfNeeded k app orig w = ((out, app'), w')"
    and "all_consistent seen w" "consistent_app app"
  shows "all_consistent seen w' \<and> consistent_app app'"
proof -
  let ?app = "observe_generation app"
  have c: "consistent_app ?app" using assms(4) by simp
  obtain r a1 w1 where loop: "status_update_loop k (ad_status ?app) max_attempts ?app w = ((r, a1), w1)"
    by (metis surj_pair)
  have "app' = ?app \<and> w' = w \<or> app' = a1 \<and> w' = w1"
    using assms(2) loop
    by (cases r) (auto simp: updateStatusIfNeeded_def Let_def simp del: observe_generation_simps split: if_splits)
  with status_update_loop_consistent [OF assms(1) c assms(3) c loop] assms(3) c show ?thesis by auto
qed

subsection \<open>A run keeps the statuses consistent\<close>

text \<open>What the status of a run is made from.\<close>

definition writable :: "reconcileState \<Rightarrow> bool" where
  "writable st \<longleftrightarrow> distinct_conditions (rs_appDef st) \<and> statuses_ok (rs_componentStatuses st)"

lemma processing_writable:
  assumes "processComponentsAndBuildObjects k reg st = (r, st')" "writable st"
  shows "writable st'"
proof -
  obtain r1 st1 where run: "process_components k reg (as_components (ad_spec (rs_appDef st)))
      (st\<lparr>rs_desiredObjects := []\<rparr>) = (r1, st1)" by fastforce
  from process_components_carried [OF run] assms(2) have w1: "writable st1"
    using same_but_annotations_frame(6) by (auto simp: carried_def writable_def distinct_conditions_def)
  have pause: "rs_componentStatuses (snd (handlePauseResume st1)) = rs_componentStatuses st1 \<and>
      distinct_conditions (rs_appDef (snd (handlePauseResume st1))) = distinct_conditions (rs_appDef st1)"
    by (simp add: handlePauseResume_def distinct_conditions_def Let_def split: prod.splits)
  obtain e st2 where "handlePauseResume st1 = (e, st2)" by fastforce
  with assms(1) run have "st' = st1 \<or> st' = snd (handlePauseResume st1)"
    by (cases r1; cases e) (auto simp: processComponentsAndBuildObjects_def)
  with w1 pause show ?thesis by (auto simp: writable_def)
qed

lemma apply_and_judge_writable:
  assumes "apply_and_judge k st w = ((v, st'), w')" "writable st"
  shows "writable st'"
proof -
  obtain e st1 w1 where a: "applyResources k st w = ((e, st1), w1)" by (metis surj_pair)
  have k1: "statuses_ok (rs_componentStatuses st1)"
    using applyResources_kept [OF a] assms(2) by (simp add: kept_def writable_def)
  obtain v1 m w2 where c: "check_components k (rs_appDef st1)
      (lib_range k (map fst (rs_componentStatuses st1))) (True, False, None) (rs_componentStatuses st1) w1 = ((v1, m), w2)"
    by (metis surj_pair)
  have m: "statuses_ok m" using check_components_kept [OF c] k1 by simp
  have "rs_componentStatuses st' = m \<or>
      (\<exists>err. rs_componentStatuses st' = updateComponentStatusesForError (rs_componentStatuses st1) err)"
    using assms(1) a c
    by (cases e; cases "rs_firstError st1"; cases "snd (snd v1)")
      (auto simp: apply_and_judge_def checkHealthAndCalculateStatus_def Let_def split: prod.splits)
  with m k1 have "statuses_ok (rs_componentStatuses st')" by (auto intro: statuses_ok_for_error)
  with apply_and_judge_app [OF assms(1)] assms(2) show ?thesis by (simp add: writable_def)
qed

lemma conclude_consistent:
  assumes "condition_law k" "range_law k" "writable st"
  shows "consistent_app (rs_appDef (conclude k r st))"
proof -
  let ?d = "rs_appDef (determineFinalPhase k r st)"
  note slice = slice_props [OF _ assms(2), of "rs_componentStatuses st"]
  have "distinct_conditions ?d"
    using assms(1,3)
    by (auto simp: determineFinalPhase_def distinct_conditions_def writable_def condition_law_def Let_def
        split: option.splits)
  moreover have "app_phase (rs_appDef (conclude k r st)) = app_phase ?d"
    by (simp add: conclude_simps determineFinalPhase_phase)
  ultimately show ?thesis
    using determineFinalPhase_condition [OF assms(1), of r st] slice assms(3)
    by (auto simp: consistent_status_def conclude_simps writable_def distinct_conditions_def app_phase_def)
qed

lemma finish_run_consistent:
  assumes "status_history k seen" "condition_law k" "range_law k"
    and "finish_run k r q st w = ((res, st'), w')" "writable st" "all_consistent seen w"
  shows "all_consistent seen w'"
proof -
  obtain out a w1 where u: "updateStatusIfNeeded k (rs_appDef (conclude k r st))
      (rs_originalStatus (conclude k r st)) w = ((out, a), w1)" by (metis surj_pair)
  from updateStatusIfNeeded_consistent [OF assms(1) u assms(6) conclude_consistent [OF assms(2,3,5)]]
    assms(4) u show ?thesis by (auto simp: finish_run_def Let_def split: prod.splits)
qed

lemma handleReconcileError_consistent:
  assumes "status_history k seen" "condition_law k" "range_law k"
    and "handleReconcileError k reason e st w = ((res, st'), w')" "writable st" "all_consistent seen w"
  shows "all_consistent seen w'"
proof -
  let ?m = "updateComponentStatusesForError (rs_componentStatuses st) e"
  let ?app = "setCondition k (mk_condition ConditionReady ConditionFalse reason (err_msg e))
    (with_status (\<lambda>s. s\<lparr>st_components := mapToSliceComponentStatus k ?m\<rparr>)
      (set_phase ApplicationPhaseFailed (rs_appDef st)))"
  obtain out a w1 where u: "updateStatusIfNeeded k ?app (rs_originalStatus st) w = ((out, a), w1)"
    by (metis surj_pair)
  have swap: "with_status (\<lambda>s. s\<lparr>st_components := x\<rparr>) (setCondition k c b) =
      setCondition k c (with_status (\<lambda>s. s\<lparr>st_components := x\<rparr>) b)" for x c b
    by (simp add: setCondition_def with_status_def)
  have "statuses_ok ?m" using assms(5) by (simp add: writable_def statuses_ok_for_error)
  from slice_props(2,3) [OF this assms(3)] have "consistent_app ?app"
    using assms(5)
    by (intro ready_set_consistent [OF assms(2)]) (simp_all add: writable_def distinct_conditions_def)
  from updateStatusIfNeeded_consistent [OF assms(1) u assms(6) this] assms(4) u show ?thesis
    by (auto simp: handleReconcileError_def swap Let_def split: prod.splits)
qed

lemma handleEmptyApp_consistent:
  assumes "status_history k seen" "condition_law k"
    and "handleEmptyApp k st w = ((res, st'), w')" "writable st" "all_consistent seen w"
  shows "all_consistent seen w'"
proof -
  let ?app = "setCondition k (mk_condition ConditionReady ConditionTrue ''NoComponentsDefined''
      ''Application has no components defined, orphaned resources cleaned up'')
    (with_status (\<lambda>s. s\<lparr>st_components := []\<rparr>) (set_phase ApplicationPhaseRunning (rs_appDef st)))"
  let ?w = "collect_kinds k (rs_appDef st) collected_kinds w"
  obtain out a w1 where u: "updateStatusIfNeeded k ?app (rs_originalStatus st) ?w = ((out, a), w1)"
    by (metis surj_pair)
  have w: "all_consistent seen ?w"
    by (rule collect_kinds_keeps [OF status_history_calls [OF assms(1)] assms(5)])
  have "consistent_app ?app"
    using assms(4)
    by (intro ready_set_consistent [OF assms(2)]) (simp_all add: writable_def distinct_conditions_def)
  from updateStatusIfNeeded_consistent [OF assms(1) u w this] assms(3) u show ?thesis
    by (auto simp: handleEmptyApp_def Let_def split: prod.splits)
qed

lemma run_components_consistent:
  assumes "status_history k seen" "condition_law k" "range_law k"
    and "run_components k reg st w = Inr ((res, st'), w')" "writable st" "all_consistent seen w"
  shows "all_consistent seen w'"
proof -
  obtain r st1 where p: "processComponentsAndBuildObjects k reg st = (r, st1)" by fastforce
  note st1 = processing_writable [OF p assms(5)]
  show ?thesis
  proof (cases r)
    case (ProcessFailed e)
    with assms(4) p have f: "handleReconcileError k ''ProcessingFailed'' e (st1\<lparr>rs_firstError := Some e\<rparr>) w = ((res, st'), w')"
      by (simp add: run_components_def)
    have "writable (st1\<lparr>rs_firstError := Some e\<rparr>)" using st1 by (simp add: writable_def)
    from handleReconcileError_consistent [OF assms(1-3) f this assms(6)] show ?thesis .
  next
    case Processed
    obtain ready q st2 w2 where j: "apply_and_judge k st1 w = (((ready, q), st2), w2)" by (metis surj_pair)
    with assms(4) p Processed have f: "finish_run k ready q st2 w2 = ((res, st'), w')"
      by (simp add: run_components_def)
    show ?thesis
      by (rule finish_run_consistent [OF assms(1-3) f apply_and_judge_writable [OF j st1]
            apply_and_judge_keeps [OF status_history_calls [OF assms(1)] j assms(6)]])
  qed (use assms(4) p in \<open>simp add: run_components_def\<close>)
qed

lemma setInitialPhase_consistent:
  assumes "status_history k seen" "condition_law k"
    and "setInitialPhase k st w = ((out, st'), w')" "all_consistent seen w" "consistent_app (rs_appDef st)"
  shows "all_consistent seen w' \<and> consistent_app (rs_appDef st') \<and>
    rs_componentStatuses st' = rs_componentStatuses st"
proof -
  obtain r a w1 where loop: "initial_phase_loop k max_attempts (start_processing k (rs_appDef st)) w = ((r, a), w1)"
    by (metis surj_pair)
  note kept = initial_phase_loop_consistent [OF assms(1,2,4) start_processing_consistent [OF assms(2,5)] loop]
  have "st' = st \<and> w' = w \<or>
      rs_appDef st' = a \<and> rs_componentStatuses st' = rs_componentStatuses st \<and> w' = w1"
    using assms(3) loop by (cases r) (auto simp: setInitialPhase_def Let_def split: if_splits)
  with kept assms(4,5) show ?thesis by auto
qed

lemma run_initialised_consistent:
  assumes "status_history k seen" "condition_law k" "range_law k"
    and "run_initialised k reg st w = Inr ((res, st'), w')"
    and "statuses_ok (rs_componentStatuses st)" "consistent_app (rs_appDef st)" "all_consistent seen w"
  shows "all_consistent seen w'"
proof -
  obtain del ferr app1 w1 where fin: "handleFinalizer k (rs_appDef st) w = (((del, ferr), app1), w1)"
    by (metis surj_pair)
  note f = handleFinalizer_consistent [OF assms(1) fin assms(7,6)]
  obtain up perr st2 w2 where ini: "setInitialPhase k (st\<lparr>rs_appDef := app1\<rparr>) w1 = (((up, perr), st2), w2)"
    by (metis surj_pair)
  have i: "all_consistent seen w2 \<and> consistent_app (rs_appDef st2) \<and>
      rs_componentStatuses st2 = rs_componentStatuses st"
    using setInitialPhase_consistent [OF assms(1,2) ini] f by simp
  then have "writable st2" using assms(5) consistent_app_parts(3) by (simp add: writable_def)
  moreover have "w' = w1 \<or> w' = w2 \<or> run_components k reg st2 w2 = Inr ((res, st'), w')"
    using assms(4) fin ini by (auto simp: run_initialised_def Let_def split: if_splits)
  ultimately show ?thesis
    using f i run_components_consistent [OF assms(1-3), of reg st2 w2 res st' w'] by auto
qed

lemma initialize_loop_statuses:
  "statuses_ok m \<Longrightarrow> statuses_ok (snd (initialize_loop comps names m))"
  by (induction comps arbitrary: names m) (simp_all add: statuses_ok_update initial_status_def)

lemma run_fetched_consistent:
  assumes "status_history k seen" "condition_law k" "range_law k"
    and "run_fetched k reg app w = Inr ((res, st'), w')" "consistent_app app" "all_consistent seen w"
  shows "all_consistent seen w'"
proof -
  obtain e m where ini: "initializeComponentStatuses (as_components (ad_spec app)) [] = (e, m)" by fastforce
  have "m = snd (initialize_loop (as_components (ad_spec app)) [] []) \<or>
      (\<exists>P. m = filter P (snd (initialize_loop (as_components (ad_spec app)) [] [])))"
    using ini by (auto simp: initializeComponentStatuses_def split: prod.splits option.splits)
  with initialize_loop_statuses [of "[]"] have m: "statuses_ok m"
    by (auto simp: statuses_ok_def [of "[]"] intro: statuses_ok_filter)
  let ?st = "(fresh_state app)\<lparr>rs_componentStatuses := m\<rparr>"
  have w: "writable ?st" using m assms(5) by (simp add: writable_def consistent_app_parts fresh_state_def)
  have f: "initializeComponentStatuses (as_components (ad_spec app)) (rs_componentStatuses (fresh_state app)) = (e, m)"
    using ini by (simp add: fresh_state_def)
  show ?thesis
  proof (cases e)
    case (Some err)
    with assms(4) f have "handleReconcileError k ''InitializationFailed'' err ?st w = ((res, st'), w')"
      by (simp add: run_fetched_def Let_def)
    from handleReconcileError_consistent [OF assms(1-3) this w assms(6)] show ?thesis .
  next
    case None
    show ?thesis
    proof (cases "as_components (ad_spec app) = []")
      case True
      with None assms(4) f have "handleEmptyApp k ?st w = ((res, st'), w')"
        by (simp add: run_fetched_def Let_def)
      from handleEmptyApp_consistent [OF assms(1,2) this w assms(6)] show ?thesis .
    next
      case False
      with None assms(4) f have "run_initialised k reg ?st w = Inr ((res, st'), w')"
        by (simp add: run_fetched_def Let_def)
      from run_initialised_consistent [OF assms(1-3) this _ _ assms(6)] m assms(5) show ?thesis
        by (simp add: fresh_state_def)
    qed
  qed
qed

lemma Reconcile_consistent:
  assumes "status_history k seen" "condition_law k" "range_law k"
    and "Reconcile k reg watched req w = Inr (out, w')" "all_consistent seen w"
  shows "all_consistent seen w'"
proof -
  obtain r w1 where rd: "kc_get_app k req w = (r, w1)" by fastforce
  note read = app_calls(1) [OF assms(1,5) rd]
  show ?thesis
  proof (cases "nn_namespace req \<noteq> watched")
    case True
    with assms(4,5) show ?thesis by (simp add: Reconcile_def)
  next
    case here: False
    show ?thesis
    proof (cases r)
      case (Inl e)
      with here rd read assms(4) show ?thesis by (auto simp: Reconcile_def)
    next
      case (Inr app)
      with here rd assms(4) obtain res st where "run_fetched k reg app w1 = Inr ((res, st), w')"
        by (auto simp: Reconcile_def split: sum.splits)
      from run_fetched_consistent [OF assms(1-3) this] read Inr show ?thesis by simp
    qed
  qed
qed

subsection \<open>Histories\<close>

text \<open>
  The operator starts in a world of \<open>init\<close>. Then it runs, for any request and in any order, and between
  the runs others do what \<open>others\<close> allows. What holds at the start and is kept by both holds always.
\<close>

inductive operator_worlds ::
    "'w cluster \<Rightarrow> builder_id registry \<Rightarrow> string \<Rightarrow> ('w \<Rightarrow> bool) \<Rightarrow> ('w \<Rightarrow> 'w \<Rightarrow> bool) \<Rightarrow> 'w \<Rightarrow> bool"
  for k reg watched init others where
  start: "init w \<Longrightarrow> operator_worlds k reg watched init others w"
| run: "operator_worlds k reg watched init others w \<Longrightarrow> Reconcile k reg watched req w = Inr (out, w') \<Longrightarrow>
    operator_worlds k reg watched init others w'"
| others: "operator_worlds k reg watched init others w \<Longrightarrow> others w w' \<Longrightarrow>
    operator_worlds k reg watched init others w'"

lemma operator_worlds_invariant:
  assumes "operator_worlds k reg watched init others w"
    and "\<And>w. init w \<Longrightarrow> I w"
    and "\<And>w req out w'. Reconcile k reg watched req w = Inr (out, w') \<Longrightarrow> I w \<Longrightarrow> I w'"
    and "\<And>w w'. others w w' \<Longrightarrow> I w \<Longrightarrow> I w'"
  shows "I w"
  using assms(1) by (induction rule: operator_worlds.induct) (auto intro: assms(2-4))

text \<open>Every status is empty at the start, and others write none.\<close>

definition operator_history ::
    "'w cluster \<Rightarrow> builder_id registry \<Rightarrow> string \<Rightarrow> ('w \<Rightarrow> applicationStatus set) \<Rightarrow> 'w \<Rightarrow> bool" where
  "operator_history k reg watched seen =
     operator_worlds k reg watched (\<lambda>w. seen w \<subseteq> {empty_status}) (others_create seen)"

lemma operator_history_consistent:
  assumes "status_history k seen" "condition_law k" "range_law k" "operator_history k reg watched seen w"
  shows "all_consistent seen w"
proof (rule operator_worlds_invariant [OF assms(4) [unfolded operator_history_def], where I = "all_consistent seen"])
  show "all_consistent seen w" if "seen w \<subseteq> {empty_status}" for w
    using that by (auto simp: all_consistent_def)
qed (rule Reconcile_consistent [OF assms(1-3)] others_create_consistent; assumption)+

subsection \<open>Properties\<close>

text \<open>
  C3. Every status that the API server ever holds is consistent: whatever the sequence of runs, with
  conflicts, stale reads and failures of any call, and whatever others do to the applications
  meanwhile, short of writing a status. Its component list is sorted and names each component once, it
  has one condition of each type, a ready condition once a phase is set, and this condition is true
  exactly in the phase Running.
\<close>

theorem every_stored_status_is_consistent:
  assumes "status_history k seen" "condition_law k" "range_law k"
    and "operator_history k reg watched seen w" "s \<in> seen w"
  shows "consistent_status s"
  using operator_history_consistent [OF assms(1-4)] assms(5) by (simp add: all_consistent_def)

text \<open>A cluster that keeps the statuses it has held.\<close>

definition logging_cluster :: "(appDef \<times> applicationStatus set) cluster" where
  "logging_cluster = bare_cluster
     \<lparr>kc_get_app := \<lambda>key w. (Inr (fst w), w),
      kc_update_app := \<lambda>app w.
        (let app' = app\<lparr>ad_status := ad_status (fst w)\<rparr> in (Inr app', (app', snd w))),
      kc_status_update := \<lambda>app w.
        (Inr app, (app, insert (ad_status (fst w)) (snd w)))\<rparr>"

abbreviation logged :: "appDef \<times> applicationStatus set \<Rightarrow> applicationStatus set" where
  "logged w \<equiv> insert (ad_status (fst w)) (snd w)"

lemma logging_laws:
  "status_history logging_cluster logged" "condition_law logging_cluster" "range_law logging_cluster"
proof -
  have same: "others_create logged w w" for w by (auto simp: others_create_def)
  have "object_calls_keep logging_cluster (others_create logged)"
    by (simp add: object_calls_keep_def logging_cluster_def bare_cluster_def same)
  then show "status_history logging_cluster logged"
    by (auto simp: status_history_def logging_cluster_def Let_def others_create_def)
  show "condition_law logging_cluster" "range_law logging_cluster"
    using bare_condition_law bare_laws by (simp_all add: logging_cluster_def condition_law_def range_law_def)
qed

lemma logging_run:
  obtains out w where
    "Reconcile logging_cluster example_registry ''default'' (NsName ''default'' ''shop'')
       (managed_app ApplicationPhaseUnset None, {}) = Inr (out, w)"
    "ad_status (fst w) = ad_status (start_processing logging_cluster (managed_app ApplicationPhaseUnset None))"
proof -
  let ?a = "managed_app ApplicationPhaseUnset None"
  have "\<exists>out w. Reconcile logging_cluster example_registry ''default'' (NsName ''default'' ''shop'') (?a, {}) = Inr (out, w) \<and>
      ad_status (fst w) = ad_status (start_processing logging_cluster ?a)"
    by (simp add: Reconcile_def run_fetched_def run_initialised_def handleFinalizer_def setInitialPhase_def
        initializeComponentStatuses_def has_finalizer_def max_attempts_def numeral_3_eq_3 Let_def
        logging_cluster_def bare_cluster_def managed_app_def example_app_def example_component_def
        fresh_state_def empty_status_def empty_meta_def app_phase_def)
  with that show thesis by blast
qed

theorem every_stored_status_is_consistent_witness:
  "consistent_status (ad_status (start_processing logging_cluster (managed_app ApplicationPhaseUnset None)))"
proof -
  let ?w0 = "(managed_app ApplicationPhaseUnset None, {} :: applicationStatus set)"
  obtain out w where run: "Reconcile logging_cluster example_registry ''default'' (NsName ''default'' ''shop'') ?w0 = Inr (out, w)"
    and s: "ad_status (fst w) = ad_status (start_processing logging_cluster (managed_app ApplicationPhaseUnset None))"
    by (rule logging_run)
  have "logged ?w0 \<subseteq> {empty_status}" by (simp add: managed_app_def empty_status_def)
  then have "operator_history logging_cluster example_registry ''default'' logged ?w0"
    unfolding operator_history_def by (rule operator_worlds.start)
  then have "operator_history logging_cluster example_registry ''default'' logged w"
    unfolding operator_history_def by (rule operator_worlds.run [OF _ run])
  then have "consistent_status (ad_status (fst w))"
    by (rule every_stored_status_is_consistent [OF logging_laws]) simp
  with s show ?thesis by simp
qed

end
