(* ===== verification/LifeCycles.thy ===== *)
theory LifeCycles
  imports Histories "HOL-Library.Sublist"
begin

text \<open>
  The phases of each application over time. \<open>past w key\<close> is the log of the statuses that the API
  server has held for the application \<open>key\<close>, the newest first. Every status that a run writes steps, by
  the life cycle of \<open>Phases\<close>, from a status that the log of the same application already holds: the
  one that the run has read. So every phase that is ever stored ends a history that starts with an empty
  status and is spread over the log, in its order.
\<close>

text \<open>An application without components is Running at once, from any phase.\<close>

definition life_step :: "applicationPhase \<Rightarrow> applicationPhase \<Rightarrow> bool" where
  "life_step p q \<longleftrightarrow> phase_step p q \<or> q = ApplicationPhaseRunning"

fun traced :: "applicationPhase list \<Rightarrow> bool" where
  "traced [] = True"
| "traced (q # ps) = ((q = ApplicationPhaseUnset \<or> (\<exists>p \<in> set ps. life_step p q)) \<and> traced ps)"

text \<open>Histories of one application, newest phase first.\<close>

fun life_history :: "applicationPhase list \<Rightarrow> bool" where
  "life_history [] = False"
| "life_history [p] = (p = ApplicationPhaseUnset)"
| "life_history (q # p # ps) = (life_step p q \<and> life_history (p # ps))"

lemma traced_step: "traced ps \<Longrightarrow> p \<in> set ps \<Longrightarrow> life_step p q \<Longrightarrow> traced (q # ps)"
  by auto

lemma traced_unset [simp]: "traced (replicate n ApplicationPhaseUnset @ ps) = traced ps"
  by (induction n) auto

lemma traced_append: "traced (ps @ qs) \<Longrightarrow> traced qs"
  by (induction ps) auto

text \<open>A traced log holds, for each of its phases, a whole history of it.\<close>

lemma traced_history:
  "traced (q # older) \<Longrightarrow> \<exists>ps. subseq ps older \<and> life_history (q # ps)"
proof (induction "length older" arbitrary: q older rule: less_induct)
  case less
  show ?case
  proof (cases "q = ApplicationPhaseUnset")
    case True
    then have "subseq [] older \<and> life_history [q]" by simp
    then show ?thesis by blast
  next
    case False
    with less.prems obtain p where p: "p \<in> set older" "life_step p q" by auto
    then obtain newer oldest where o: "older = newer @ p # oldest" by (meson split_list)
    with less.prems have "traced (p # oldest)" using traced_append [of newer "p # oldest"] by simp
    with less.hyps [of oldest p] o obtain ps where ps: "subseq ps oldest" "life_history (p # ps)" by auto
    then have "subseq (p # ps) older"
      unfolding o by (metis list_emb_append2 subseq_Cons2)
    with ps p(2) show ?thesis by (intro exI [of _ "p # ps"]) simp
  qed
qed

lemma life_step_degraded:
  "life_step p ApplicationPhaseDegraded \<Longrightarrow> p \<in> {ApplicationPhaseRunning, ApplicationPhaseDegraded}"
  unfolding life_step_def phase_step_degraded
  by (auto simp: next_phase_iff(4) dest!: sym [of ApplicationPhaseDegraded])

lemma life_step_early: "life_step p q \<Longrightarrow> early q \<Longrightarrow> early p"
  unfolding life_step_def using phase_step_early by (auto simp: early_def)

lemma life_history_degraded:
  "life_history (ApplicationPhaseDegraded # ps) \<Longrightarrow> ApplicationPhaseRunning \<in> set ps"
proof (induction ps)
  case (Cons p ps)
  then show ?case using life_step_degraded [of p] by auto
qed simp

lemma life_history_early: "life_history (q # ps) \<Longrightarrow> early q \<Longrightarrow> list_all early ps"
  by (induction ps arbitrary: q) (auto dest: life_step_early)

subsection \<open>What the API does to the logs\<close>

text \<open>
  Others create applications, with an empty status; nobody but the operator writes a status. A status
  update that is accepted is logged; one that fails may be logged too, as when the answer is lost.
\<close>

definition others_append :: "('w \<Rightarrow> nsname \<Rightarrow> applicationStatus list) \<Rightarrow> 'w \<Rightarrow> 'w \<Rightarrow> bool" where
  "others_append past w w' \<longleftrightarrow> (\<forall>key. \<exists>n. past w' key = replicate n empty_status @ past w key)"

definition status_written ::
    "('w \<Rightarrow> nsname \<Rightarrow> applicationStatus list) \<Rightarrow> appDef \<Rightarrow> 'w \<Rightarrow> 'w \<Rightarrow> bool" where
  "status_written past app w w' \<longleftrightarrow>
     (\<exists>w1. others_append past w w1 \<and>
        past w' = (past w1)(app_key app := ad_status app # past w1 (app_key app)))"

definition status_log :: "'w cluster \<Rightarrow> ('w \<Rightarrow> nsname \<Rightarrow> applicationStatus list) \<Rightarrow> bool" where
  "status_log k past \<longleftrightarrow>
     object_calls_keep k (others_append past) \<and>
     (\<forall>key w r w'. kc_get_app k key w = (r, w') \<longrightarrow> others_append past w w' \<and>
        (\<forall>app. r = Inr app \<longrightarrow> app_key app = key \<and> ad_status app \<in> set (past w' key))) \<and>
     (\<forall>app w r w'. kc_update_app k app w = (r, w') \<longrightarrow> others_append past w w' \<and>
        (\<forall>app'. r = Inr app' \<longrightarrow> app_key app' = app_key app \<and> ad_status app' \<in> set (past w' (app_key app)))) \<and>
     (\<forall>app w r w'. kc_status_update k app w = (r, w') \<longrightarrow>
        (others_append past w w' \<or> status_written past app w w') \<and>
        (\<forall>app'. r = Inr app' \<longrightarrow> app_key app' = app_key app \<and> ad_status app' = ad_status app))"

text \<open>All the logs are traced.\<close>

definition well_traced :: "('w \<Rightarrow> nsname \<Rightarrow> applicationStatus list) \<Rightarrow> 'w \<Rightarrow> bool" where
  "well_traced past w \<longleftrightarrow> (\<forall>key. traced (map st_phase (past w key)))"

text \<open>Moreover the log of \<open>key\<close> holds the phase \<open>p\<close>, the one a run has read.\<close>

definition traced_from ::
    "('w \<Rightarrow> nsname \<Rightarrow> applicationStatus list) \<Rightarrow> nsname \<Rightarrow> applicationPhase \<Rightarrow> 'w \<Rightarrow> bool" where
  "traced_from past key p w \<longleftrightarrow> well_traced past w \<and> p \<in> st_phase ` set (past w key)"

lemma others_append_traced:
  "others_append past w w' \<Longrightarrow> well_traced past w \<Longrightarrow> well_traced past w'"
  unfolding others_append_def well_traced_def by (metis (no_types, lifting) empty_status_def
      applicationStatus.select_convs(2) map_append map_replicate traced_unset)

lemma others_append_from:
  assumes "others_append past w w'" "traced_from past key p w"
  shows "traced_from past key p w'"
proof -
  from assms(1) obtain n where "past w' key = replicate n empty_status @ past w key"
    unfolding others_append_def by blast
  with assms show ?thesis by (auto simp: traced_from_def others_append_traced)
qed

lemma status_written_from:
  assumes "status_written past app w w'" "traced_from past (app_key app) p w" "life_step p (app_phase app)"
  shows "traced_from past (app_key app) p w'"
proof -
  from assms(1) obtain w1 where o: "others_append past w w1"
    and w': "past w' = (past w1)(app_key app := ad_status app # past w1 (app_key app))"
    unfolding status_written_def by blast
  from others_append_from [OF o assms(2)] have t: "traced_from past (app_key app) p w1" .
  moreover from t have "traced (app_phase app # map st_phase (past w1 (app_key app)))"
    using assms(3) by (intro traced_step [of _ p]) (auto simp: traced_from_def well_traced_def)
  ultimately show ?thesis
    unfolding traced_from_def well_traced_def w' by (auto simp: app_phase_def)
qed

lemma status_log_calls:
  assumes "status_log k past"
  shows "calls_keep k (traced_from past key p)" "calls_keep k (well_traced past)"
proof -
  from assms have o: "object_calls_keep k (others_append past)" by (simp add: status_log_def)
  show "calls_keep k (traced_from past key p)"
    unfolding calls_keep_def by (rule object_calls_keep_mono [OF o]) (simp add: others_append_from)
  show "calls_keep k (well_traced past)"
    unfolding calls_keep_def by (rule object_calls_keep_mono [OF o]) (simp add: others_append_traced)
qed

text \<open>What the three calls on the application return, and what they do to the logs.\<close>

lemma logged_calls:
  assumes "status_log k past"
  shows "kc_get_app k key w = (r, w') \<Longrightarrow> others_append past w w' \<and>
      (\<forall>app. r = Inr app \<longrightarrow> app_key app = key \<and> ad_status app \<in> set (past w' key))"
    "kc_update_app k app w = (r, w') \<Longrightarrow> others_append past w w' \<and>
      (\<forall>app'. r = Inr app' \<longrightarrow> app_key app' = app_key app \<and> ad_status app' \<in> set (past w' (app_key app)))"
    "kc_status_update k app w = (r, w') \<Longrightarrow>
      (others_append past w w' \<or> status_written past app w w') \<and>
      (\<forall>app'. r = Inr app' \<longrightarrow> app_key app' = app_key app \<and> ad_status app' = ad_status app)"
  using assms by (simp_all add: status_log_def)

subsection \<open>The loops\<close>

text \<open>A write under way: an object of \<open>key\<close> with the phase \<open>q\<close>, for a run that has read the phase \<open>p\<close>.\<close>

definition stepping ::
    "('w \<Rightarrow> nsname \<Rightarrow> applicationStatus list) \<Rightarrow> nsname \<Rightarrow> applicationPhase \<Rightarrow> applicationPhase \<Rightarrow>
      'w \<Rightarrow> appDef \<Rightarrow> bool" where
  "stepping past key p q w app \<longleftrightarrow> traced_from past key p w \<and> app_key app = key \<and> app_phase app = q"

lemma status_update_stepping:
  assumes "status_log k past" "life_step p q" "stepping past key p q w app"
    and "kc_status_update k app w = (r, w')"
  shows "stepping past key p q w' (case r of Inl e \<Rightarrow> app | Inr app' \<Rightarrow> app')"
proof -
  note call = logged_calls(3) [OF assms(1,4)]
  have "traced_from past key p w'"
    using call others_append_from [of past w w' key p] status_written_from [of past app w w' p] assms(2,3)
    by (auto simp: stepping_def)
  with call assms(3) show ?thesis by (cases r) (auto simp: stepping_def app_phase_def)
qed

lemma fetch_stepping:
  assumes "status_log k past" "stepping past key p q w app" "kc_get_app k (app_key app) w = (r, w')"
    and "\<And>fresh. app_key (prepare fresh) = app_key fresh \<and> app_phase (prepare fresh) = q"
  shows "stepping past key p q w' (case r of Inl e \<Rightarrow> app | Inr fresh \<Rightarrow> prepare fresh)"
proof -
  note call = logged_calls(1) [OF assms(1,3)]
  from call assms(2) have "traced_from past key p w'"
    by (simp add: stepping_def others_append_from [of past w w'])
  with call assms(2,4) show ?thesis by (cases r) (auto simp: stepping_def)
qed

text \<open>The object in memory is one of \<open>key\<close>, with a phase that its log holds.\<close>

definition read_from ::
    "('w \<Rightarrow> nsname \<Rightarrow> applicationStatus list) \<Rightarrow> nsname \<Rightarrow> 'w \<Rightarrow> appDef \<Rightarrow> bool" where
  "read_from past key w app \<longleftrightarrow> app_key app = key \<and> traced_from past key (app_phase app) w"

lemma update_read_from:
  assumes "status_log k past" "read_from past key w app" "kc_update_app k app w = (r, w')"
  shows "read_from past key w' (case r of Inl e \<Rightarrow> app | Inr app' \<Rightarrow> app')"
proof -
  note call = logged_calls(2) [OF assms(1,3)]
  from assms(2) have a: "app_key app = key" "traced_from past key (app_phase app) w"
    by (simp_all add: read_from_def)
  from others_append_from [OF conjunct1 [OF call] a(2)] have t: "traced_from past key (app_phase app) w'" .
  show ?thesis
  proof (cases r)
    case (Inr app')
    with call t a show ?thesis by (auto simp: read_from_def traced_from_def app_phase_def)
  qed (use t a in \<open>simp add: read_from_def\<close>)
qed

lemma fetch_read_from:
  assumes "status_log k past" "read_from past key w app" "kc_get_app k (app_key app) w = (r, w')"
    and "\<And>fresh. app_key (prepare fresh) = app_key fresh \<and> app_phase (prepare fresh) = app_phase fresh"
  shows "read_from past key w' (case r of Inl e \<Rightarrow> app | Inr fresh \<Rightarrow> prepare fresh)"
proof -
  note call = logged_calls(1) [OF assms(1,3)]
  from assms(2) have a: "app_key app = key" "traced_from past key (app_phase app) w"
    by (simp_all add: read_from_def)
  from others_append_from [OF conjunct1 [OF call] a(2)] have t: "traced_from past key (app_phase app) w'" .
  show ?thesis
  proof (cases r)
    case (Inr fresh)
    with call t a assms(4) show ?thesis by (auto simp: read_from_def traced_from_def app_phase_def)
  qed (use t a in \<open>simp add: read_from_def\<close>)
qed

text \<open>What the calls keep, the loops keep.\<close>

context conflict_retry
begin

lemma loop_stepping:
  assumes "write = kc_status_update k" "fetch = kc_get_app k" "status_log k past" "life_step p q"
    and "\<And>fresh. app_key (prepare fresh) = app_key fresh \<and> app_phase (prepare fresh) = q"
    and "loop n app w = ((res, app'), w')" "stepping past key p q w app"
  shows "stepping past key p q w' app'"
proof (rule loop_relates [OF _ _ assms(6), where R = "stepping past key p q"])
  show "stepping past key p q w' (case r of Inl e \<Rightarrow> app | Inr app' \<Rightarrow> app')"
    if "stepping past key p q w app" "write app w = (r, w')" for app w r w'
    using status_update_stepping [OF assms(3,4) that(1)] that(2) assms(1) by simp
  show "stepping past key p q w' (case r of Inl e \<Rightarrow> app | Inr fresh \<Rightarrow> prepare fresh)"
    if "stepping past key p q w app" "fetch (app_key app) w = (r, w')" for app w r w'
    using fetch_stepping [OF assms(3) that(1) _ assms(5)] that(2) assms(2) by simp
qed (rule assms(7))

lemma loop_read_from:
  assumes "write = kc_update_app k" "fetch = kc_get_app k" "status_log k past"
    and "\<And>fresh. app_key (prepare fresh) = app_key fresh \<and> app_phase (prepare fresh) = app_phase fresh"
    and "loop n app w = ((res, app'), w')" "read_from past key w app"
  shows "read_from past key w' app'"
proof (rule loop_relates [OF _ _ assms(5), where R = "read_from past key"])
  show "read_from past key w' (case r of Inl e \<Rightarrow> app | Inr app' \<Rightarrow> app')"
    if "read_from past key w app" "write app w = (r, w')" for app w r w'
    using update_read_from [OF assms(3) that(1)] that(2) assms(1) by simp
  show "read_from past key w' (case r of Inl e \<Rightarrow> app | Inr fresh \<Rightarrow> prepare fresh)"
    if "read_from past key w app" "fetch (app_key app) w = (r, w')" for app w r w'
    using fetch_read_from [OF assms(3) that(1) _ assms(4)] that(2) assms(2) by simp
qed (rule assms(6))

end

lemma app_key_simps [simp]:
  "app_key (with_status f app) = app_key app" "app_key (set_phase p app) = app_key app"
  "app_key (setCondition k c app) = app_key app" "app_key (observe_generation app) = app_key app"
  "app_key (start_processing k app) = app_key app" "app_key (reapply_status s app) = app_key app"
  "app_key (add_finalizer k app) = app_key app" "app_key (remove_finalizer k app) = app_key app"
  by (simp_all add: app_key_def start_processing_def reapply_status_def add_finalizer_def
      remove_finalizer_def setCondition_def set_phase_def)

lemma initial_phase_loop_traced:
  assumes "status_log k past" "life_step p ApplicationPhaseCreating"
    and "initial_phase_loop k n (start_processing k app) w = ((res, a), w')"
    and "traced_from past (app_key app) p w"
  shows "traced_from past (app_key app) p w'"
proof -
  let ?R = "stepping past (app_key app) p ApplicationPhaseCreating"
  have prep: "app_key (start_processing k fresh) = app_key fresh \<and>
      app_phase (start_processing k fresh) = ApplicationPhaseCreating" for fresh
    by simp (simp add: start_processing_def)
  have "?R w' a"
    by (rule initial_phase.loop_stepping [OF refl refl assms(1,2) prep assms(3)])
      (use assms(4) prep in \<open>simp add: stepping_def\<close>)
  then show ?thesis by (simp add: stepping_def)
qed

lemma updateStatusIfNeeded_traced:
  assumes "status_log k past" "life_step p (app_phase app)"
    and "updateStatusIfNeeded k app orig w = ((out, a), w')"
    and "traced_from past (app_key app) p w"
  shows "traced_from past (app_key app) p w'"
proof -
  let ?app = "observe_generation app" and ?R = "stepping past (app_key app) p (app_phase app)"
  obtain r a1 w1 where loop: "status_update_loop k (ad_status ?app) max_attempts ?app w = ((r, a1), w1)"
    by (metis surj_pair)
  have prep: "app_key (reapply_status (ad_status ?app) fresh) = app_key fresh \<and>
      app_phase (reapply_status (ad_status ?app) fresh) = app_phase app" for fresh
    by simp (simp add: reapply_status_def app_phase_def)
  have "?R w1 a1"
    by (rule status_write.loop_stepping [OF refl refl assms(1,2) prep loop])
      (use assms(4) in \<open>simp add: stepping_def\<close>)
  moreover have "w' = w \<or> w' = w1"
    using assms(3) loop
    by (cases r) (auto simp: updateStatusIfNeeded_def Let_def split: if_splits)
  ultimately show ?thesis using assms(4) by (auto simp: stepping_def)
qed

lemma handleFinalizer_read_from:
  assumes "status_log k past" "read_from past key w app" "handleFinalizer k app w = ((out, app'), w')"
  shows "read_from past key w' app'"
proof -
  let ?R = "read_from past key"
  have prep: "app_key (add_finalizer k a) = app_key a \<and> app_phase (add_finalizer k a) = app_phase a"
    "app_key (remove_finalizer k a) = app_key a \<and> app_phase (remove_finalizer k a) = app_phase a" for a
    by (simp_all add: add_finalizer_def remove_finalizer_def app_phase_def app_key_def)
  have same: "?R v (add_finalizer k a) = ?R v a" "?R v (remove_finalizer k a) = ?R v a" for v a
    using prep by (simp_all add: read_from_def)
  obtain ar a1 w1 where add: "add_finalizer_loop k max_attempts (add_finalizer k app) w = ((ar, a1), w1)"
    by (metis surj_pair)
  have 1: "?R w1 a1"
    by (rule finalizer_adding.loop_read_from [OF refl refl assms(1) prep(1) add])
      (simp only: same assms(2))
  obtain ce w2 where c: "cleanup_pvcs k app w = (ce, w2)" by fastforce
  from cleanup_pvcs_keeps [OF status_log_calls(1) [OF assms(1)] c] assms(2) have 2: "?R w2 app"
    by (simp add: read_from_def)
  obtain rr a3 w3 where rem: "remove_finalizer_loop k max_attempts (remove_finalizer k app) w2 = ((rr, a3), w3)"
    by (metis surj_pair)
  have 3: "?R w3 a3"
    by (rule finalizer_removal.loop_read_from [OF refl refl assms(1) prep(2) rem])
      (simp only: same 2)
  have "app' = app \<and> w' \<in> {w, w2} \<or> app' = a1 \<and> w' = w1 \<or> app' = a3 \<and> w' = w3"
    using assms(3) add c rem
    by (cases ar; cases ce; cases rr) (auto simp: handleFinalizer_def split: if_splits)
  with 1 2 3 assms(2) show ?thesis by auto
qed

subsection \<open>The writes of a run\<close>

lemma written_traced:
  assumes "status_log k past" "updateStatusIfNeeded k app orig w = ((out, a), w')"
    and "traced_from past (app_key app) p w" "life_step p (app_phase app)"
  shows "well_traced past w'"
  using updateStatusIfNeeded_traced [OF assms(1,4,2,3)] by (simp add: traced_from_def)

lemma conclude_key: "app_key (rs_appDef (conclude k r st)) = app_key (rs_appDef st)"
proof -
  have "ad_meta (rs_appDef (conclude k r st)) = ad_meta (rs_appDef st)"
    by (simp add: conclude_def note_change_id_def Let_def split: option.splits)
  then show ?thesis by (simp add: app_key_def)
qed

lemma finish_run_traced:
  assumes "status_log k past" "finish_run k r q st w = ((res, st'), w')"
    and "traced_from past (app_key (rs_appDef st)) p w"
    and "life_step p (next_phase (app_phase (rs_appDef st)) (outcome_of (rs_firstError st) r))"
  shows "well_traced past w'"
proof -
  let ?c = "conclude k r st"
  obtain out a w1 where u: "updateStatusIfNeeded k (rs_appDef ?c) (rs_originalStatus ?c) w = ((out, a), w1)"
    by (metis surj_pair)
  with assms(2) have "w' = w1" by (auto simp: finish_run_def Let_def split: prod.splits)
  with written_traced [OF assms(1) u] assms(3,4) show ?thesis by (simp add: conclude_key conclude_simps)
qed

lemma handleReconcileError_traced:
  assumes "status_log k past" "handleReconcileError k reason e st w = ((res, st'), w')"
    and "traced_from past (app_key (rs_appDef st)) p w"
  shows "well_traced past w'"
proof -
  let ?app = "with_status (\<lambda>s. s\<lparr>st_components := mapToSliceComponentStatus k
      (updateComponentStatusesForError (rs_componentStatuses st) e)\<rparr>)
    (setCondition k (mk_condition ConditionReady ConditionFalse reason (err_msg e))
      (set_phase ApplicationPhaseFailed (rs_appDef st)))"
  obtain out a w1 where u: "updateStatusIfNeeded k ?app (rs_originalStatus st) w = ((out, a), w1)"
    by (metis surj_pair)
  with assms(2) have "w' = w1" by (auto simp: handleReconcileError_def Let_def split: prod.splits)
  moreover have "life_step p (app_phase ?app)"
    by (simp add: app_phase_def setCondition_def life_step_def phase_step.failed)
  ultimately show ?thesis using written_traced [OF assms(1) u] assms(3) by simp
qed

lemma handleEmptyApp_traced:
  assumes "status_log k past" "handleEmptyApp k st w = ((res, st'), w')"
    and "traced_from past (app_key (rs_appDef st)) p w"
  shows "well_traced past w'"
proof -
  let ?app = "setCondition k (mk_condition ConditionReady ConditionTrue ''NoComponentsDefined''
      ''Application has no components defined, orphaned resources cleaned up'')
    (with_status (\<lambda>s. s\<lparr>st_components := []\<rparr>) (set_phase ApplicationPhaseRunning (rs_appDef st)))"
  let ?w = "collect_kinds k (rs_appDef st) collected_kinds w"
  obtain out a w1 where u: "updateStatusIfNeeded k ?app (rs_originalStatus st) ?w = ((out, a), w1)"
    by (metis surj_pair)
  with assms(2) have "w' = w1" by (auto simp: handleEmptyApp_def Let_def split: prod.splits)
  moreover have "life_step p (app_phase ?app)"
    by (simp add: app_phase_def setCondition_def life_step_def)
  moreover have "traced_from past (app_key (rs_appDef st)) p ?w"
    by (rule collect_kinds_keeps [OF status_log_calls(1) [OF assms(1)] assms(3)])
  ultimately show ?thesis using written_traced [OF assms(1) u] by simp
qed

lemma setInitialPhase_traced:
  assumes "status_log k past" "setInitialPhase k st w = ((out, st'), w')"
    and "read_from past key w (rs_appDef st)"
  shows "well_traced past w'"
proof -
  let ?p = "app_phase (rs_appDef st)"
  obtain r a w1 where loop: "initial_phase_loop k max_attempts (start_processing k (rs_appDef st)) w = ((r, a), w1)"
    by (metis surj_pair)
  from assms(3) have t: "traced_from past (app_key (rs_appDef st)) ?p w" by (auto simp: read_from_def)
  show ?thesis
  proof (cases "?p \<in> {ApplicationPhaseUnset, ApplicationPhasePending}")
    case True
    then have "life_step ?p ApplicationPhaseCreating" by (simp add: life_step_def phase_step.initial)
    from initial_phase_loop_traced [OF assms(1) this loop t] True assms(2) loop show ?thesis
      by (cases r) (auto simp: setInitialPhase_def traced_from_def Let_def)
  next
    case False
    with assms(2) t show ?thesis by (simp add: setInitialPhase_def traced_from_def Let_def)
  qed
qed

lemma processing_key:
  assumes "processComponentsAndBuildObjects k reg st = (r, st')"
  shows "app_key (rs_appDef st') = app_key (rs_appDef st)"
proof -
  obtain r1 st1 where run: "process_components k reg (as_components (ad_spec (rs_appDef st)))
      (st\<lparr>rs_desiredObjects := []\<rparr>) = (r1, st1)" by fastforce
  from process_components_carried [OF run] have "app_key (rs_appDef st1) = app_key (rs_appDef st)"
    by (simp add: carried_def same_but_annotations_def app_key_def)
  moreover have "app_key (rs_appDef (snd (handlePauseResume st1))) = app_key (rs_appDef st1)"
    by (simp add: handlePauseResume_def app_key_def Let_def split: prod.splits)
  moreover obtain e st2 where "handlePauseResume st1 = (e, st2)" by fastforce
  ultimately show ?thesis
    using assms run by (cases r1; cases e) (auto simp: processComponentsAndBuildObjects_def)
qed

lemma run_components_traced:
  assumes "status_log k past" "run_components k reg st w = Inr ((res, st'), w')"
    and "read_from past key w (rs_appDef st)"
    and "app_phase (rs_appDef st) \<notin> {ApplicationPhaseUnset, ApplicationPhasePending}"
  shows "well_traced past w'"
proof -
  let ?p = "app_phase (rs_appDef st)"
  obtain r st1 where p: "processComponentsAndBuildObjects k reg st = (r, st1)" by fastforce
  from assms(3) processing_key [OF p] have t: "traced_from past (app_key (rs_appDef st1)) ?p w"
    by (auto simp: read_from_def)
  show ?thesis
  proof (cases r)
    case (ProcessFailed e)
    with assms(2) p have "handleReconcileError k ''ProcessingFailed'' e (st1\<lparr>rs_firstError := Some e\<rparr>) w = ((res, st'), w')"
      by (simp add: run_components_def)
    from handleReconcileError_traced [OF assms(1) this] t show ?thesis by simp
  next
    case Processed
    obtain ready q st2 w2 where j: "apply_and_judge k st1 w = (((ready, q), st2), w2)" by (metis surj_pair)
    with assms(2) p Processed have f: "finish_run k ready q st2 w2 = ((res, st'), w')"
      by (simp add: run_components_def)
    from apply_and_judge_keeps [OF status_log_calls(1) [OF assms(1)] j t] apply_and_judge_app [OF j]
    have "traced_from past (app_key (rs_appDef st2)) ?p w2" by simp
    from finish_run_traced [OF assms(1) f this] processed_phase_step [OF p [unfolded Processed] assms(4)]
      apply_and_judge_app [OF j]
    show ?thesis by (simp add: life_step_def)
  qed (use assms(2) p in \<open>simp add: run_components_def\<close>)
qed

subsection \<open>A run keeps the logs traced\<close>

lemma run_initialised_traced:
  assumes "status_log k past" "run_initialised k reg st w = Inr ((res, st'), w')"
    and "read_from past key w (rs_appDef st)"
  shows "well_traced past w'"
proof -
  obtain del ferr app1 w1 where fin: "handleFinalizer k (rs_appDef st) w = (((del, ferr), app1), w1)"
    by (metis surj_pair)
  note f = handleFinalizer_read_from [OF assms(1,3) fin]
  then have 1: "well_traced past w1" by (simp add: read_from_def traced_from_def)
  obtain up perr st2 w2 where ini: "setInitialPhase k (st\<lparr>rs_appDef := app1\<rparr>) w1 = (((up, perr), st2), w2)"
    by (metis surj_pair)
  from setInitialPhase_traced [OF assms(1) ini] f have 2: "well_traced past w2" by simp
  show ?thesis
  proof (cases "run_components k reg st2 w2 = Inr ((res, st'), w') \<and> \<not> up \<and> perr = None")
    case True
    then have run: "run_components k reg st2 w2 = Inr ((res, st'), w')" and "\<not> up" "perr = None" by simp_all
    with ini have same: "st2 = st\<lparr>rs_appDef := app1\<rparr>" "w2 = w1"
      "app_phase app1 \<notin> {ApplicationPhaseUnset, ApplicationPhasePending}"
      by (auto simp: setInitialPhase_def Let_def split: if_splits prod.splits retryResult.splits)
    from run_components_traced [OF assms(1) run] f same show ?thesis by simp
  next
    case False
    with assms(2) fin ini have "w' = w1 \<or> w' = w2"
      by (auto simp: run_initialised_def Let_def split: if_splits)
    with 1 2 show ?thesis by auto
  qed
qed

lemma run_fetched_traced:
  assumes "status_log k past" "run_fetched k reg app w = Inr ((res, st'), w')" "read_from past key w app"
  shows "well_traced past w'"
proof -
  obtain e m where ini: "initializeComponentStatuses (as_components (ad_spec app)) (rs_componentStatuses (fresh_state app)) = (e, m)"
    by fastforce
  let ?st = "(fresh_state app)\<lparr>rs_componentStatuses := m\<rparr>"
  have app: "rs_appDef ?st = app" by (simp add: fresh_state_def)
  from assms(3) have t: "traced_from past (app_key (rs_appDef ?st)) (app_phase app) w"
    by (auto simp: read_from_def app)
  show ?thesis
  proof (cases e)
    case (Some err)
    with assms(2) ini have "handleReconcileError k ''InitializationFailed'' err ?st w = ((res, st'), w')"
      by (simp add: run_fetched_def Let_def)
    from handleReconcileError_traced [OF assms(1) this t] show ?thesis .
  next
    case None
    show ?thesis
    proof (cases "as_components (ad_spec app) = []")
      case True
      with None assms(2) ini have "handleEmptyApp k ?st w = ((res, st'), w')"
        by (simp add: run_fetched_def Let_def)
      from handleEmptyApp_traced [OF assms(1) this t] show ?thesis .
    next
      case False
      with None assms(2) ini have "run_initialised k reg ?st w = Inr ((res, st'), w')"
        by (simp add: run_fetched_def Let_def)
      from run_initialised_traced [OF assms(1) this] assms(3) app show ?thesis by simp
    qed
  qed
qed

lemma Reconcile_traced:
  assumes "status_log k past" "Reconcile k reg watched req w = Inr (out, w')" "well_traced past w"
  shows "well_traced past w'"
proof -
  obtain r w1 where rd: "kc_get_app k req w = (r, w1)" by fastforce
  note call = logged_calls(1) [OF assms(1) rd]
  from others_append_traced [OF conjunct1 [OF call] assms(3)] have w1: "well_traced past w1" .
  show ?thesis
  proof (cases "nn_namespace req \<noteq> watched")
    case True
    with assms(2,3) show ?thesis by (simp add: Reconcile_def)
  next
    case here: False
    show ?thesis
    proof (cases r)
      case (Inl e)
      with here rd w1 assms(2) show ?thesis by (auto simp: Reconcile_def)
    next
      case (Inr app)
      with here rd assms(2) obtain res st where run: "run_fetched k reg app w1 = Inr ((res, st), w')"
        by (auto simp: Reconcile_def split: sum.splits)
      from call w1 Inr have "read_from past req w1 app"
        by (auto simp: read_from_def traced_from_def app_phase_def)
      from run_fetched_traced [OF assms(1) run this] show ?thesis .
    qed
  qed
qed

subsection \<open>Histories\<close>

text \<open>The operator starts with empty statuses; others create applications and write no status.\<close>

definition operator_log ::
    "'w cluster \<Rightarrow> builder_id registry \<Rightarrow> string \<Rightarrow> ('w \<Rightarrow> nsname \<Rightarrow> applicationStatus list) \<Rightarrow> 'w \<Rightarrow> bool" where
  "operator_log k reg watched past =
     operator_worlds k reg watched (\<lambda>w. \<forall>key. set (past w key) \<subseteq> {empty_status}) (others_append past)"

lemma operator_log_traced:
  assumes "status_log k past" "operator_log k reg watched past w"
  shows "well_traced past w"
proof (rule operator_worlds_invariant [OF assms(2) [unfolded operator_log_def], where I = "well_traced past"])
  show "well_traced past w" if "\<forall>key. set (past w key) \<subseteq> {empty_status}" for w
  proof -
    have "traced (map st_phase ss)" if "set ss \<subseteq> {empty_status}" for ss
      using that by (induction ss) (auto simp: empty_status_def)
    with that show ?thesis by (simp add: well_traced_def)
  qed
qed (rule Reconcile_traced [OF assms(1)] others_append_traced; assumption)+

lemma logged_history:
  assumes "status_log k past" "operator_log k reg watched past w" "past w key = newer @ s # older"
  shows "\<exists>ps. subseq ps (map st_phase older) \<and> life_history (st_phase s # ps)"
proof -
  have "traced (map st_phase newer @ st_phase s # map st_phase older)"
    using operator_log_traced [OF assms(1,2)] assms(3) unfolding well_traced_def
    by (metis list.simps(9) map_append)
  from traced_history [OF traced_append [OF this]] show ?thesis .
qed

subsection \<open>A cluster for the examples\<close>

text \<open>One application, with all its statuses; its workload has no ready replica.\<close>

definition failing_workload :: kobject where
  "failing_workload =
     ready_workload\<lparr>ko_body := StatefulSet (example_sts_spec 3 0) (example_sts_status 0 0 0)\<rparr>"

definition log_cluster :: "(appDef \<times> applicationStatus list) cluster" where
  "log_cluster = bare_cluster
     \<lparr>kc_get_app := \<lambda>key w. (if key = app_key (fst w) then Inr (fst w) else Inl not_found_error, w),
      kc_update_app := \<lambda>app w. (Inl not_found_error, w),
      kc_status_update := \<lambda>app w.
        if app_key app = app_key (fst w) then (Inr app, (app, ad_status (fst w) # snd w))
        else (Inl not_found_error, w),
      kc_get_unstructured := \<lambda>g key w. (Inr [], w),
      lib_from_unstructured := \<lambda>u g. Inr failing_workload,
      lib_unmarshal := \<lambda>properties. Inr example_config\<rparr>"

definition statuses_of :: "appDef \<times> applicationStatus list \<Rightarrow> nsname \<Rightarrow> applicationStatus list" where
  "statuses_of w key = (if key = app_key (fst w) then ad_status (fst w) # snd w else [])"

lemma log_calls:
  "object_calls_keep log_cluster (\<lambda>w w'. w' = w)"
  by (simp add: object_calls_keep_def log_cluster_def bare_cluster_def)

lemma log_status_update:
  "kc_status_update log_cluster app w =
     (if app_key app = app_key (fst w) then (Inr app, (app, ad_status (fst w) # snd w))
      else (Inl not_found_error, w))"
  by (simp add: log_cluster_def)

lemma log_law: "status_log log_cluster statuses_of"
proof -
  have same: "others_append statuses_of w w" for w
    unfolding others_append_def by (metis append_Nil replicate_0)
  have "object_calls_keep log_cluster (others_append statuses_of)"
    by (rule object_calls_keep_mono [OF log_calls]) (simp add: same)
  moreover have "status_written statuses_of app w (app, ad_status (fst w) # snd w)"
    if "app_key app = app_key (fst w)" for app w
    unfolding status_written_def using that same
    by (intro exI [of _ w]) (auto simp: statuses_of_def fun_eq_iff)
  ultimately show ?thesis
    using same by (auto simp: status_log_def log_cluster_def statuses_of_def)
qed

text \<open>An application without components, and the same when a component was added.\<close>

definition running_status :: applicationStatus where
  "running_status = empty_status\<lparr>st_observedGeneration := 1, st_phase := ApplicationPhaseRunning,
     st_conditions := [mk_condition ConditionReady ConditionTrue ''NoComponentsDefined''
       ''Application has no components defined, orphaned resources cleaned up'']\<rparr>"

definition empty_world :: "appDef \<times> applicationStatus list" where
  "empty_world =
     ((managed_app ApplicationPhaseUnset None)\<lparr>ad_spec := (ad_spec example_app)\<lparr>as_components := []\<rparr>\<rparr>, [])"

definition failing_world :: "appDef \<times> applicationStatus list" where
  "failing_world = ((managed_app ApplicationPhaseRunning None)\<lparr>ad_status := running_status\<rparr>, [empty_status])"

lemma empty_world_run:
  obtains out w where
    "Reconcile log_cluster example_registry ''default'' (NsName ''default'' ''shop'') empty_world = Inr (out, w)"
    "statuses_of w = statuses_of failing_world"
proof -
  have "\<exists>out w. Reconcile log_cluster example_registry ''default'' (NsName ''default'' ''shop'') empty_world = Inr (out, w) \<and>
      statuses_of w = statuses_of failing_world"
    by (simp add: Reconcile_def run_fetched_def handleEmptyApp_def initializeComponentStatuses_def
        updateStatusIfNeeded_def status_unchanged_def collected_kinds_def max_attempts_def numeral_3_eq_3
        log_cluster_def bare_cluster_def empty_world_def failing_world_def managed_app_def example_app_def
        running_status_def statuses_of_def fresh_state_def empty_status_def empty_meta_def app_phase_def
        app_key_def app_namespace_def app_name_def setCondition_def set_phase_def with_status_def
        observe_generation_def fun_eq_iff Let_def)
  with that show thesis by blast
qed

text \<open>Now the workload is not ready: the run ends with the phase Degraded.\<close>

abbreviation failing_start :: reconcileState where
  "failing_start \<equiv> (fresh_state (fst failing_world))\<lparr>rs_componentStatuses := [(''web'', initial_status ''web'')]\<rparr>"

lemma failing_judged:
  obtains st1 st2 where
    "processComponentsAndBuildObjects log_cluster example_registry failing_start = (Processed, st1)"
    "apply_and_judge log_cluster st1 failing_world = (((False, True), st2), failing_world)"
    "rs_firstError st2 = None" "app_phase (rs_appDef st2) = ApplicationPhaseRunning"
    "st_phase (rs_originalStatus st2) = ApplicationPhaseRunning" "app_key (rs_appDef st2) = app_key (fst failing_world)"
proof -
  let ?p = "processComponentsAndBuildObjects log_cluster example_registry failing_start"
  have p: "fst ?p = Processed" by code_simp
  have eval: "case apply_and_judge log_cluster (snd ?p) failing_world of ((v, st), w) \<Rightarrow>
      v = (False, True) \<and> rs_firstError st = None \<and> app_phase (rs_appDef st) = ApplicationPhaseRunning \<and>
      st_phase (rs_originalStatus st) = ApplicationPhaseRunning \<and> app_key (rs_appDef st) = app_key (fst failing_world)"
    by code_simp
  obtain v st2 w2 where j: "apply_and_judge log_cluster (snd ?p) failing_world = ((v, st2), w2)" by (metis surj_pair)
  have "calls_keep log_cluster (\<lambda>w. w = failing_world)"
    unfolding calls_keep_def by (rule object_calls_keep_mono [OF log_calls]) simp
  from apply_and_judge_keeps [OF this j] have "w2 = failing_world" by simp
  with that [of "snd ?p" st2] p eval j show thesis by (simp add: prod_eq_iff)
qed

lemma failing_world_facts:
  "app_key (fst failing_world) = NsName ''default'' ''shop''"
  "ad_status (fst failing_world) = running_status" "snd failing_world = [empty_status]"
  "app_phase (fst failing_world) = ApplicationPhaseRunning"
  "as_components (ad_spec (fst failing_world)) = [example_component]"
  "\<not> is_suspended (fst failing_world)" "\<not> stable_and_running (fst failing_world)"
  "om_deletionTimestamp (ad_meta (fst failing_world)) = None" "has_finalizer log_cluster (fst failing_world)"
  by (simp_all add: failing_world_def managed_app_def example_app_def app_key_def empty_meta_def app_phase_def
      running_status_def empty_status_def is_suspended_def stable_and_running_def has_finalizer_def
      log_cluster_def bare_cluster_def)

lemma failing_world_reconcile:
  "Reconcile log_cluster example_registry ''default'' (NsName ''default'' ''shop'') failing_world =
     (case run_components log_cluster example_registry failing_start failing_world of
        Inl msg \<Rightarrow> Inl msg
      | Inr ((res, st), w) \<Rightarrow> Inr ((res, Some st), w))"
proof -
  note f = failing_world_facts
  have get: "kc_get_app log_cluster (NsName ''default'' ''shop'') failing_world = (Inr (fst failing_world), failing_world)"
    by (simp add: log_cluster_def f(1))
  have init: "initializeComponentStatuses [example_component] [] = (None, [(''web'', initial_status ''web'')])"
    by (simp add: initializeComponentStatuses_def example_component_def)
  have "setInitialPhase log_cluster failing_start failing_world = (((False, None), failing_start), failing_world)"
    using f(4) by (simp add: setInitialPhase_def fresh_state_def)
  then show ?thesis
    using f get init handleFinalizer_present [OF f(8,9)]
    by (simp add: Reconcile_def run_fetched_def run_initialised_def fresh_state_def)
qed

lemma failing_world_run:
  obtains out w s where
    "Reconcile log_cluster example_registry ''default'' (NsName ''default'' ''shop'') failing_world = Inr (out, w)"
    "statuses_of w (NsName ''default'' ''shop'') = s # [running_status, empty_status]"
    "st_phase s = ApplicationPhaseDegraded"
proof -
  obtain st1 st2 where p: "processComponentsAndBuildObjects log_cluster example_registry failing_start = (Processed, st1)"
    and j: "apply_and_judge log_cluster st1 failing_world = (((False, True), st2), failing_world)"
    and st2: "rs_firstError st2 = None" "app_phase (rs_appDef st2) = ApplicationPhaseRunning"
      "st_phase (rs_originalStatus st2) = ApplicationPhaseRunning" "app_key (rs_appDef st2) = app_key (fst failing_world)"
    by (rule failing_judged)
  let ?c = "conclude log_cluster False st2"
  let ?app = "observe_generation (rs_appDef ?c)"
  have phase: "app_phase ?app = ApplicationPhaseDegraded"
    using st2 by (simp add: conclude_simps outcome_of_def)
  have key: "app_key (rs_appDef ?c) = NsName ''default'' ''shop''" using st2(4) failing_world_facts(1) by (simp add: conclude_key)
  have orig: "rs_originalStatus ?c = rs_originalStatus st2" by (simp add: conclude_def Let_def)
  have "status_update_loop log_cluster (ad_status ?app) (Suc 2) ?app failing_world =
      ((Written, ?app), (?app, [running_status, empty_status]))"
    by (rule status_write.loop_written) (simp add: log_status_update key failing_world_facts)
  moreover have "\<not> status_unchanged (ad_status ?app) (rs_originalStatus ?c)"
    using phase st2(3) orig by (simp add: status_unchanged_def app_phase_def)
  ultimately have "updateStatusIfNeeded log_cluster (rs_appDef ?c) (rs_originalStatus ?c) failing_world =
      (((True, None), ?app), (?app, [running_status, empty_status]))"
    by (simp add: updateStatusIfNeeded_def Let_def max_attempts_def eval_nat_numeral)
  then have "\<exists>out. finish_run log_cluster False True st2 failing_world = (out, (?app, [running_status, empty_status]))"
    by (simp add: finish_run_def Let_def)
  with p j have run: "\<exists>out. run_components log_cluster example_registry failing_start failing_world =
      Inr (out, (?app, [running_status, empty_status]))"
    by (simp add: run_components_def)
  have "\<exists>out. Reconcile log_cluster example_registry ''default'' (NsName ''default'' ''shop'') failing_world =
      Inr (out, (?app, [running_status, empty_status]))"
    using run by (auto simp: failing_world_reconcile)
  moreover have "statuses_of (?app, [running_status, empty_status]) (NsName ''default'' ''shop'') =
      ad_status ?app # [running_status, empty_status]"
    using key by (simp add: statuses_of_def)
  ultimately show thesis using that phase by (auto simp: app_phase_def)
qed

lemma failing_history:
  obtains w s where "operator_log log_cluster example_registry ''default'' statuses_of w"
    "statuses_of w (NsName ''default'' ''shop'') = s # [running_status, empty_status]"
    "st_phase s = ApplicationPhaseDegraded"
proof -
  let ?op = "operator_worlds log_cluster example_registry ''default''
    (\<lambda>w. \<forall>key. set (statuses_of w key) \<subseteq> {empty_status}) (others_append statuses_of)"
  obtain out1 w1 where r1: "Reconcile log_cluster example_registry ''default'' (NsName ''default'' ''shop'') empty_world = Inr (out1, w1)"
    and w1: "statuses_of w1 = statuses_of failing_world" by (rule empty_world_run)
  obtain out w s where r2: "Reconcile log_cluster example_registry ''default'' (NsName ''default'' ''shop'') failing_world = Inr (out, w)"
    and s: "statuses_of w (NsName ''default'' ''shop'') = s # [running_status, empty_status]"
      "st_phase s = ApplicationPhaseDegraded" by (rule failing_world_run)
  have "?op empty_world"
    by (rule operator_worlds.start) (auto simp: statuses_of_def empty_world_def managed_app_def empty_status_def)
  then have "?op w1" by (rule operator_worlds.run [OF _ r1])
  moreover have "others_append statuses_of w1 failing_world"
    unfolding others_append_def w1 by (metis append_Nil replicate_0)
  ultimately have "?op failing_world" by (rule operator_worlds.others)
  then have "?op w" by (rule operator_worlds.run [OF _ r2])
  with s that show thesis by (simp add: operator_log_def)
qed

text \<open>
  The history is one of derivations, not of moments: after a conflict the initial phase is set again on
  the object that was read afresh, whatever its phase has become. Here another replica has brought the
  application to Running meanwhile.
\<close>

lemma initial_phase_overwrites_running:
  "app_phase (fw_app (snd (setInitialPhase example_cluster (example_state (managed_app ApplicationPhaseUnset None))
     (example_world (managed_app ApplicationPhaseUnset None) 1 (managed_app ApplicationPhaseRunning None))))) =
   ApplicationPhaseCreating"
  by code_simp

subsection \<open>Properties\<close>

text \<open>
  C4. Over any number of runs, with conflicts, stale reads and failures of any call, every status that
  is stored for an application ends a history of its life cycle: the phases of some of the older statuses
  of the same application, in their order, lead from an empty status by steps of the life cycle to its
  phase.
\<close>

theorem stored_phases_follow_life_cycle:
  assumes "status_log k past" "operator_log k reg watched past w" "past w key = newer @ s # older"
  shows "\<exists>ps. subseq ps (map st_phase older) \<and> life_history (st_phase s # ps)"
  by (rule logged_history [OF assms])

theorem stored_phases_follow_life_cycle_witness:
  "\<exists>ps. subseq ps [ApplicationPhaseRunning, ApplicationPhaseUnset] \<and> life_history (ApplicationPhaseDegraded # ps)"
proof (rule failing_history)
  fix w s
  assume h: "operator_log log_cluster example_registry ''default'' statuses_of w"
    "statuses_of w (NsName ''default'' ''shop'') = s # [running_status, empty_status]"
    "st_phase s = ApplicationPhaseDegraded"
  from stored_phases_follow_life_cycle [OF log_law h(1), of "NsName ''default'' ''shop''" "[]" s "[running_status, empty_status]"]
    h(2,3)
  show ?thesis by (simp add: running_status_def empty_status_def)
qed

text \<open>
  C8. An application is reported Degraded only after it was reported Running: before every Degraded
  status that the API server ever stores for it there is a Running one.
\<close>

theorem degraded_only_after_running:
  assumes "status_log k past" "operator_log k reg watched past w" "past w key = newer @ s # older"
    and "st_phase s = ApplicationPhaseDegraded"
  shows "\<exists>s' \<in> set older. st_phase s' = ApplicationPhaseRunning"
proof -
  obtain ps where ps: "subseq ps (map st_phase older)" "life_history (ApplicationPhaseDegraded # ps)"
    using logged_history [OF assms(1-3)] assms(4) by auto
  then have "ApplicationPhaseRunning \<in> set (map st_phase older)"
    using life_history_degraded by (metis subseq_order.order_trans subseq_singleton_left)
  then show ?thesis by force
qed

theorem degraded_only_after_running_witness:
  "\<exists>s' \<in> {running_status, empty_status}. st_phase s' = ApplicationPhaseRunning"
proof (rule failing_history)
  fix w s
  assume h: "operator_log log_cluster example_registry ''default'' statuses_of w"
    "statuses_of w (NsName ''default'' ''shop'') = s # [running_status, empty_status]"
    "st_phase s = ApplicationPhaseDegraded"
  from degraded_only_after_running [OF log_law h(1) _ h(3), of "NsName ''default'' ''shop''" "[]" "[running_status, empty_status]"]
    h(2)
  show ?thesis by simp
qed

end
