(* ===== verification/DesiredObjects.thy ===== *)
theory DesiredObjects
  imports Examples
begin

text \<open>
  The objects that a run wants in the cluster, seen as typed values: the \<^verbatim>\<open>TypeMeta\<close> that a builder
  writes down must be that of the Go type it builds, since the client derives the endpoint from the one
  and the content from the other. Labels, scaling, the kept cluster IP and the owner reference keep
  the typing, and the types are among those the controller watches and collects.
\<close>

fun type_of_body :: "objectBody \<Rightarrow> (string \<times> string) option" where
  "type_of_body (Deployment spec status) = Some (''apps/v1'', ''Deployment'')"
| "type_of_body (StatefulSet spec status) = Some (''apps/v1'', ''StatefulSet'')"
| "type_of_body (Service spec ingress) = Some (''v1'', ''Service'')"
| "type_of_body (PersistentVolumeClaim spec phase) = Some (''v1'', ''PersistentVolumeClaim'')"
| "type_of_body (ConfigMap data binary) = Some (''v1'', ''ConfigMap'')"
| "type_of_body (Secret content) = Some (''v1'', ''Secret'')"
| "type_of_body ServiceAccount = Some (''v1'', ''ServiceAccount'')"
| "type_of_body (PodDisruptionBudget status) = Some (''policy/v1'', ''PodDisruptionBudget'')"
| "type_of_body (PodDisruptionBudgetBeta1 status) = Some (''policy/v1beta1'', ''PodDisruptionBudget'')"
| "type_of_body (OtherObject content) = None"

definition object_type :: "kobject \<Rightarrow> string \<times> string" where
  "object_type obj = (ko_apiVersion obj, ko_kind obj)"

definition well_typed :: "kobject \<Rightarrow> bool" where
  "well_typed obj \<longleftrightarrow> type_of_body (ko_body obj) = Some (object_type obj)"

text \<open>The types the runtime strategy builds.\<close>

definition built_types :: "(string \<times> string) list" where
  "built_types = [(''v1'', ''ConfigMap''), (''apps/v1'', ''StatefulSet''), (''v1'', ''Service''),
     (''v1'', ''ServiceAccount'')]"

definition managed_object :: "kobject \<Rightarrow> bool" where
  "managed_object obj \<longleftrightarrow> well_typed obj \<and> object_type obj \<in> set built_types"

text \<open>The controller is woken by changes of these types, and collects their kinds.\<close>

lemma built_types_owned: "set built_types \<subseteq> set (owned_types v1)"
  by (auto simp: built_types_def owned_types_def)

lemma built_types_collected: "snd ` set built_types \<subseteq> set collected_kinds"
  by (auto simp: built_types_def collected_kinds_def)

text \<open>A workload is of the kind its strategy announces.\<close>

lemma workload_gvk:
  "well_typed obj \<Longrightarrow> ko_body obj = StatefulSet spec status \<Longrightarrow>
    object_gvk k obj = bs_GetWorkloadGVK (builder_of k RuntimeBuilderStrategy)"
  by (simp add: well_typed_def object_type_def object_gvk_def builder_of_def workloadGVK_def StatefulSetType_def)

subsection \<open>What keeps the typing\<close>

lemma managed_object_same:
  "object_type obj' = object_type obj \<Longrightarrow> type_of_body (ko_body obj') = type_of_body (ko_body obj) \<Longrightarrow>
    managed_object obj' = managed_object obj"
  by (simp add: managed_object_def well_typed_def)

lemma apply_labels_managed [simp]: "managed_object (apply_labels app c obj) = managed_object obj"
  by (rule managed_object_same)
    (auto simp: object_type_def apply_labels_def split: objectBody.splits)

lemma set_replicas_managed [simp]: "managed_object (set_replicas n obj) = managed_object obj"
  by (rule managed_object_same)
    (auto simp: object_type_def set_replicas_def split: objectBody.splits)

lemma pause_resume_managed:
  "pause_resume_loop sus objs m = (objs', m') \<Longrightarrow>
    length objs' = length objs \<and> (list_all managed_object objs \<longrightarrow> list_all managed_object objs')"
proof (induction objs arbitrary: objs' m m')
  case (Cons obj objs)
  obtain obj1 m1 where one: "pause_resume_one sus obj m = (obj1, m1)" by fastforce
  then have "managed_object obj1 = managed_object obj"
    by (auto simp: pause_resume_one_def Let_def split: option.splits if_splits)
  with Cons one show ?case by (fastforce split: prod.splits)
qed simp

lemma preserve_cluster_ip_managed:
  "preserve_cluster_ip k obj w = (Inr obj', w') \<Longrightarrow> managed_object obj' = managed_object obj"
  by (rule managed_object_same)
    (auto simp: object_type_def preserve_cluster_ip_def split: objectBody.splits sum.splits prod.splits if_splits)

lemma owner_ref_managed:
  "owner_ref_law k \<Longrightarrow> lib_set_controller_ref k app obj = Inr obj' \<Longrightarrow> managed_object obj' = managed_object obj"
  by (rule managed_object_same) (simp_all add: object_type_def owner_ref_law_frame)

lemma apply_object_managed:
  assumes "owner_ref_law k" "apply_object k obj fe st w = ((res, obj', st'), w')"
  shows "managed_object obj' = managed_object obj"
  using assms(2) preserve_cluster_ip_managed [of k obj w] owner_ref_managed [OF assms(1)]
  by (fastforce simp: apply_object_def Let_def split: sum.splits prod.splits)

lemma apply_objects_managed:
  assumes "owner_ref_law k"
  shows "apply_objects k applied todo fe st w = ((res, st'), w') \<Longrightarrow> list_all managed_object (applied @ todo) \<Longrightarrow>
    list_all managed_object (rs_desiredObjects st')"
proof (induction todo arbitrary: applied fe st w)
  case (Cons obj objs)
  obtain stop fe1 obj1 st1 w1 where one: "apply_object k obj fe st w = (((stop, fe1), obj1, st1), w1)"
    by (metis surj_pair)
  with apply_object_managed [OF assms one] Cons show ?case by (auto split: if_splits)
qed auto

lemma applyResources_managed:
  assumes "owner_ref_law k" "applyResources k st w = ((e, st'), w')"
    and "list_all managed_object (rs_desiredObjects st)"
  shows "list_all managed_object (rs_desiredObjects st')"
  using assms(2,3) apply_objects_managed [OF assms(1), of "[]" "rs_desiredObjects st" None st w]
  by (fastforce simp: applyResources_def split: if_splits prod.splits bool.splits)

subsection \<open>What is built\<close>

lemma built_objects_managed [simp]:
  "managed_object (config_map_object rc i ns cl)"
  "managed_object (build_workload rc i ns cl sl t vcts)"
  "managed_object (build_headless rc i ns cl sl)"
  by (simp_all add: managed_object_def well_typed_def object_type_def built_types_def config_map_object_def
      build_workload_def build_headless_def BuildConfigMap_def BuildStatefulSet_def BuildHeadlessService_def)

lemma optional_objects_managed:
  "list_all managed_object (build_client_service rc i ns cl sl)" "length (build_client_service rc i ns cl sl) \<le> 1"
  "list_all managed_object (build_service_account rc san ns cl)" "length (build_service_account rc san ns cl) \<le> 1"
  by (simp_all add: build_client_service_def build_service_account_def BuildService_def BuildServiceAccount_def
      managed_object_def well_typed_def object_type_def built_types_def split: option.splits)

lemma component_objects_managed:
  "list_all managed_object (component_objects hash now app c rc ct vct)"
  "length (component_objects hash now app c rc ct vct) \<le> 5"
proof -
  show "list_all managed_object (component_objects hash now app c rc ct vct)"
    by (simp add: component_objects_def optional_objects_managed Let_def)
  have "length (build_client_service rc i ns cl sl) + length (build_service_account rc san ns cl') \<le> n"
    if "2 \<le> n" for i ns cl sl san cl' n
    using optional_objects_managed(2) [of rc i ns cl sl] optional_objects_managed(4) [of rc san ns cl'] that
    by linarith
  then show "length (component_objects hash now app c rc ct vct) \<le> 5"
    by (simp add: component_objects_def Let_def)
qed

text \<open>The typing is part of what the controller relies on in a strategy, besides its contract.\<close>

locale typed_strategy = builder_strategy +
  fixes most :: nat
  assumes build_managed:
    "build app c cfg = (Inr objs, app') \<Longrightarrow> list_all managed_object objs \<and> length objs \<le> most"

lemma BuildObjects_managed:
  assumes "BuildObjects hash now app c cfg = (Inr objs, app')"
  shows "list_all managed_object objs \<and> length objs \<le> 5"
proof -
  from assms obtain rc where cfg: "cfg = Some rc" "verifyParameters (Some rc) c = None"
    by (auto simp: BuildObjects_def split: option.splits)
  show ?thesis
    by (rule BuildObjects_valid [OF cfg(2), of app hash now])
      (use assms cfg component_objects_managed in auto)
qed

interpretation runtime_typed: typed_strategy "BuildObjects hash now" runtime_accepts 5
  for hash :: "str_map \<Rightarrow> string" and now :: string
  by unfold_locales (rule BuildObjects_managed)

subsection \<open>What processing adds\<close>

text \<open>A step adds at most \<open>n\<close> objects, all of them managed ones.\<close>

definition adds :: "nat \<Rightarrow> reconcileState \<Rightarrow> reconcileState \<Rightarrow> bool" where
  "adds n st st' \<longleftrightarrow>
     (\<exists>new. rs_desiredObjects st' = rs_desiredObjects st @ new \<and> length new \<le> n \<and> list_all managed_object new)"

lemma adds_none: "rs_desiredObjects st' = rs_desiredObjects st \<Longrightarrow> adds n st st'"
  by (simp add: adds_def)

lemma adds_trans: "adds m a b \<Longrightarrow> adds n b c \<Longrightarrow> adds (m + n) a c"
  unfolding adds_def by fastforce

lemma adds_cong:
  "rs_desiredObjects a' = rs_desiredObjects a \<Longrightarrow> rs_desiredObjects b' = rs_desiredObjects b \<Longrightarrow>
    adds n a b \<Longrightarrow> adds n a' b'"
  by (simp add: adds_def)

lemma process_objects_adds:
  "list_all managed_object objs \<Longrightarrow> adds (length objs) st (snd (process_objects k c objs st))"
proof (induction objs arbitrary: st)
  case (Cons obj objs)
  let ?obj = "apply_labels (rs_appDef st) c obj"
  let ?st = "set_component (ac_name c) (note_primary k ?obj) (st\<lparr>rs_desiredObjects := rs_desiredObjects st @ [?obj]\<rparr>)"
  have "adds 1 st ?st" using Cons.prems by (simp add: adds_def)
  with Cons have "adds (1 + length objs) st (snd (process_objects k c objs ?st))"
    by (intro adds_trans) simp_all
  moreover have "adds (Suc (length objs)) st (set_component (ac_name c) f st)" for f
    by (rule adds_none) simp
  ultimately show ?case by (simp add: Let_def)
qed (simp add: adds_none)

lemma process_component_adds:
  assumes "process_component k reg c st = (r, st')"
  shows "adds 5 st st'"
proof -
  let ?n = "ac_name c" and ?c = "c\<lparr>ac_type := ''operator''\<rparr>" and ?s1 = "set_message (ac_name c) ''Processing'' st"
  show ?thesis
  proof (cases "rs_desiredObjects st' = rs_desiredObjects st")
    case False
    with assms obtain b cfg objs app e where
      b: "build_with k b (rs_appDef st) c cfg = (Inr objs, app)"
      and st': "rs_desiredObjects st' = rs_desiredObjects (snd (process_objects k ?c objs
        (?s1\<lparr>rs_unmarshalledConfigs := (rs_unmarshalledConfigs ?s1)(?n \<mapsto> cfg), rs_appDef := app\<rparr>)))"
      by (auto simp: process_component_def Let_def split: if_splits option.splits sum.splits prod.splits)
    from b have objs: "list_all managed_object objs" "length objs \<le> 5"
      by (cases b, simp add: runtime_typed.build_managed)+
    have "adds (length objs) st st'"
      by (rule adds_cong [OF _ st' process_objects_adds [OF objs(1)]]) simp
    with objs(2) show ?thesis by (auto simp: adds_def)
  qed (rule adds_none)
qed

lemma process_components_adds:
  "process_components k reg cs st = (r, st') \<Longrightarrow> adds (5 * length cs) st st'"
proof (induction cs arbitrary: st)
  case (Cons c cs)
  obtain r1 st1 where one: "process_component k reg c st = (r1, st1)" by fastforce
  note a = process_component_adds [OF one]
  show ?case
  proof (cases r1)
    case Processed
    with Cons one have "adds (5 * length cs) st1 st'" by simp
    from adds_trans [OF a this] show ?thesis by simp
  qed (use Cons.prems one a in \<open>auto simp: adds_def\<close>)
qed (simp add: adds_none)

lemma processing_managed:
  assumes "processComponentsAndBuildObjects k reg st = (r, st')"
  shows "list_all managed_object (rs_desiredObjects st') \<and>
    length (rs_desiredObjects st') \<le> 5 * length (as_components (ad_spec (rs_appDef st)))"
proof -
  obtain r1 st1 where run: "process_components k reg (as_components (ad_spec (rs_appDef st)))
      (st\<lparr>rs_desiredObjects := []\<rparr>) = (r1, st1)" by fastforce
  from process_components_adds [OF run] have 1: "list_all managed_object (rs_desiredObjects st1)"
    "length (rs_desiredObjects st1) \<le> 5 * length (as_components (ad_spec (rs_appDef st)))"
    by (auto simp: adds_def)
  obtain objs m where p: "pause_resume_loop (is_suspended (rs_appDef st1)) (rs_desiredObjects st1)
      (st_suspendedReplicas (ad_status (rs_appDef st1))) = (objs, m)" by fastforce
  have "rs_desiredObjects st' = rs_desiredObjects st1 \<or> rs_desiredObjects st' = objs"
    using assms run p by (cases r1) (auto simp: processComponentsAndBuildObjects_def handlePauseResume_def Let_def)
  with 1 pause_resume_managed [OF p] show ?thesis by auto
qed

subsection \<open>The desired objects of a run\<close>

lemma apply_and_judge_managed:
  assumes "owner_ref_law k" "apply_and_judge k st w = ((v, st'), w')"
    and "list_all managed_object (rs_desiredObjects st)"
  shows "list_all managed_object (rs_desiredObjects st')"
proof -
  obtain e st1 w1 where a: "applyResources k st w = ((e, st1), w1)" by (metis surj_pair)
  have "rs_desiredObjects st' = rs_desiredObjects st1"
    using assms(2) a
    by (cases e; cases "rs_firstError st1")
      (auto simp: apply_and_judge_def checkHealthAndCalculateStatus_def Let_def split: prod.splits option.splits)
  with applyResources_managed [OF assms(1) a assms(3)] show ?thesis by simp
qed

lemma handleReconcileError_objects:
  "handleReconcileError k reason e st w = ((res, st'), w') \<Longrightarrow> rs_desiredObjects st' = rs_desiredObjects st"
  by (auto simp: handleReconcileError_def Let_def split: prod.splits)

lemma run_components_managed:
  assumes "owner_ref_law k" "run_components k reg st w = Inr ((res, st'), w')"
  shows "list_all managed_object (rs_desiredObjects st')"
proof -
  obtain r st1 where p: "processComponentsAndBuildObjects k reg st = (r, st1)" by fastforce
  note m = conjunct1 [OF processing_managed [OF p]]
  show ?thesis
  proof (cases r)
    case (ProcessFailed e)
    with assms(2) p have "handleReconcileError k ''ProcessingFailed'' e (st1\<lparr>rs_firstError := Some e\<rparr>) w = ((res, st'), w')"
      by (simp add: run_components_def)
    from handleReconcileError_objects [OF this] m show ?thesis by simp
  next
    case Processed
    obtain ready q st2 w2 where j: "apply_and_judge k st1 w = (((ready, q), st2), w2)" by (metis surj_pair)
    with assms(2) p Processed have f: "finish_run k ready q st2 w2 = ((res, st'), w')"
      by (simp add: run_components_def)
    from finish_run_objects [OF f] apply_and_judge_managed [OF assms(1) j m] show ?thesis by simp
  qed (use assms(2) p in \<open>simp add: run_components_def\<close>)
qed

subsection \<open>Properties\<close>

text \<open>
  C13. Every object that a run wants in the cluster is well typed: its API version and kind are those of
  the Go type it holds, after labels, scaling, the kept cluster IP and the owner reference. It is of a
  type whose changes wake the controller, and of a kind that is collected when the components go; a
  StatefulSet is of the kind that \<^verbatim>\<open>GetWorkloadGVK\<close> announces.
\<close>

theorem desired_objects_are_typed:
  assumes "owner_ref_law k" "run_components k reg st w = Inr ((res, st'), w')"
    and "obj \<in> set (rs_desiredObjects st')"
  shows "well_typed obj \<and> object_type obj \<in> set (owned_types v1) \<and> ko_kind obj \<in> set collected_kinds \<and>
    (\<forall>spec status. ko_body obj = StatefulSet spec status \<longrightarrow>
       object_gvk k obj = bs_GetWorkloadGVK (builder_of k RuntimeBuilderStrategy))"
proof -
  have "managed_object obj"
    using run_components_managed [OF assms(1,2)] assms(3) by (simp add: list_all_iff)
  then have t: "well_typed obj" "object_type obj \<in> set built_types" by (simp_all add: managed_object_def)
  then have "object_type obj \<in> set (owned_types v1)" "ko_kind obj \<in> set collected_kinds"
    using built_types_owned [of v1] built_types_collected by (force simp: object_type_def)+
  with t(1) workload_gvk [OF t(1)] show ?thesis by blast
qed

lemma example_objects:
  obtains res st' w' where
    "run_components example_cluster example_registry example_start example_rest = Inr ((res, st'), w')"
    "rs_desiredObjects st' \<noteq> []"
proof -
  obtain st1 st2 w2 where p: "processComponentsAndBuildObjects example_cluster example_registry example_start = (Processed, st1)"
    and j: "apply_and_judge example_cluster st1 example_rest = (((True, False), st2), w2)"
    and e: "rs_firstError st2 = None" by (rule example_judged)
  have "rs_desiredObjects (snd (processComponentsAndBuildObjects example_cluster example_registry example_start)) \<noteq> []"
    by code_simp
  with p have "rs_desiredObjects st1 \<noteq> []" by simp
  moreover obtain st3 w3 where "applyResources example_cluster st1 example_rest = ((None, st3), w3)"
    "rs_desiredObjects st2 = rs_desiredObjects st3" using apply_and_judge_ok [OF j e] by metis
  ultimately have "rs_desiredObjects st2 \<noteq> []" using applyResources_ok by (metis length_0_conv)
  moreover obtain res st' w' where f: "finish_run example_cluster True False st2 w2 = ((res, st'), w')" by (metis surj_pair)
  ultimately show thesis using finish_run_objects [OF f] p j f that by (simp add: run_components_def)
qed

theorem desired_objects_are_typed_witness: "\<exists>obj. well_typed obj \<and> ko_kind obj \<in> set collected_kinds"
proof -
  obtain res st' w' where
    run: "run_components example_cluster example_registry example_start example_rest = Inr ((res, st'), w')"
    and "rs_desiredObjects st' \<noteq> []" by (rule example_objects)
  moreover have "owner_ref_law example_cluster"
    using bare_laws(5) by (simp add: example_cluster_def owner_ref_law_def)
  ultimately show ?thesis using desired_objects_are_typed [of example_cluster] by (meson last_in_set)
qed

end
