(* ===== verification/Observers.thy ===== *)
theory Observers
  imports Controller
begin

text \<open>
  Watching a run does not change it. A cluster \<open>k'\<close> that keeps a record beside the world of a cluster \<open>k\<close>
  (a counter, a log) answers as \<open>k\<close> does; \<open>h\<close> forgets the record. Then every operation of the controller
  does the same with both: what is proved of a run that is recorded holds of the run itself, and every
  run can be recorded.
\<close>

text \<open>The library functions are the same, and each call is the call that is observed.\<close>

definition same_library :: "'v cluster \<Rightarrow> 'w cluster \<Rightarrow> bool" where
  "same_library k' k \<longleftrightarrow>
     lib_gvk k = lib_gvk k' \<and> lib_gvk_string k = lib_gvk_string k' \<and> lib_gv_string k = lib_gv_string k' \<and>
     lib_key_string k = lib_key_string k' \<and> lib_scheme_new k = lib_scheme_new k' \<and>
     lib_from_unstructured k = lib_from_unstructured k' \<and>
     lib_set_controller_ref k = lib_set_controller_ref k' \<and> lib_set_condition k = lib_set_condition k' \<and>
     lib_contains_finalizer k = lib_contains_finalizer k' \<and> lib_add_finalizer k = lib_add_finalizer k' \<and>
     lib_remove_finalizer k = lib_remove_finalizer k' \<and> lib_unmarshal k = lib_unmarshal k' \<and>
     lib_now k = lib_now k' \<and> lib_seconds k = lib_seconds k' \<and> lib_range k = lib_range k'"

definition same_call :: "('v \<Rightarrow> 'w) \<Rightarrow> ('v \<Rightarrow> 'r \<times> 'v) \<Rightarrow> ('w \<Rightarrow> 'r \<times> 'w) \<Rightarrow> bool" where
  "same_call h f' f \<longleftrightarrow> (\<forall>w. f (h w) = map_prod id h (f' w))"

definition same_calls :: "('v \<Rightarrow> 'w) \<Rightarrow> 'v cluster \<Rightarrow> 'w cluster \<Rightarrow> bool" where
  "same_calls h k' k \<longleftrightarrow>
     (\<forall>key. same_call h (kc_get_app k' key) (kc_get_app k key)) \<and>
     (\<forall>app. same_call h (kc_update_app k' app) (kc_update_app k app)) \<and>
     (\<forall>app. same_call h (kc_status_update k' app) (kc_status_update k app)) \<and>
     (\<forall>key. same_call h (kc_get_service k' key) (kc_get_service k key)) \<and>
     (\<forall>key. same_call h (kc_get_endpoints k' key) (kc_get_endpoints k key)) \<and>
     (\<forall>g key. same_call h (kc_get_unstructured k' g key) (kc_get_unstructured k g key)) \<and>
     (\<forall>obj. same_call h (kc_get_object k' obj) (kc_get_object k obj)) \<and>
     (\<forall>obj. same_call h (kc_create k' obj) (kc_create k obj)) \<and>
     (\<forall>obj fm. same_call h (kc_patch k' obj fm) (kc_patch k obj fm)) \<and>
     (\<forall>ns l. same_call h (kc_list_pvcs k' ns l) (kc_list_pvcs k ns l)) \<and>
     (\<forall>key. same_call h (kc_delete_pvc k' key) (kc_delete_pvc k key)) \<and>
     (\<forall>kind ns l. same_call h (kc_delete_all_of k' kind ns l) (kc_delete_all_of k kind ns l)) \<and>
     (\<forall>obj. same_call h (kc_create_if_not_exist k' obj) (kc_create_if_not_exist k obj)) \<and>
     (\<forall>obj. same_call h (kc_reconcile_resource k' obj) (kc_reconcile_resource k obj))"

text \<open>What is the same for both clusters, operation by operation.\<close>

named_theorems same_run

locale observed =
  fixes h :: "'v \<Rightarrow> 'w" and k' :: "'v cluster" and k :: "'w cluster"
  assumes library: "same_library k' k"
    and calls: "same_calls h k' k"
begin

lemma lib_simps [same_run]:
  "lib_gvk k = lib_gvk k'" "lib_gvk_string k = lib_gvk_string k'" "lib_gv_string k = lib_gv_string k'"
  "lib_key_string k = lib_key_string k'" "lib_scheme_new k = lib_scheme_new k'"
  "lib_from_unstructured k = lib_from_unstructured k'" "lib_set_controller_ref k = lib_set_controller_ref k'"
  "lib_set_condition k = lib_set_condition k'" "lib_contains_finalizer k = lib_contains_finalizer k'"
  "lib_add_finalizer k = lib_add_finalizer k'" "lib_remove_finalizer k = lib_remove_finalizer k'"
  "lib_unmarshal k = lib_unmarshal k'" "lib_now k = lib_now k'" "lib_seconds k = lib_seconds k'"
  "lib_range k = lib_range k'"
  using library by (simp_all add: same_library_def)

lemma call_simps [same_run]:
  "kc_get_app k key (h w) = map_prod id h (kc_get_app k' key w)"
  "kc_update_app k app (h w) = map_prod id h (kc_update_app k' app w)"
  "kc_status_update k app (h w) = map_prod id h (kc_status_update k' app w)"
  "kc_get_service k key (h w) = map_prod id h (kc_get_service k' key w)"
  "kc_get_endpoints k key (h w) = map_prod id h (kc_get_endpoints k' key w)"
  "kc_get_unstructured k g key (h w) = map_prod id h (kc_get_unstructured k' g key w)"
  "kc_list_pvcs k ns l (h w) = map_prod id h (kc_list_pvcs k' ns l w)"
  "kc_delete_pvc k key (h w) = map_prod id h (kc_delete_pvc k' key w)"
  "kc_delete_all_of k kind ns l (h w) = map_prod id h (kc_delete_all_of k' kind ns l w)"
  "kc_create_if_not_exist k obj (h w) = map_prod id h (kc_create_if_not_exist k' obj w)"
  "kc_reconcile_resource k obj (h w) = map_prod id h (kc_reconcile_resource k' obj w)"
  using calls by (simp_all add: same_calls_def same_call_def del: split_paired_All)

text \<open>Operations that make no call.\<close>

lemma pure_simps [same_run]:
  "object_gvk k = object_gvk k'"
  "setCondition k = setCondition k'"
  "mapToSliceComponentStatus k = mapToSliceComponentStatus k'"
  "recordEvent k = recordEvent k'"
  "has_finalizer k = has_finalizer k'"
  "add_finalizer k = add_finalizer k'"
  "remove_finalizer k = remove_finalizer k'"
  "UnmarshalAppSpecificConfig k = UnmarshalAppSpecificConfig k'"
  by (intro ext; simp only: object_gvk_def setCondition_def mapToSliceComponentStatus_def recordEvent_def
      has_finalizer_def add_finalizer_def remove_finalizer_def UnmarshalAppSpecificConfig_def lib_simps)+

lemma workloadGVK_same [same_run]: "workloadGVK k = workloadGVK k'"
  by (simp add: same_run workloadGVK_def)

lemma pure_simps2 [same_run]:
  "missing_identity k = missing_identity k'"
  "missing_identity_error k = missing_identity_error k'"
  "BuildObjectResultMapKey k = BuildObjectResultMapKey k'"
  "builder_of k = builder_of k'"
  "recordEventf k = recordEventf k'"
  "determineFinalPhase k = determineFinalPhase k'"
  "start_processing k = start_processing k'"
  "unnamed_object_error k = unnamed_object_error k'"
  "note_primary k = note_primary k'"
  "failure_text k = failure_text k'"
  by (intro ext; simp only: missing_identity_def missing_identity_error_def BuildObjectResultMapKey_def
      builder_of_def recordEventf_def determineFinalPhase_def start_processing_def unnamed_object_error_def
      note_primary_def failure_text_def same_run)+

lemma pure_simps3 [same_run]:
  "updateComponentStatusForApplyError k = updateComponentStatusForApplyError k'"
  "apply_failed_for k = apply_failed_for k'"
  "apply_event k = apply_event k'"
  "build_with k = build_with k'"
  "completion_event k = completion_event k'"
  by (intro ext; simp only: updateComponentStatusForApplyError_def apply_failed_for_def apply_event_def
      build_with_def completion_event_def same_run)+

lemma pure_simps4 [same_run]:
  "updateComponentStatusesFromApplyResults k = updateComponentStatusesFromApplyResults k'"
  "note_apply_error k = note_apply_error k'"
  "conclude k = conclude k'"
  by (intro ext; simp only: updateComponentStatusesFromApplyResults_def note_apply_error_def conclude_def
      same_run)+

lemma pure_simps5 [same_run]:
  "settle_result k = settle_result k'"
  by (intro ext; simp only: settle_result_def same_run)+

lemma process_objects_same [same_run]: "process_objects k c objs st = process_objects k' c objs st"
  by (induction objs arbitrary: st) (simp_all add: same_run Let_def)

lemma process_component_same [same_run]: "process_component k reg c st = process_component k' reg c st"
  by (simp only: process_component_def same_run)

lemma process_components_same [same_run]: "process_components k reg cs st = process_components k' reg cs st"
  by (induction cs arbitrary: st) (simp_all add: same_run split: prod.split processResult.split)

lemma processing_same [same_run]: "processComponentsAndBuildObjects k = processComponentsAndBuildObjects k'"
  by (simp add: same_run fun_eq_iff processComponentsAndBuildObjects_def)

text \<open>The writes of the application.\<close>

lemma loops_same [same_run]:
  "add_finalizer_loop k n app (h w) = map_prod id h (add_finalizer_loop k' n app w)"
  "remove_finalizer_loop k n app (h w) = map_prod id h (remove_finalizer_loop k' n app w)"
  "initial_phase_loop k n app (h w) = map_prod id h (initial_phase_loop k' n app w)"
  "status_update_loop k s n app (h w) = map_prod id h (status_update_loop k' s n app w)"
  by (induction n arbitrary: app w) (simp_all add: same_run split: prod.split sum.split)

lemma delete_pvcs_same [same_run]: "delete_pvcs k pvcs (h w) = map_prod id h (delete_pvcs k' pvcs w)"
  by (induction pvcs arbitrary: w) (simp_all add: same_run split: prod.split option.split)

lemma updates_same [same_run]:
  "cleanup_pvcs k app (h w) = map_prod id h (cleanup_pvcs k' app w)"
  "updateStatusIfNeeded k app s (h w) = map_prod id h (updateStatusIfNeeded k' app s w)"
  "setInitialPhase k st (h w) = map_prod id h (setInitialPhase k' st w)"
  by (simp_all add: same_run cleanup_pvcs_def updateStatusIfNeeded_def setInitialPhase_def Let_def
      split: prod.split sum.split retryResult.split)

lemma handleFinalizer_same [same_run]: "handleFinalizer k app (h w) = map_prod id h (handleFinalizer k' app w)"
  by (simp add: same_run handleFinalizer_def split: prod.split option.split retryResult.split)

text \<open>The rollout.\<close>

lemma reconcile_attempts_same [same_run]:
  "reconcile_attempts k obj n (h w) = map_prod id h (reconcile_attempts k' obj n w)"
  by (induction n arbitrary: w) (simp_all add: same_run split: prod.split sum.split)

lemma objects_same [same_run]:
  "ApplyObjectV2 k obj fm (h w) = map_prod id h (ApplyObjectV2 k' obj fm w)"
  "preserve_cluster_ip k obj (h w) = map_prod id h (preserve_cluster_ip k' obj w)"
  by (simp_all add: same_run ApplyObjectV2_def preserve_cluster_ip_def
      split: prod.split sum.split option.split bool.split objectBody.split)

lemma apply_object_same [same_run]: "apply_object k obj fe st (h w) = map_prod id h (apply_object k' obj fe st w)"
  by (simp add: same_run apply_object_def Let_def split: prod.split sum.split)

lemma apply_objects_same [same_run]:
  "apply_objects k applied objs fe st (h w) = map_prod id h (apply_objects k' applied objs fe st w)"
  by (induction objs arbitrary: applied fe st w) (simp_all add: same_run split: prod.split)

lemma applyResources_same [same_run]: "applyResources k st (h w) = map_prod id h (applyResources k' st w)"
  by (simp add: same_run applyResources_def split: prod.split bool.split)

lemma checks_same [same_run]:
  "checkServiceHealth k key spec ingress (h w) = map_prod id h (checkServiceHealth k' key spec ingress w)"
  by (simp add: same_run checkServiceHealth_def split: prod.split sum.split)

lemma CheckHealth_same [same_run]:
  "check_typed k kind g obj (h w) = map_prod id h (check_typed k' kind g obj w)"
  "CheckHealth k ns name av kind (h w) = map_prod id h (CheckHealth k' ns name av kind w)"
proof -
  show t: "check_typed k kind g obj (h w) = map_prod id h (check_typed k' kind g obj w)" for kind g obj w
    by (simp add: same_run check_typed_def split: objectBody.split)
  show "CheckHealth k ns name av kind (h w) = map_prod id h (CheckHealth k' ns name av kind w)"
    by (simp add: same_run CheckHealth_def t Let_def split: prod.split sum.split option.split)
qed

lemma check_component_same [same_run]:
  "check_component k app n cs (h w) = map_prod id h (check_component k' app n cs w)"
  by (simp add: same_run check_component_def Let_def split: prod.split list.split option.split)

lemma check_components_same [same_run]:
  "check_components k app names v m (h w) = map_prod id h (check_components k' app names v m w)"
  by (induction names arbitrary: v m w) (simp_all add: same_run split: prod.split option.split)

text \<open>The run.\<close>

lemma collect_kinds_same [same_run]: "collect_kinds k app kinds (h w) = h (collect_kinds k' app kinds w)"
  by (induction kinds arbitrary: w) (simp_all add: same_run map_prod_def split: prod.split)

lemma ends_same [same_run]:
  "handleEmptyApp k st (h w) = map_prod id h (handleEmptyApp k' st w)"
  "handleReconcileError k reason e st (h w) = map_prod id h (handleReconcileError k' reason e st w)"
  "finish_run k ready q st (h w) = map_prod id h (finish_run k' ready q st w)"
  "checkHealthAndCalculateStatus k st (h w) = map_prod id h (checkHealthAndCalculateStatus k' st w)"
  by (simp_all add: same_run handleEmptyApp_def handleReconcileError_def finish_run_def
      checkHealthAndCalculateStatus_def Let_def split: prod.split)

lemma apply_and_judge_same [same_run]: "apply_and_judge k st (h w) = map_prod id h (apply_and_judge k' st w)"
  by (simp add: same_run apply_and_judge_def Let_def split: prod.split option.split)

lemma run_components_same [same_run]:
  "run_components k reg st (h w) = map_sum id (map_prod id h) (run_components k' reg st w)"
  by (simp add: same_run run_components_def split: prod.split processResult.split)

lemma run_initialised_same [same_run]:
  "run_initialised k reg st (h w) = map_sum id (map_prod id h) (run_initialised k' reg st w)"
  by (simp add: same_run run_initialised_def Let_def split: prod.split)

lemma run_fetched_same [same_run]:
  "run_fetched k reg app (h w) = map_sum id (map_prod id h) (run_fetched k' reg app w)"
  by (simp add: same_run run_fetched_def Let_def split: prod.split option.split)

lemma Reconcile_same:
  "Reconcile k reg watched req (h w) = map_sum id (map_prod id h) (Reconcile k' reg watched req w)"
  by (simp add: same_run Reconcile_def split: prod.split sum.split)

text \<open>Every run can be recorded.\<close>

lemma Reconcile_recorded:
  assumes "Reconcile k reg watched req (h v) = Inr (out, w')"
  obtains v' where "Reconcile k' reg watched req v = Inr (out, v')" "h v' = w'"
  using assms unfolding Reconcile_same by (cases "Reconcile k' reg watched req v") auto

end

end
