(* ===== verification/CallBounds.thy ===== *)
theory CallBounds
  imports Histories DesiredObjects Observers
begin

text \<open>
  How many requests to the Kubernetes API a run makes. \<open>calls w\<close> counts the requests that were answered in
  the world \<open>w\<close>. A call of the client is one request (or none, when it is answered from a cache);
  \<^verbatim>\<open>CreateIfNotExist\<close> and \<^verbatim>\<open>ReconcileResource\<close> of \<^verbatim>\<open>operator-tools\<close> make several, at most \<open>h\<close> each.
  Every loop of the controller is bounded: three attempts for an update, three for an object, one pass over
  the objects, the components, the claims and the kinds. So a run ends after a number of requests that is
  known in advance, whatever the answers are.
\<close>

definition costs :: "('w \<Rightarrow> nat) \<Rightarrow> nat \<Rightarrow> 'w \<Rightarrow> 'w \<Rightarrow> bool" where
  "costs calls n w w' \<longleftrightarrow> calls w' \<le> calls w + n"

definition metered :: "'w cluster \<Rightarrow> ('w \<Rightarrow> nat) \<Rightarrow> nat \<Rightarrow> bool" where
  "metered k calls h \<longleftrightarrow>
     (\<forall>key w. costs calls 1 w (snd (kc_get_app k key w))) \<and>
     (\<forall>app w. costs calls 1 w (snd (kc_update_app k app w))) \<and>
     (\<forall>app w. costs calls 1 w (snd (kc_status_update k app w))) \<and>
     (\<forall>key w. costs calls 1 w (snd (kc_get_service k key w))) \<and>
     (\<forall>key w. costs calls 1 w (snd (kc_get_endpoints k key w))) \<and>
     (\<forall>g key w. costs calls 1 w (snd (kc_get_unstructured k g key w))) \<and>
     (\<forall>ns l w. costs calls 1 w (snd (kc_list_pvcs k ns l w))) \<and>
     (\<forall>pvc w. costs calls 1 w (snd (kc_delete_pvc k pvc w))) \<and>
     (\<forall>kind ns l w. costs calls 1 w (snd (kc_delete_all_of k kind ns l w))) \<and>
     (\<forall>obj w. costs calls h w (snd (kc_create_if_not_exist k obj w))) \<and>
     (\<forall>obj w. costs calls h w (snd (kc_reconcile_resource k obj w)))"

text \<open>The applications have at most \<open>c\<close> components, and a list at most \<open>n\<close> volume claims.\<close>

definition sized :: "'w cluster \<Rightarrow> nat \<Rightarrow> nat \<Rightarrow> bool" where
  "sized k c n \<longleftrightarrow>
     (\<forall>key w app w'. kc_get_app k key w = (Inr app, w') \<longrightarrow> length (as_components (ad_spec app)) \<le> c) \<and>
     (\<forall>app w app' w'. kc_update_app k app w = (Inr app', w') \<longrightarrow> length (as_components (ad_spec app')) \<le> c) \<and>
     (\<forall>ns l w pvcs w'. kc_list_pvcs k ns l w = (Inr pvcs, w') \<longrightarrow> length pvcs \<le> n)"

lemma costs_trans: "costs calls m w w1 \<Longrightarrow> costs calls n w1 w2 \<Longrightarrow> m + n \<le> l \<Longrightarrow> costs calls l w w2"
  by (simp add: costs_def)

lemma costs_mono: "costs calls m w w' \<Longrightarrow> m \<le> n \<Longrightarrow> costs calls n w w'"
  by (simp add: costs_def)

lemma costs_refl [simp]: "costs calls n w w"
  by (simp add: costs_def)

lemma call_costs:
  assumes "metered k calls h"
  shows "kc_get_service k key w = (r1, w') \<Longrightarrow> costs calls 1 w w'"
    "kc_get_endpoints k key w = (r2, w') \<Longrightarrow> costs calls 1 w w'"
    "kc_get_unstructured k g key w = (r3, w') \<Longrightarrow> costs calls 1 w w'"
    "kc_create_if_not_exist k obj w = (r4, w') \<Longrightarrow> costs calls h w w'"
    "kc_reconcile_resource k obj w = (r4, w') \<Longrightarrow> costs calls h w w'"
    "kc_list_pvcs k ns l w = (r5, w') \<Longrightarrow> costs calls 1 w w'"
    "kc_delete_pvc k key w = (r6, w') \<Longrightarrow> costs calls 1 w w'"
    "costs calls 1 w (snd (kc_delete_all_of k kind ns l w))"
    "kc_get_app k key w = (r7, w') \<Longrightarrow> costs calls 1 w w'"
    "kc_update_app k app w = (r7, w') \<Longrightarrow> costs calls 1 w w'"
    "kc_status_update k app w = (r7, w') \<Longrightarrow> costs calls 1 w w'"
  using assms unfolding metered_def by (metis snd_conv)+

subsection \<open>The objects\<close>

lemma reconcile_attempts_cost:
  assumes "metered k calls h"
  shows "reconcile_attempts k obj n w = (r, w') \<Longrightarrow> costs calls (h * n) w w'"
proof (induction n arbitrary: w)
  case (Suc n)
  obtain a w1 where call: "kc_reconcile_resource k obj w = (a, w1)" by fastforce
  note one = call_costs(5) [OF assms call]
  from Suc.prems call have "w' = w1 \<or> reconcile_attempts k obj n w1 = (r, w')"
    by (auto split: sum.splits if_splits)
  with Suc.IH [of w1] costs_trans [OF one, of "h * n" w' "h * Suc n"] costs_mono [OF one, of "h * Suc n"] show ?case by auto
qed simp

lemma ApplyObjectV2_cost:
  assumes "metered k calls h" "ApplyObjectV2 k obj fm w = (r, w')"
  shows "costs calls (4 * h) w w'"
proof -
  obtain a w1 where call: "kc_create_if_not_exist k obj w = (a, w1)" by fastforce
  obtain e w2 where rest: "reconcile_attempts k obj max_retries w1 = (e, w2)" by fastforce
  note one = call_costs(4) [OF assms(1) call]
  have three: "costs calls (3 * h) w1 w2"
    using reconcile_attempts_cost [OF assms(1) rest] by (simp add: max_retries_def mult.commute)
  from assms(2) call rest have "w' = w \<or> w' = w1 \<or> w' = w2"
    by (auto simp: ApplyObjectV2_def split: if_splits sum.splits bool.splits option.splits)
  with costs_trans [OF one three, of "4 * h"] costs_mono [OF one, of "4 * h"] show ?thesis by auto
qed

lemma apply_object_cost:
  assumes "metered k calls h" "apply_object k obj fe st w = (r, w')"
  shows "costs calls (1 + 4 * h) w w'"
proof -
  obtain a w1 where ip: "preserve_cluster_ip k obj w = (a, w1)" by fastforce
  have one: "costs calls 1 w w1"
    using ip by (auto simp: preserve_cluster_ip_def split: objectBody.splits prod.splits sum.splits if_splits
        dest: call_costs(1) [OF assms(1)])
  from assms(2) ip have "w' = w1 \<or> (\<exists>obj2 r2. ApplyObjectV2 k obj2 OperatorName w1 = (r2, w'))"
    by (auto simp: apply_object_def Let_def split: sum.splits prod.splits)
  with ApplyObjectV2_cost [OF assms(1)] costs_trans [OF one, of "4 * h" w' "1 + 4 * h"] costs_mono [OF one, of "1 + 4 * h"]
  show ?thesis by auto
qed

lemma apply_objects_cost:
  assumes "metered k calls h"
  shows "apply_objects k applied todo fe st w = (r, w') \<Longrightarrow> costs calls ((1 + 4 * h) * length todo) w w'"
proof (induction todo arbitrary: applied fe st w)
  case (Cons obj objs)
  obtain stop fe1 obj1 st1 w1 where one: "apply_object k obj fe st w = (((stop, fe1), obj1, st1), w1)"
    by (metis surj_pair)
  note c = apply_object_cost [OF assms one]
  from Cons.prems one have "w' = w1 \<or> apply_objects k (applied @ [obj1]) objs fe1 st1 w1 = (r, w')"
    by (auto split: if_splits)
  with Cons.IH [of "applied @ [obj1]" fe1 st1 w1] costs_trans [OF c, of "(1 + 4 * h) * length objs" w'] costs_mono [OF c]
  show ?case by auto
qed simp

lemma applyResources_cost:
  assumes "metered k calls h" "applyResources k st w = ((e, st'), w')"
  shows "costs calls ((1 + 4 * h) * length (rs_desiredObjects st)) w w'"
proof -
  obtain r w1 where run: "apply_objects k [] (rs_desiredObjects st) None st w = (r, w1)" by fastforce
  from assms(2) run have "w' = w \<or> w' = w1" by (auto simp: applyResources_def split: if_splits prod.splits bool.splits)
  with apply_objects_cost [OF assms(1) run] show ?thesis by auto
qed

subsection \<open>The components\<close>

lemma CheckHealth_cost:
  assumes "metered k calls h" "CheckHealth k ns n av kd w = (r, w')"
  shows "costs calls 2 w w'"
proof -
  have service: "checkServiceHealth k key spec ing w1 = (r, w') \<Longrightarrow> costs calls 1 w1 w'" for key spec ing w1 r w'
    by (auto simp: checkServiceHealth_def split: if_splits prod.splits sum.splits
        dest: call_costs(2) [OF assms(1)])
  have typed: "check_typed k kd g obj w1 = (r, w') \<Longrightarrow> costs calls 1 w1 w'" for g obj w1 r w'
    by (cases "ko_body obj") (auto simp: check_typed_def dest: service)
  obtain a w1 where call: "kc_get_unstructured k (lib_gvk k av kd) (NsName ns n) w = (a, w1)" by fastforce
  note one = call_costs(3) [OF assms(1) call]
  from assms(2) call have "w' = w1 \<or> (\<exists>g obj. check_typed k kd g obj w1 = (r, w'))"
    by (auto simp: CheckHealth_def Let_def split: sum.splits option.splits)
  moreover have "costs calls 2 w w1" by (rule costs_mono [OF one]) simp
  moreover have "costs calls 2 w w'" if "check_typed k kd g obj w1 = (r, w')" for g obj
    by (rule costs_trans [OF one typed [OF that]]) simp
  ultimately show ?thesis by blast
qed

lemma check_component_cost:
  assumes "metered k calls h" "check_component k app n cs w = (r, w')"
  shows "costs calls 2 w w'"
proof (cases "as_components (ad_spec app)")
  case Nil
  with assms(2) show ?thesis by (simp add: check_component_def)
next
  case (Cons spec rest)
  obtain a b h w1 where c: "CheckHealth k (app_namespace app) n (ac_apiVersion spec) (ac_kind spec) w = ((a, b, h), w1)"
    by (metis surj_pair)
  with Cons assms(2) have "w' = w \<or> w' = w1"
    by (cases h) (auto simp: check_component_def Let_def split: if_splits)
  with CheckHealth_cost [OF assms(1) c] show ?thesis by auto
qed

lemma check_components_cost:
  assumes "metered k calls h"
  shows "check_components k app names v m w = (r, w') \<Longrightarrow> costs calls (2 * length names) w w'"
proof (induction names arbitrary: v m w)
  case (Cons n names)
  show ?case
  proof (cases "map_of m n")
    case None
    with Cons have "costs calls (2 * length names) w w'" by simp
    then show ?thesis by (rule costs_mono) simp
  next
    case (Some cs)
    obtain cs1 v1 w1 where one: "check_component k app n cs w = ((cs1, v1), w1)" by (metis surj_pair)
    with Cons.prems Some have "check_components k app names (combine v v1) (AList.update n cs1 m) w1 = (r, w')"
      by simp
    from costs_trans [OF check_component_cost [OF assms one] Cons.IH [OF this]] show ?thesis by simp
  qed
qed simp

lemma apply_and_judge_cost:
  assumes "metered k calls h" "range_law k" "apply_and_judge k st w = ((v, st'), w')"
    and "statuses_ok (rs_componentStatuses st)"
  shows "costs calls ((1 + 4 * h) * length (rs_desiredObjects st) + 2 * card (fst ` set (rs_componentStatuses st))) w w'"
proof -
  obtain e st1 w1 where a: "applyResources k st w = ((e, st1), w1)" by (metis surj_pair)
  let ?m = "rs_componentStatuses st1"
  obtain v1 m w2 where c: "check_components k (rs_appDef st1) (lib_range k (map fst ?m)) (True, False, None) ?m w1 = ((v1, m), w2)"
    by (metis surj_pair)
  from applyResources_kept [OF a] assms(4) have m: "fst ` set ?m = fst ` set (rs_componentStatuses st)" "statuses_ok ?m"
    by (simp_all add: kept_def)
  have "length (lib_range k (map fst ?m)) = card (fst ` set ?m)"
    using range_names [OF assms(2) m(2)] distinct_card by metis
  with check_components_cost [OF assms(1) c] m(1)
  have judge: "costs calls (2 * card (fst ` set (rs_componentStatuses st))) w1 w2" by simp
  note ap = applyResources_cost [OF assms(1) a]
  have "w' = w1 \<or> w' = w2"
    using assms(3) a c
    by (cases e; cases "rs_firstError st1"; cases "snd (snd v1)")
      (auto simp: apply_and_judge_def checkHealthAndCalculateStatus_def Let_def split: prod.splits)
  with costs_trans [OF ap judge] costs_mono [OF ap] show ?thesis by auto
qed

subsection \<open>The deletions and the updates\<close>

lemma collect_kinds_cost:
  assumes "metered k calls h"
  shows "costs calls (length kinds) w (collect_kinds k app kinds w)"
proof (induction kinds arbitrary: w)
  case (Cons kind kinds)
  from costs_trans [OF call_costs(8) [OF assms] Cons.IH] show ?case by simp
qed simp

lemma cleanup_pvcs_cost:
  assumes "metered k calls h" "sized k c n" "cleanup_pvcs k app w = (r, w')"
  shows "costs calls (1 + n) w w'"
proof -
  have del: "delete_pvcs k pvcs w1 = (r, w') \<Longrightarrow> costs calls (length pvcs) w1 w'" for pvcs w1
  proof (induction pvcs arbitrary: w1)
    case (Cons pvc pvcs)
    obtain e w2 where call: "kc_delete_pvc k pvc w1 = (e, w2)" by fastforce
    note one = call_costs(7) [OF assms(1) call]
    from Cons.prems call have "w' = w2 \<or> delete_pvcs k pvcs w2 = (r, w')"
      by (auto split: option.splits if_splits)
    with Cons.IH [of w2] costs_trans [OF one, of "length pvcs" w' "Suc (length pvcs)"]
      costs_mono [OF one, of "Suc (length pvcs)"] show ?case by auto
  qed simp
  obtain a w1 where call: "kc_list_pvcs k (app_namespace app) (AppNameLabel, app_name app) w = (a, w1)" by fastforce
  note one = call_costs(6) [OF assms(1) call]
  show ?thesis
  proof (cases a)
    case (Inl e)
    with assms(3) call costs_mono [OF one, of "1 + n"] show ?thesis by (simp add: cleanup_pvcs_def)
  next
    case (Inr pvcs)
    with assms(2) call have "length pvcs \<le> n" unfolding sized_def by blast
    moreover from Inr assms(3) call have "delete_pvcs k pvcs w1 = (r, w')" by (simp add: cleanup_pvcs_def)
    ultimately show ?thesis using costs_trans [OF one del] by simp
  qed
qed

context conflict_retry
begin

text \<open>Two calls for each attempt.\<close>

lemma loop_cost:
  assumes "\<And>app w r w'. write app w = (r, w') \<Longrightarrow> costs calls 1 w w'"
    and "\<And>key w r w'. fetch key w = (r, w') \<Longrightarrow> costs calls 1 w w'"
  shows "loop n app w = ((res, app'), w') \<Longrightarrow> costs calls (2 * n) w w'"
proof (induction n arbitrary: app w)
  case 0
  then show ?case by (simp add: loop_0)
next
  case (Suc n)
  obtain r w1 where wr: "write app w = (r, w1)" by fastforce
  obtain r2 w2 where rd: "fetch (app_key app) w1 = (r2, w2)" by fastforce
  have two: "costs calls 2 w w2" by (rule costs_trans [OF assms(1) [OF wr] assms(2) [OF rd]]) simp
  have "w' = w1 \<or> w' = w2 \<or> (\<exists>a. loop n a w2 = ((res, app'), w'))"
  proof (cases r)
    case (Inr a)
    with Suc.prems wr loop_written show ?thesis by auto
  next
    case (Inl e)
    with Suc.prems wr rd show ?thesis
      by (cases "is_conflict e"; cases r2) (auto simp: loop_stopped loop_fetch_failed loop_again)
  qed
  with costs_mono [OF assms(1) [OF wr]] costs_mono [OF two] costs_trans [OF two Suc.IH] show ?case by auto
qed

end

lemma loop_costs:
  assumes "metered k calls h"
  shows "add_finalizer_loop k max_attempts app w = ((res, a), w') \<Longrightarrow> costs calls 6 w w'"
    "remove_finalizer_loop k max_attempts app w = ((res, a), w') \<Longrightarrow> costs calls 6 w w'"
    "initial_phase_loop k max_attempts app w = ((res, a), w') \<Longrightarrow> costs calls 6 w w'"
    "status_update_loop k desired max_attempts app w = ((res, a), w') \<Longrightarrow> costs calls 6 w w'"
proof -
  show "costs calls 6 w w'" if "add_finalizer_loop k max_attempts app w = ((res, a), w')"
    using finalizer_adding.loop_cost [OF call_costs(10) [OF assms] call_costs(9) [OF assms] that]
    by (simp add: max_attempts_def)
  show "costs calls 6 w w'" if "remove_finalizer_loop k max_attempts app w = ((res, a), w')"
    using finalizer_removal.loop_cost [OF call_costs(10) [OF assms] call_costs(9) [OF assms] that]
    by (simp add: max_attempts_def)
  show "costs calls 6 w w'" if "initial_phase_loop k max_attempts app w = ((res, a), w')"
    using initial_phase.loop_cost [OF call_costs(11) [OF assms] call_costs(9) [OF assms] that]
    by (simp add: max_attempts_def)
  show "costs calls 6 w w'" if "status_update_loop k desired max_attempts app w = ((res, a), w')"
    using status_write.loop_cost [OF call_costs(11) [OF assms] call_costs(9) [OF assms] that]
    by (simp add: max_attempts_def)
qed

lemma updateStatusIfNeeded_cost:
  assumes "metered k calls h" "updateStatusIfNeeded k app orig w = ((out, a), w')"
  shows "costs calls 6 w w'"
proof -
  let ?app = "observe_generation app"
  obtain r a1 w1 where loop: "status_update_loop k (ad_status ?app) max_attempts ?app w = ((r, a1), w1)"
    by (metis surj_pair)
  note loop_costs(4) [OF assms(1) loop]
  moreover have "w' = w \<or> w' = w1"
    using assms(2) loop by (cases r) (auto simp: updateStatusIfNeeded_def Let_def split: if_splits)
  ultimately show ?thesis by auto
qed

lemma update_costs:
  assumes "metered k calls h"
  shows "finish_run k r q st w = ((res, st'), w') \<Longrightarrow> costs calls 6 w w'"
    "handleReconcileError k reason e st w = ((res, st'), w') \<Longrightarrow> costs calls 6 w w'"
    "handleEmptyApp k st w = ((res, st'), w') \<Longrightarrow> costs calls 13 w w'"
proof -
  show "finish_run k r q st w = ((res, st'), w') \<Longrightarrow> costs calls 6 w w'"
    by (auto simp: finish_run_def Let_def split: prod.splits dest: updateStatusIfNeeded_cost [OF assms])
  show "handleReconcileError k reason e st w = ((res, st'), w') \<Longrightarrow> costs calls 6 w w'"
    by (auto simp: handleReconcileError_def Let_def split: prod.splits dest: updateStatusIfNeeded_cost [OF assms])
  show "costs calls 13 w w'" if "handleEmptyApp k st w = ((res, st'), w')"
  proof -
    let ?w = "collect_kinds k (rs_appDef st) collected_kinds w"
    have "costs calls 6 ?w w'"
      using that by (auto simp: handleEmptyApp_def Let_def split: prod.splits dest: updateStatusIfNeeded_cost [OF assms])
    from costs_trans [OF collect_kinds_cost [OF assms] this] show ?thesis by (simp add: collected_kinds_def)
  qed
qed

lemma setInitialPhase_cost:
  assumes "metered k calls h" "setInitialPhase k st w = (((up, err), st'), w')"
  shows "costs calls 6 w w' \<and> (\<not> up \<and> err = None \<longrightarrow> st' = st \<and> w' = w)"
proof -
  obtain r a w1 where loop: "initial_phase_loop k max_attempts (start_processing k (rs_appDef st)) w = ((r, a), w1)"
    by (metis surj_pair)
  from loop_costs(3) [OF assms(1) loop] assms(2) loop show ?thesis
    by (cases r) (auto simp: setInitialPhase_def Let_def split: if_splits)
qed

lemma handleFinalizer_cost:
  assumes "metered k calls h" "sized k c n" "handleFinalizer k app w = (((del, err), app'), w')"
  shows "costs calls (if del then 7 + n else 6) w w'"
proof -
  obtain ar a1 w1 where add: "add_finalizer_loop k max_attempts (add_finalizer k app) w = ((ar, a1), w1)"
    by (metis surj_pair)
  obtain ce w2 where cl: "cleanup_pvcs k app w = (ce, w2)" by fastforce
  obtain rr a3 w3 where rem: "remove_finalizer_loop k max_attempts (remove_finalizer k app) w2 = ((rr, a3), w3)"
    by (metis surj_pair)
  have cleaning: "costs calls (1 + n) w w2" by (rule cleanup_pvcs_cost [OF assms(1,2) cl])
  have removing: "costs calls (7 + n) w w3"
    by (rule costs_trans [OF cleaning loop_costs(2) [OF assms(1) rem]]) simp
  have "w' = w \<or> \<not> del \<and> w' = w1 \<or> del \<and> (w' = w2 \<or> w' = w3)"
    using assms(3) add cl rem
    by (cases ar; cases ce; cases rr) (auto simp: handleFinalizer_def split: if_splits)
  with loop_costs(1) [OF assms(1) add] removing costs_mono [OF cleaning] show ?thesis by auto
qed

subsection \<open>A run\<close>

lemma handleFinalizer_sized:
  assumes "sized k c n" "handleFinalizer k app w = ((out, app'), w')"
    and "length (as_components (ad_spec app)) \<le> c"
  shows "length (as_components (ad_spec app')) \<le> c"
proof -
  let ?P = "\<lambda>a. length (as_components (ad_spec a)) \<le> c"
  have get: "kc_get_app k key w = (Inr a, w') \<Longrightarrow> ?P a" and upd: "kc_update_app k b w = (Inr a, w') \<Longrightarrow> ?P a"
    for key w a w' b
    using assms(1) unfolding sized_def by blast+
  have prep: "?P (add_finalizer k a) = ?P a" "?P (remove_finalizer k a) = ?P a" for a
    by (simp_all add: add_finalizer_def remove_finalizer_def)
  obtain ar a1 w1 where add: "add_finalizer_loop k max_attempts (add_finalizer k app) w = ((ar, a1), w1)"
    by (metis surj_pair)
  obtain ce w2 where cl: "cleanup_pvcs k app w = (ce, w2)" by fastforce
  obtain rr a3 w3 where rem: "remove_finalizer_loop k max_attempts (remove_finalizer k app) w2 = ((rr, a3), w3)"
    by (metis surj_pair)
  have "?P a1"
    by (rule finalizer_adding.loop_keeps [where J = "\<lambda>_. True" and P = ?P, OF _ _ add, THEN conjunct2])
      (use get upd prep assms(3) in auto)
  moreover have "?P a3"
    by (rule finalizer_removal.loop_keeps [where J = "\<lambda>_. True" and P = ?P, OF _ _ rem, THEN conjunct2])
      (use get upd prep assms(3) in auto)
  moreover have "app' \<in> {app, a1, a3}"
    using assms(2) add cl rem
    by (cases ar; cases ce; cases rr) (auto simp: handleFinalizer_def split: if_splits)
  ultimately show ?thesis using assms(3) by auto
qed

text \<open>What the parts of a run leave for its last steps.\<close>

definition small_state :: "nat \<Rightarrow> reconcileState \<Rightarrow> bool" where
  "small_state c st \<longleftrightarrow>
     statuses_ok (rs_componentStatuses st) \<and> card (fst ` set (rs_componentStatuses st)) \<le> c \<and>
     length (as_components (ad_spec (rs_appDef st))) \<le> c"

lemma run_components_cost:
  assumes "metered k calls h" "range_law k" "run_components k reg st w = Inr ((res, st'), w')" "small_state c st"
  shows "costs calls ((7 + 20 * h) * c + 6) w w'"
proof -
  obtain r st1 where p: "processComponentsAndBuildObjects k reg st = (r, st1)" by fastforce
  show ?thesis
  proof (cases r)
    case (ProcessFailed e)
    with assms(3) p have "handleReconcileError k ''ProcessingFailed'' e (st1\<lparr>rs_firstError := Some e\<rparr>) w = ((res, st'), w')"
      by (simp add: run_components_def)
    from costs_mono [OF update_costs(2) [OF assms(1) this]] show ?thesis by simp
  next
    case Processed
    note ps = processComponents_statuses [OF p [unfolded Processed]]
    from ps(1) have keys: "fst ` set (rs_componentStatuses st1) = fst ` set (rs_componentStatuses st)"
      by (metis list.set_map)
    obtain ready q st2 w2 where j: "apply_and_judge k st1 w = (((ready, q), st2), w2)" by (metis surj_pair)
    with assms(3) p Processed have f: "finish_run k ready q st2 w2 = ((res, st'), w')"
      by (simp add: run_components_def)
    have ok: "statuses_ok (rs_componentStatuses st1)" using ps(2) assms(4) by (simp add: small_state_def)
    have "(1 + 4 * h) * length (rs_desiredObjects st1) \<le> (1 + 4 * h) * (5 * c)"
      using processing_managed [OF p] assms(4) unfolding small_state_def by (intro mult_le_mono2) linarith
    moreover have "2 * card (fst ` set (rs_componentStatuses st1)) \<le> 2 * c"
      using assms(4) unfolding keys small_state_def by simp
    ultimately have size: "(1 + 4 * h) * length (rs_desiredObjects st1) +
        2 * card (fst ` set (rs_componentStatuses st1)) \<le> (7 + 20 * h) * c"
      by (simp add: algebra_simps)
    note judged = costs_mono [OF apply_and_judge_cost [OF assms(1,2) j ok] size]
    show ?thesis by (rule costs_trans [OF judged update_costs(1) [OF assms(1) f]]) simp
  qed (use assms(3) p in \<open>simp add: run_components_def\<close>)
qed

lemma run_initialised_cost:
  assumes "metered k calls h" "range_law k" "sized k c n" "run_initialised k reg st w = Inr ((res, st'), w')"
    and "small_state c st"
  shows "costs calls (12 + n + (7 + 20 * h) * c) w w'"
proof -
  obtain del ferr app1 w1 where fin: "handleFinalizer k (rs_appDef st) w = (((del, ferr), app1), w1)"
    by (metis surj_pair)
  note f = handleFinalizer_cost [OF assms(1,3) fin]
  obtain up perr st2 w2 where ini: "setInitialPhase k (st\<lparr>rs_appDef := app1\<rparr>) w1 = (((up, perr), st2), w2)"
    by (metis surj_pair)
  note i = setInitialPhase_cost [OF assms(1) ini]
  have "w' = w1 \<or> \<not> del \<and> (w' = w2 \<or> \<not> up \<and> perr = None \<and> run_components k reg st2 w2 = Inr ((res, st'), w'))"
    using assms(4) fin ini by (auto simp: run_initialised_def Let_def split: if_splits)
  then consider "w' = w1" | "\<not> del" "w' = w2"
    | "\<not> del" "\<not> up" "perr = None" "run_components k reg st2 w2 = Inr ((res, st'), w')" by blast
  then show ?thesis
  proof cases
    case 1
    with costs_mono [OF f, of "12 + n + (7 + 20 * h) * c"] show ?thesis by simp
  next
    case 2
    with costs_trans [OF f conjunct1 [OF i], of "12 + n + (7 + 20 * h) * c"] show ?thesis by simp
  next
    case 3
    with i have st2: "st2 = st\<lparr>rs_appDef := app1\<rparr>" "w2 = w1" by simp_all
    have "small_state c st2"
      using handleFinalizer_sized [OF assms(3) fin] assms(5) st2 by (simp add: small_state_def)
    from run_components_cost [OF assms(1,2) 3(4) this] have "costs calls ((7 + 20 * h) * c + 6) w1 w'" by (simp add: st2)
    with costs_trans [OF f this, of "12 + n + (7 + 20 * h) * c"] 3(1) show ?thesis by simp
  qed
qed

lemma initialised_small:
  assumes "initializeComponentStatuses comps [] = (None, m)"
  shows "statuses_ok m \<and> card (fst ` set m) \<le> length comps"
proof -
  note ini = initializeComponentStatuses_ok [OF assms]
  then have "card (fst ` set m) = card (ac_name ` set comps)" by simp
  also have "\<dots> \<le> length comps" using card_image_le [of "set comps" ac_name] card_length [of comps] by simp
  finally show ?thesis using ini by simp
qed

lemma run_fetched_cost:
  assumes "metered k calls h" "range_law k" "sized k c n" "run_fetched k reg app w = Inr ((res, st'), w')"
    and "length (as_components (ad_spec app)) \<le> c"
  shows "costs calls (13 + n + (7 + 20 * h) * c) w w'"
proof -
  obtain e m where ini: "initializeComponentStatuses (as_components (ad_spec app)) [] = (e, m)" by fastforce
  let ?st = "(fresh_state app)\<lparr>rs_componentStatuses := m\<rparr>"
  have f: "initializeComponentStatuses (as_components (ad_spec app)) (rs_componentStatuses (fresh_state app)) = (e, m)"
    using ini by (simp add: fresh_state_def)
  show ?thesis
  proof (cases e)
    case (Some err)
    with assms(4) f have "handleReconcileError k ''InitializationFailed'' err ?st w = ((res, st'), w')"
      by (simp add: run_fetched_def Let_def)
    from costs_mono [OF update_costs(2) [OF assms(1) this]] show ?thesis by simp
  next
    case None
    show ?thesis
    proof (cases "as_components (ad_spec app) = []")
      case True
      with None assms(4) f have "handleEmptyApp k ?st w = ((res, st'), w')"
        by (simp add: run_fetched_def Let_def)
      from costs_mono [OF update_costs(3) [OF assms(1) this]] show ?thesis by simp
    next
      case False
      with None assms(4) f have run: "run_initialised k reg ?st w = Inr ((res, st'), w')"
        by (simp add: run_fetched_def Let_def)
      have "small_state c ?st"
        using initialised_small [OF ini [unfolded None]] assms(5) by (simp add: small_state_def fresh_state_def)
      from costs_mono [OF run_initialised_cost [OF assms(1-3) run this]] show ?thesis by simp
    qed
  qed
qed

lemma Reconcile_cost:
  assumes "metered k calls h" "range_law k" "sized k c n" "Reconcile k reg watched req w = Inr (out, w')"
  shows "costs calls (14 + n + (7 + 20 * h) * c) w w'"
proof -
  obtain r w1 where rd: "kc_get_app k req w = (r, w1)" by fastforce
  note one = call_costs(9) [OF assms(1) rd]
  show ?thesis
  proof (cases "nn_namespace req \<noteq> watched")
    case True
    with assms(4) show ?thesis by (simp add: Reconcile_def)
  next
    case here: False
    show ?thesis
    proof (cases r)
      case (Inl e)
      with here rd assms(4) costs_mono [OF one] show ?thesis by (auto simp: Reconcile_def)
    next
      case (Inr app)
      with here rd assms(4) obtain res st where run: "run_fetched k reg app w1 = Inr ((res, st), w')"
        by (auto simp: Reconcile_def split: sum.splits)
      have "length (as_components (ad_spec app)) \<le> c" using assms(3) rd Inr unfolding sized_def by blast
      from costs_trans [OF one run_fetched_cost [OF assms(1-3) run this]] show ?thesis by simp
    qed
  qed
qed

subsection \<open>Counting the requests\<close>

text \<open>
  Any cluster, with a counter: \<open>counting h k\<close> answers as \<open>k\<close> does and adds up one request for a call of
  the client and \<open>h\<close> for one of \<^verbatim>\<open>operator-tools\<close>.
\<close>

definition counted_call :: "nat \<Rightarrow> ('w \<Rightarrow> 'r \<times> 'w) \<Rightarrow> 'w \<times> nat \<Rightarrow> 'r \<times> 'w \<times> nat" where
  "counted_call n f w = (case f (fst w) of (r, w') \<Rightarrow> (r, w', n + snd w))"

definition counting :: "nat \<Rightarrow> 'w cluster \<Rightarrow> ('w \<times> nat) cluster" where
  "counting h k =
     \<lparr>kc_get_app = \<lambda>key. counted_call 1 (kc_get_app k key),
      kc_update_app = \<lambda>app. counted_call 1 (kc_update_app k app),
      kc_status_update = \<lambda>app. counted_call 1 (kc_status_update k app),
      kc_get_service = \<lambda>key. counted_call 1 (kc_get_service k key),
      kc_get_endpoints = \<lambda>key. counted_call 1 (kc_get_endpoints k key),
      kc_get_unstructured = \<lambda>g key. counted_call 1 (kc_get_unstructured k g key),
      kc_get_object = \<lambda>obj. counted_call 1 (kc_get_object k obj),
      kc_create = \<lambda>obj. counted_call 1 (kc_create k obj),
      kc_patch = \<lambda>obj fm. counted_call 1 (kc_patch k obj fm),
      kc_list_pvcs = \<lambda>ns l. counted_call 1 (kc_list_pvcs k ns l),
      kc_delete_pvc = \<lambda>key. counted_call 1 (kc_delete_pvc k key),
      kc_delete_all_of = \<lambda>kind ns l. counted_call 1 (kc_delete_all_of k kind ns l),
      kc_create_if_not_exist = \<lambda>obj. counted_call h (kc_create_if_not_exist k obj),
      kc_reconcile_resource = \<lambda>obj. counted_call h (kc_reconcile_resource k obj),
      lib_gvk = lib_gvk k, lib_gvk_string = lib_gvk_string k, lib_gv_string = lib_gv_string k,
      lib_key_string = lib_key_string k, lib_scheme_new = lib_scheme_new k,
      lib_from_unstructured = lib_from_unstructured k, lib_set_controller_ref = lib_set_controller_ref k,
      lib_set_condition = lib_set_condition k, lib_contains_finalizer = lib_contains_finalizer k,
      lib_add_finalizer = lib_add_finalizer k, lib_remove_finalizer = lib_remove_finalizer k,
      lib_unmarshal = lib_unmarshal k, lib_now = lib_now k,
      lib_seconds = lib_seconds k, lib_range = lib_range k\<rparr>"

lemma counting_laws:
  "metered (counting h k) snd h" "range_law (counting h k) = range_law k"
  "sized k c n \<Longrightarrow> sized (counting h k) c n"
proof -
  have one: "costs snd m w (snd (counted_call m f w))" for f :: "'a \<Rightarrow> 'r \<times> 'a" and w m
    by (simp add: costs_def counted_call_def split: prod.splits)
  show "metered (counting h k) snd h"
    unfolding metered_def counting_def by (simp add: one del: One_nat_def)
  show "range_law (counting h k) = range_law k" by (simp add: range_law_def counting_def)
  have inner: "counted_call m f w = (r, w') \<Longrightarrow> \<exists>v v'. f v = (r, v')" for f :: "'a \<Rightarrow> 'r \<times> 'a" and w r w' m
    by (auto simp: counted_call_def split: prod.splits)
  show "sized (counting h k) c n" if "sized k c n"
    using that unfolding sized_def counting_def by (auto dest!: inner; blast)
qed

text \<open>The counter does not change the run, and every run can be counted.\<close>

interpretation counting_run: observed fst "counting h k" k for h :: nat and k :: "'w cluster"
  by unfold_locales (simp_all add: same_library_def same_calls_def same_call_def counting_def counted_call_def
      split: prod.split)

lemma counted_run:
  assumes "Reconcile k reg watched req w = Inr (out, w')"
  obtains m' where "Reconcile (counting h k) reg watched req (w, m) = Inr (out, (w', m'))"
proof -
  from assms have "Reconcile k reg watched req (fst (w, m)) = Inr (out, w')" by simp
  then obtain v' where "Reconcile (counting h k) reg watched req (w, m) = Inr (out, v')" "fst v' = w'"
    by (rule counting_run.Reconcile_recorded)
  with that [of "snd v'"] show thesis by (cases v') simp
qed

subsection \<open>Properties\<close>

text \<open>
  C10. A run that does not panic ends after a number of API requests that does not depend on the answers:
  with at most \<open>c\<close> components in an application, \<open>n\<close> volume claims in a list and \<open>h\<close> requests in a call of
  \<^verbatim>\<open>operator-tools\<close>, it makes at most \<open>14 + n + (7 + 20 * h) * c\<close>, conflicts, errors and retries of the
  controller included.
\<close>

theorem runs_are_bounded:
  assumes "metered k requests h" "range_law k" "sized k c n"
    and "Reconcile k reg watched req w = Inr (out, w')"
  shows "requests w' \<le> requests w + (14 + n + (7 + 20 * h) * c)"
  using Reconcile_cost [OF assms] by (simp add: costs_def)

text \<open>A cluster with one application, which is about to be set up.\<close>

definition one_app_cluster :: "unit cluster" where
  "one_app_cluster = bare_cluster
     \<lparr>kc_get_app := \<lambda>key w. (Inr (managed_app ApplicationPhaseUnset None), w),
      kc_update_app := \<lambda>app w. (Inl conflict_error, w),
      kc_status_update := \<lambda>app w. (Inl conflict_error, w)\<rparr>"

lemma one_app_laws: "range_law one_app_cluster" "sized one_app_cluster 1 0"
  by (auto simp: range_law_def sized_def one_app_cluster_def bare_cluster_def managed_app_def example_app_def)

text \<open>Every status update conflicts: the run gives up after one read and three attempts, each an update and a read.\<close>

lemma one_app_run:
  "\<exists>out. Reconcile one_app_cluster example_registry ''default'' (NsName ''default'' ''shop'') () = Inr (out, ())"
  by (simp add: Reconcile_def run_fetched_def run_initialised_def handleFinalizer_def setInitialPhase_def
      initializeComponentStatuses_def has_finalizer_def max_attempts_def numeral_3_eq_3 Let_def
      one_app_cluster_def bare_cluster_def managed_app_def example_app_def
      example_component_def fresh_state_def empty_status_def empty_meta_def app_phase_def)

text \<open>Counted with at most four requests for a call of \<^verbatim>\<open>operator-tools\<close>.\<close>

theorem runs_are_bounded_witness:
  "\<exists>out m'. Reconcile (counting 4 one_app_cluster) example_registry ''default''
      (NsName ''default'' ''shop'') ((), 0) = Inr (out, ((), m')) \<and> m' \<le> 14 + 0 + (7 + 20 * 4) * 1"
proof -
  obtain out where "Reconcile one_app_cluster example_registry ''default''
      (NsName ''default'' ''shop'') () = Inr (out, ())" using one_app_run by blast
  then obtain m' where run: "Reconcile (counting 4 one_app_cluster) example_registry ''default''
      (NsName ''default'' ''shop'') ((), 0) = Inr (out, ((), m'))" by (rule counted_run)
  have "range_law (counting 4 one_app_cluster)" using one_app_laws(1) by (simp add: counting_laws(2))
  from runs_are_bounded [OF counting_laws(1) this counting_laws(3) [OF one_app_laws(2)] run] run
  show ?thesis by auto
qed

end
