(* ===== verification/Requests.thy ===== *)
theory Requests
  imports LifeCycles DesiredObjects Observers
begin

text \<open>
  What a run asks of the Kubernetes API. Every call is written down (\<open>recording\<close>), and a run on an
  application makes only the calls that \<open>permitted\<close> allows for it: writes of this application, objects of
  its namespace that carry its labels, reads in its namespace, and deletions of what carries its name,
  which are made for an application that is being deleted or that has no components, and for no other.
\<close>

datatype apiCall =
  GetApp nsname
| UpdateApp appDef
| UpdateStatus appDef
| GetService nsname
| GetEndpoints nsname
| GetUnstructured gvk nsname
| GetObject kobject
| CreateObject kobject
| PatchObject kobject string
| ListPvcs string "string \<times> string"
| DeletePvc nsname
| DeleteAllOf string string "string \<times> string"
| CreateIfNotExist kobject
| ReconcileResource kobject

subsection \<open>Writing the calls down\<close>

definition recorded_call :: "'c \<Rightarrow> ('w \<Rightarrow> 'r \<times> 'w) \<Rightarrow> 'w \<times> 'c list \<Rightarrow> 'r \<times> 'w \<times> 'c list" where
  "recorded_call c f w = (case f (fst w) of (r, w') \<Rightarrow> (r, w', snd w @ [c]))"

definition recording :: "'w cluster \<Rightarrow> ('w \<times> apiCall list) cluster" where
  "recording k =
     \<lparr>kc_get_app = \<lambda>key. recorded_call (GetApp key) (kc_get_app k key),
      kc_update_app = \<lambda>app. recorded_call (UpdateApp app) (kc_update_app k app),
      kc_status_update = \<lambda>app. recorded_call (UpdateStatus app) (kc_status_update k app),
      kc_get_service = \<lambda>key. recorded_call (GetService key) (kc_get_service k key),
      kc_get_endpoints = \<lambda>key. recorded_call (GetEndpoints key) (kc_get_endpoints k key),
      kc_get_unstructured = \<lambda>g key. recorded_call (GetUnstructured g key) (kc_get_unstructured k g key),
      kc_get_object = \<lambda>obj. recorded_call (GetObject obj) (kc_get_object k obj),
      kc_create = \<lambda>obj. recorded_call (CreateObject obj) (kc_create k obj),
      kc_patch = \<lambda>obj fm. recorded_call (PatchObject obj fm) (kc_patch k obj fm),
      kc_list_pvcs = \<lambda>ns l. recorded_call (ListPvcs ns l) (kc_list_pvcs k ns l),
      kc_delete_pvc = \<lambda>key. recorded_call (DeletePvc key) (kc_delete_pvc k key),
      kc_delete_all_of = \<lambda>kind ns l. recorded_call (DeleteAllOf kind ns l) (kc_delete_all_of k kind ns l),
      kc_create_if_not_exist = \<lambda>obj. recorded_call (CreateIfNotExist obj) (kc_create_if_not_exist k obj),
      kc_reconcile_resource = \<lambda>obj. recorded_call (ReconcileResource obj) (kc_reconcile_resource k obj),
      lib_gvk = lib_gvk k, lib_gvk_string = lib_gvk_string k, lib_gv_string = lib_gv_string k,
      lib_key_string = lib_key_string k, lib_scheme_new = lib_scheme_new k,
      lib_from_unstructured = lib_from_unstructured k, lib_set_controller_ref = lib_set_controller_ref k,
      lib_set_condition = lib_set_condition k, lib_contains_finalizer = lib_contains_finalizer k,
      lib_add_finalizer = lib_add_finalizer k, lib_remove_finalizer = lib_remove_finalizer k,
      lib_unmarshal = lib_unmarshal k, lib_now = lib_now k,
      lib_seconds = lib_seconds k, lib_range = lib_range k\<rparr>"

interpretation recording_run: observed fst "recording k" k for k :: "'w cluster"
  by unfold_locales (simp_all add: same_library_def same_calls_def same_call_def recording_def recorded_call_def
      split: prod.split)

subsection \<open>What is permitted\<close>

definition being_deleted :: "appDef \<Rightarrow> bool" where
  "being_deleted app \<longleftrightarrow> om_deletionTimestamp (ad_meta app) \<noteq> None"

text \<open>A run gets to the finalizer and the components only when there are some, with names of their own.\<close>

definition workable :: "appDef \<Rightarrow> bool" where
  "workable app \<longleftrightarrow>
     as_components (ad_spec app) \<noteq> [] \<and> distinct (map ac_name (as_components (ad_spec app))) \<and>
     [] \<notin> ac_name ` set (as_components (ad_spec app))"

definition live :: "appDef \<Rightarrow> bool" where
  "live app \<longleftrightarrow> workable app \<and> \<not> being_deleted app"

definition leaving :: "appDef \<Rightarrow> bool" where
  "leaving app \<longleftrightarrow> workable app \<and> being_deleted app"

text \<open>An object of an application: well typed, in its namespace, with the labels it is found by.\<close>

definition owned_object :: "appDef \<Rightarrow> kobject \<Rightarrow> bool" where
  "owned_object app obj \<longleftrightarrow>
     managed_object obj \<and> get_name obj \<noteq> [] \<and> get_namespace obj = app_namespace app \<and>
     get_labels obj AppNameLabel = Some (app_name app) \<and> get_labels obj ManagedByLabel = Some OperatorName"

fun permitted :: "appDef \<Rightarrow> apiCall \<Rightarrow> bool" where
  "permitted app (GetApp key) = (key = app_key app)"
| "permitted app (UpdateApp app') = (workable app \<and> app_key app' = app_key app)"
| "permitted app (UpdateStatus app') = (app_key app' = app_key app)"
| "permitted app (GetService key) = (nn_namespace key = app_namespace app)"
| "permitted app (GetEndpoints key) = (nn_namespace key = app_namespace app)"
| "permitted app (GetUnstructured g key) = (nn_namespace key = app_namespace app)"
| "permitted app (ListPvcs ns l) =
     (leaving app \<and> ns = app_namespace app \<and> l = (AppNameLabel, app_name app))"
| "permitted app (DeletePvc key) = (leaving app \<and> nn_namespace key = app_namespace app)"
| "permitted app (DeleteAllOf kind ns l) =
     (as_components (ad_spec app) = [] \<and> kind \<in> set collected_kinds \<and> ns = app_namespace app \<and>
      l = (AppNameLabel, app_name app))"
| "permitted app (CreateIfNotExist obj) = (live app \<and> owned_object app obj)"
| "permitted app (ReconcileResource obj) = (live app \<and> owned_object app obj)"
| "permitted app call = False"

text \<open>
  The API answers about what it is asked: the application asked for or sent, claims of the namespace
  that is listed, and an object of the namespace it is read from.
\<close>

definition addressed :: "'w cluster \<Rightarrow> bool" where
  "addressed k \<longleftrightarrow>
     (\<forall>key w app w'. kc_get_app k key w = (Inr app, w') \<longrightarrow> app_key app = key) \<and>
     (\<forall>app w app' w'. kc_update_app k app w = (Inr app', w') \<longrightarrow> app_key app' = app_key app) \<and>
     (\<forall>app w app' w'. kc_status_update k app w = (Inr app', w') \<longrightarrow> app_key app' = app_key app) \<and>
     (\<forall>ns l w pvcs w'. kc_list_pvcs k ns l w = (Inr pvcs, w') \<longrightarrow> (\<forall>pvc \<in> set pvcs. nn_namespace pvc = ns)) \<and>
     (\<forall>g key w raw w' obj. kc_get_unstructured k g key w = (Inr raw, w') \<longrightarrow>
        lib_from_unstructured k raw g = Inr obj \<longrightarrow> get_namespace obj = nn_namespace key)"

text \<open>Every call that \<open>A\<close> allows keeps the invariant \<open>I\<close> of the world.\<close>

definition admits :: "(apiCall \<Rightarrow> bool) \<Rightarrow> 'w cluster \<Rightarrow> ('w \<Rightarrow> bool) \<Rightarrow> bool" where
  "admits A k I \<longleftrightarrow> (\<forall>w. I w \<longrightarrow>
     (\<forall>key. A (GetApp key) \<longrightarrow> I (snd (kc_get_app k key w))) \<and>
     (\<forall>app. A (UpdateApp app) \<longrightarrow> I (snd (kc_update_app k app w))) \<and>
     (\<forall>app. A (UpdateStatus app) \<longrightarrow> I (snd (kc_status_update k app w))) \<and>
     (\<forall>key. A (GetService key) \<longrightarrow> I (snd (kc_get_service k key w))) \<and>
     (\<forall>key. A (GetEndpoints key) \<longrightarrow> I (snd (kc_get_endpoints k key w))) \<and>
     (\<forall>g key. A (GetUnstructured g key) \<longrightarrow> I (snd (kc_get_unstructured k g key w))) \<and>
     (\<forall>ns l. A (ListPvcs ns l) \<longrightarrow> I (snd (kc_list_pvcs k ns l w))) \<and>
     (\<forall>key. A (DeletePvc key) \<longrightarrow> I (snd (kc_delete_pvc k key w))) \<and>
     (\<forall>kind ns l. A (DeleteAllOf kind ns l) \<longrightarrow> I (snd (kc_delete_all_of k kind ns l w))) \<and>
     (\<forall>obj. A (CreateIfNotExist obj) \<longrightarrow> I (snd (kc_create_if_not_exist k obj w))) \<and>
     (\<forall>obj. A (ReconcileResource obj) \<longrightarrow> I (snd (kc_reconcile_resource k obj w))))"

lemma admitted_calls:
  assumes "admits A k I" "I w"
  shows "A (GetApp key) \<Longrightarrow> I (snd (kc_get_app k key w))"
    "A (UpdateApp app) \<Longrightarrow> I (snd (kc_update_app k app w))"
    "A (UpdateStatus app) \<Longrightarrow> I (snd (kc_status_update k app w))"
    "A (GetService key) \<Longrightarrow> I (snd (kc_get_service k key w))"
    "A (GetEndpoints key) \<Longrightarrow> I (snd (kc_get_endpoints k key w))"
    "A (GetUnstructured g key) \<Longrightarrow> I (snd (kc_get_unstructured k g key w))"
    "A (ListPvcs ns l) \<Longrightarrow> I (snd (kc_list_pvcs k ns l w))"
    "A (DeletePvc key) \<Longrightarrow> I (snd (kc_delete_pvc k key w))"
    "A (DeleteAllOf kind ns l) \<Longrightarrow> I (snd (kc_delete_all_of k kind ns l w))"
    "A (CreateIfNotExist obj) \<Longrightarrow> I (snd (kc_create_if_not_exist k obj w))"
    "A (ReconcileResource obj) \<Longrightarrow> I (snd (kc_reconcile_resource k obj w))"
  using assms by (simp_all add: admits_def del: split_paired_All)

lemma admitted:
  assumes "admits A k I" "I w"
  shows "kc_get_app k key w = (r1, w') \<Longrightarrow> A (GetApp key) \<Longrightarrow> I w'"
    "kc_update_app k app w = (r1, w') \<Longrightarrow> A (UpdateApp app) \<Longrightarrow> I w'"
    "kc_status_update k app w = (r1, w') \<Longrightarrow> A (UpdateStatus app) \<Longrightarrow> I w'"
    "kc_get_service k key w = (r2, w') \<Longrightarrow> A (GetService key) \<Longrightarrow> I w'"
    "kc_get_endpoints k key w = (r3, w') \<Longrightarrow> A (GetEndpoints key) \<Longrightarrow> I w'"
    "kc_get_unstructured k g key w = (r4, w') \<Longrightarrow> A (GetUnstructured g key) \<Longrightarrow> I w'"
    "kc_list_pvcs k ns l w = (r5, w') \<Longrightarrow> A (ListPvcs ns l) \<Longrightarrow> I w'"
    "kc_delete_pvc k key w = (r6, w') \<Longrightarrow> A (DeletePvc key) \<Longrightarrow> I w'"
    "kc_create_if_not_exist k obj w = (r7, w') \<Longrightarrow> A (CreateIfNotExist obj) \<Longrightarrow> I w'"
    "kc_reconcile_resource k obj w = (r7, w') \<Longrightarrow> A (ReconcileResource obj) \<Longrightarrow> I w'"
  by (drule admitted_calls(1-8,10,11) [OF assms], simp)+

text \<open>A recorded call adds itself to the calls.\<close>

lemma recording_admits: "admits A (recording k) (\<lambda>w. \<exists>calls. snd w = past @ calls \<and> list_all A calls)"
  unfolding admits_def recording_def
  by (auto simp: recorded_call_def split: prod.split)

lemma recorded_answer: "recorded_call c f w = (r, w') \<Longrightarrow> f (fst w) = (r, fst w')"
  by (auto simp: recorded_call_def split: prod.splits)

lemma addressed_answers:
  assumes "addressed k"
  shows "kc_get_app k key w = (Inr app', w') \<Longrightarrow> app_key app' = key"
    "kc_update_app k app w = (Inr app', w') \<Longrightarrow> app_key app' = app_key app"
    "kc_status_update k app w = (Inr app', w') \<Longrightarrow> app_key app' = app_key app"
    "kc_list_pvcs k ns l w = (Inr pvcs, w') \<Longrightarrow> pvc \<in> set pvcs \<Longrightarrow> nn_namespace pvc = ns"
    "kc_get_unstructured k g key w = (Inr u, w') \<Longrightarrow> lib_from_unstructured k u g = Inr obj \<Longrightarrow>
      get_namespace obj = nn_namespace key"
  using assms unfolding addressed_def by metis+

lemma recording_laws: "addressed k \<Longrightarrow> addressed (recording k)" "owner_ref_law k \<Longrightarrow> owner_ref_law (recording k)"
proof -
  assume a: "addressed k"
  show "addressed (recording k)"
    unfolding addressed_def recording_def cluster.simps
    by (intro conjI allI impI ballI; drule recorded_answer; drule addressed_answers [OF a]; assumption)
qed (simp add: owner_ref_law_def recording_def)

subsection \<open>The writes of the application\<close>

text \<open>The object in memory is one of the application \<open>key\<close>.\<close>

definition about :: "('w \<Rightarrow> bool) \<Rightarrow> nsname \<Rightarrow> 'w \<Rightarrow> appDef \<Rightarrow> bool" where
  "about I key w app \<longleftrightarrow> I w \<and> app_key app = key"

lemma app_key_parts:
  "app_key a = app_key app \<Longrightarrow> app_namespace a = app_namespace app \<and> app_name a = app_name app"
  by (simp add: app_key_def app_namespace_def app_name_def)

lemma about_calls:
  assumes "admits (permitted app) k I" "addressed k" "about I (app_key app) w a"
  shows "kc_update_app k a w = (r, w') \<Longrightarrow> workable app \<Longrightarrow> about I (app_key app) w' (case r of Inl e \<Rightarrow> a | Inr a' \<Rightarrow> a')"
    "kc_status_update k a w = (r, w') \<Longrightarrow> about I (app_key app) w' (case r of Inl e \<Rightarrow> a | Inr a' \<Rightarrow> a')"
    "kc_get_app k (app_key a) w = (r, w') \<Longrightarrow> (\<And>fresh. app_key (prepare fresh) = app_key fresh) \<Longrightarrow>
      about I (app_key app) w' (case r of Inl e \<Rightarrow> a | Inr fresh \<Rightarrow> prepare fresh)"
proof -
  from assms(3) have a: "I w" "app_key a = app_key app" by (simp_all add: about_def)
  show "about I (app_key app) w' (case r of Inl e \<Rightarrow> a | Inr a' \<Rightarrow> a')" if u: "kc_update_app k a w = (r, w')" and ok: "workable app"
    using ok admitted(2) [OF assms(1) a(1) u] addressed_answers(2) [OF assms(2)] u a(2)
    by (cases r) (simp_all add: about_def)
  show "about I (app_key app) w' (case r of Inl e \<Rightarrow> a | Inr a' \<Rightarrow> a')" if u: "kc_status_update k a w = (r, w')"
    using admitted(3) [OF assms(1) a(1) u] addressed_answers(3) [OF assms(2)] u a(2)
    by (cases r) (simp_all add: about_def)
  show "about I (app_key app) w' (case r of Inl e \<Rightarrow> a | Inr fresh \<Rightarrow> prepare fresh)"
    if u: "kc_get_app k (app_key a) w = (r, w')" and p: "\<And>fresh. app_key (prepare fresh) = app_key fresh"
    using admitted(1) [OF assms(1) a(1) u] addressed_answers(1) [OF assms(2)] u a(2) p
    by (cases r) (simp_all add: about_def)
qed

context conflict_retry
begin

lemma loop_about:
  assumes "write = kc_update_app k \<and> workable app \<or> write = kc_status_update k" "fetch = kc_get_app k"
    and "admits (permitted app) k I" "addressed k"
    and "\<And>fresh. app_key (prepare fresh) = app_key fresh"
    and "loop n a w = ((res, a'), w')" "about I (app_key app) w a"
  shows "about I (app_key app) w' a'"
  by (rule loop_relates [OF _ _ assms(6), where R = "about I (app_key app)"])
    (use assms(1,2,5,7) about_calls [OF assms(3,4)] in auto)

end

lemma loops_about:
  assumes "admits (permitted app) k I" "addressed k" "about I (app_key app) w a"
  shows "add_finalizer_loop k n (add_finalizer k a) w = ((res, a'), w') \<Longrightarrow> workable app \<Longrightarrow> about I (app_key app) w' a'"
    "remove_finalizer_loop k n (remove_finalizer k a) w = ((res, a'), w') \<Longrightarrow> workable app \<Longrightarrow> about I (app_key app) w' a'"
    "initial_phase_loop k n (start_processing k a) w = ((res, a'), w') \<Longrightarrow> about I (app_key app) w' a'"
    "status_update_loop k s n a w = ((res, a'), w') \<Longrightarrow> about I (app_key app) w' a'"
proof -
  have prep: "about I key v (add_finalizer k b) = about I key v b" "about I key v (remove_finalizer k b) = about I key v b"
    "about I key v (start_processing k b) = about I key v b" for key v b
    by (simp_all add: about_def)
  note l = assms(1,2) and p = assms(3)
  show "about I (app_key app) w' a'" if ok: "workable app" and run: "add_finalizer_loop k n (add_finalizer k a) w = ((res, a'), w')"
    by (rule finalizer_adding.loop_about [OF _ refl l _ run]) (simp_all add: prep p ok)
  show "about I (app_key app) w' a'" if ok: "workable app" and run: "remove_finalizer_loop k n (remove_finalizer k a) w = ((res, a'), w')"
    by (rule finalizer_removal.loop_about [OF _ refl l _ run]) (simp_all add: prep p ok)
  show "about I (app_key app) w' a'" if "initial_phase_loop k n (start_processing k a) w = ((res, a'), w')"
    by (rule initial_phase.loop_about [OF _ refl l _ that]) (simp_all add: prep p)
  show "about I (app_key app) w' a'" if "status_update_loop k s n a w = ((res, a'), w')"
    by (rule status_write.loop_about [OF _ refl l _ that]) (simp_all add: p)
qed

lemma updateStatusIfNeeded_asks:
  assumes "admits (permitted app) k I" "addressed k" "about I (app_key app) w a"
    and "updateStatusIfNeeded k a orig w = ((out, a'), w')"
  shows "I w'"
proof -
  let ?a = "observe_generation a"
  obtain r a1 w1 where loop: "status_update_loop k (ad_status ?a) max_attempts ?a w = ((r, a1), w1)"
    by (metis surj_pair)
  have "about I (app_key app) w ?a" using assms(3) by (simp add: about_def)
  from loops_about(4) [OF assms(1,2) this loop] have "I w1" by (simp add: about_def)
  moreover have "w' = w \<or> w' = w1"
    using assms(4) loop by (cases r) (auto simp: updateStatusIfNeeded_def Let_def split: if_splits)
  ultimately show ?thesis using assms(3) by (auto simp: about_def)
qed

lemma delete_pvcs_asks:
  assumes "admits A k I"
  shows "delete_pvcs k pvcs w = (r, w') \<Longrightarrow> \<forall>pvc \<in> set pvcs. A (DeletePvc pvc) \<Longrightarrow> I w \<Longrightarrow> I w'"
proof (induction pvcs arbitrary: w)
  case (Cons pvc pvcs)
  obtain e w1 where one: "kc_delete_pvc k pvc w = (e, w1)" by fastforce
  with admitted(8) [OF assms Cons.prems(3) one] Cons.prems(2) have "I w1" by simp
  with Cons one show ?case by (cases e) (auto split: if_splits)
qed simp

lemma cleanup_pvcs_asks:
  assumes "admits (permitted app) k I" "addressed k" "leaving app" "app_key a = app_key app"
    and "cleanup_pvcs k a w = (r, w')" "I w"
  shows "I w'"
proof -
  from app_key_parts [OF assms(4)] have key: "app_namespace a = app_namespace app" "app_name a = app_name app" by simp_all
  obtain l w1 where ls: "kc_list_pvcs k (app_namespace app) (AppNameLabel, app_name app) w = (l, w1)" by fastforce
  have "I w1" by (rule admitted(7) [OF assms(1,6) ls]) (simp add: assms(3))
  moreover have "permitted app (DeletePvc pvc)" if "l = Inr pvcs" "pvc \<in> set pvcs" for pvcs pvc
    using addressed_answers(4) [OF assms(2)] ls that assms(3) by auto
  ultimately show ?thesis
    using assms(5) ls key delete_pvcs_asks [OF assms(1)] by (cases l) (auto simp: cleanup_pvcs_def)
qed

text \<open>The application keeps its identity; nothing is deleted for one that is not being deleted.\<close>

lemma handleFinalizer_asks:
  assumes "admits (permitted app) k I" "addressed k" "I w" "handleFinalizer k app w = (((del, err), app'), w')"
    and "workable app"
  shows "about I (app_key app) w' app' \<and> (\<not> del \<longrightarrow> live app)"
proof -
  obtain ar a1 w1 where add: "add_finalizer_loop k max_attempts (add_finalizer k app) w = ((ar, a1), w1)"
    by (metis surj_pair)
  obtain ce w2 where cl: "cleanup_pvcs k app w = (ce, w2)" by fastforce
  obtain rr a3 w3 where rem: "remove_finalizer_loop k max_attempts (remove_finalizer k app) w2 = ((rr, a3), w3)"
    by (metis surj_pair)
  have here: "about I (app_key app) w app" using assms(3) by (simp add: about_def)
  note 1 = loops_about(1) [OF assms(1,2) here add assms(5)]
  have 2: "about I (app_key app) w2 app" if "leaving app"
    using cleanup_pvcs_asks [OF assms(1,2) that refl cl assms(3)] by (simp add: about_def)
  have 3: "about I (app_key app) w3 a3" if "leaving app"
    by (rule loops_about(2) [OF assms(1,2) 2 [OF that] rem assms(5)])
  have "app' = app \<and> w' = w \<or> app' = a1 \<and> w' = w1 \<or>
      leaving app \<and> (app' = app \<and> w' = w2 \<or> app' = a3 \<and> w' = w3)"
    using assms(4,5) add cl rem
    by (cases ar; cases ce; cases rr) (auto simp: handleFinalizer_def leaving_def being_deleted_def split: if_splits)
  moreover have "\<not> del \<longrightarrow> live app"
    using assms(4,5) by (auto simp: handleFinalizer_def live_def being_deleted_def split: if_splits prod.splits option.splits retryResult.splits)
  ultimately show ?thesis using here 1 2 3 by blast
qed

lemma setInitialPhase_asks:
  assumes "admits (permitted app) k I" "addressed k" "about I (app_key app) w (rs_appDef st)"
    and "setInitialPhase k st w = ((out, st'), w')"
  shows "I w'"
proof -
  obtain r a w1 where loop: "initial_phase_loop k max_attempts (start_processing k (rs_appDef st)) w = ((r, a), w1)"
    by (metis surj_pair)
  from loops_about(3) [OF assms(1-3) loop] assms(3,4) loop show ?thesis
    by (cases r) (auto simp: setInitialPhase_def about_def Let_def split: if_splits)
qed

subsection \<open>The objects that a run puts up are those of the application\<close>

lemma component_objects_placed:
  "obj \<in> set (component_objects hash now app c rc ct vct) \<Longrightarrow> get_namespace obj = app_namespace app"
proof -
  let ?i = "ac_name c" and ?ns = "app_namespace app"
  let ?cl = "BuildCommonLabels (app_name app) (ac_type c) ?i" and ?sl = "BuildSelectorLabels ?i (ac_type c)"
    and ?san = "DeriveServiceAccountName ?i (rc_serviceAccount rc)"
  assume "obj \<in> set (component_objects hash now app c rc ct vct)"
  then show ?thesis
    using client_service_objects [of rc ?i ?ns ?cl ?sl] service_account_objects [of rc ?san ?ns ?cl]
    by (auto simp: component_objects_def Let_def split: if_splits)
qed

lemma build_with_placed:
  assumes "build_with k b app c cfg = (Inr objs, app')" "obj \<in> set objs"
  shows "get_namespace obj = app_namespace app"
proof (cases b)
  case RuntimeBuilderStrategy
  with assms(1) have b: "BuildObjects HashConfigMap (lib_now k) app c cfg = (Inr objs, app')" by simp
  then obtain rc where cfg: "cfg = Some rc" "verifyParameters (Some rc) c = None"
    by (auto simp: BuildObjects_def split: option.splits)
  show ?thesis
    by (rule BuildObjects_valid [OF cfg(2), of app HashConfigMap "lib_now k"])
      (use b cfg assms(2) component_objects_placed in auto)
qed

lemma process_component_placed:
  assumes "process_component k reg c st = (Processed, st')" "obj \<in> set (rs_desiredObjects st')"
  shows "obj \<in> set (rs_desiredObjects st) \<or> get_namespace obj = app_namespace (rs_appDef st)"
proof -
  let ?c = "c\<lparr>ac_type := ''operator''\<rparr>" and ?s1 = "set_message (ac_name c) ''Processing'' st"
  from assms(1) obtain b cfg objs app s4 where
    b: "build_with k b (rs_appDef st) c cfg = (Inr objs, app)"
    and p: "process_objects k ?c objs (?s1\<lparr>rs_unmarshalledConfigs :=
        (rs_unmarshalledConfigs ?s1)(ac_name c \<mapsto> cfg), rs_appDef := app\<rparr>) = (None, s4)"
    and st': "st' = set_message (ac_name c) ''Built successfully'' s4"
    by (auto simp: process_component_def Let_def split: if_splits option.splits sum.splits prod.splits)
  have "rs_desiredObjects st' = rs_desiredObjects st @ map (apply_labels app ?c) objs"
    using process_objects_desired [OF p] st' by simp
  with assms(2) build_with_placed [OF b] show ?thesis by auto
qed

lemma process_components_placed:
  "process_components k reg cs st = (Processed, st') \<Longrightarrow> obj \<in> set (rs_desiredObjects st') \<Longrightarrow>
    obj \<in> set (rs_desiredObjects st) \<or> get_namespace obj = app_namespace (rs_appDef st)"
proof (induction cs arbitrary: st)
  case (Cons c cs)
  from Cons.prems(1) obtain st1 where one: "process_component k reg c st = (Processed, st1)"
    and rest: "process_components k reg cs st1 = (Processed, st')"
    by (auto split: prod.splits processResult.splits)
  have "app_namespace (rs_appDef st1) = app_namespace (rs_appDef st)"
    using process_component_carried [OF one] same_but_annotations_frame(1) by (simp add: carried_def)
  with Cons.IH [OF rest Cons.prems(2)] process_component_placed [OF one] show ?case by auto
qed simp

text \<open>Ownership looks at the metadata and the typing.\<close>

lemma owned_object_same:
  "ko_meta obj' = ko_meta obj \<Longrightarrow> managed_object obj' = managed_object obj \<Longrightarrow>
    owned_object app obj' = owned_object app obj"
  by (simp add: owned_object_def object_defs)

lemma processing_owned:
  assumes "processComponentsAndBuildObjects k reg st = (Processed, st')" "app_key (rs_appDef st) = app_key app"
  shows "list_all (owned_object app) (rs_desiredObjects st')"
proof -
  note key = app_key_parts [OF assms(2)]
  obtain r st1 where run: "process_components k reg (as_components (ad_spec (rs_appDef st)))
      (st\<lparr>rs_desiredObjects := []\<rparr>) = (r, st1)" by fastforce
  with assms(1) have r: "r = Processed" by (cases r) (auto simp: processComponentsAndBuildObjects_def)
  note run = run [unfolded r]
  have "\<forall>m \<in> set (map ko_meta (rs_desiredObjects st1)). om_namespace m = app_namespace app"
    using process_components_placed [OF run] key by (auto simp: object_defs)
  moreover have "map ko_meta (rs_desiredObjects st') = map ko_meta (rs_desiredObjects st1)"
    using assms(1) run pause_resume_loop_frame
    by (fastforce simp: processComponentsAndBuildObjects_def handlePauseResume_def Let_def split: prod.splits)
  ultimately have "\<forall>m \<in> set (map ko_meta (rs_desiredObjects st')). om_namespace m = app_namespace app"
    by (simp only:)
  then have placed: "\<forall>obj \<in> set (rs_desiredObjects st'). get_namespace obj = app_namespace app"
    by (simp add: object_defs)
  have "get_name obj \<noteq> [] \<and> get_labels obj AppNameLabel = Some (app_name app) \<and>
      get_labels obj ManagedByLabel = Some OperatorName" if obj: "obj \<in> set (rs_desiredObjects st')" for obj
  proof -
    obtain c where "labelled_for (rs_appDef st) c obj" by (rule processed_labelled [OF assms(1) obj])
    with key show ?thesis by (simp add: labelled_for_def named_object_def)
  qed
  with placed conjunct1 [OF processing_managed [OF assms(1)]] show ?thesis
    by (simp add: list_all_iff owned_object_def)
qed

subsection \<open>The rollout\<close>

lemma reconcile_attempts_asks:
  assumes "admits A k I" "A (ReconcileResource obj)"
  shows "reconcile_attempts k obj n w = (r, w') \<Longrightarrow> I w \<Longrightarrow> I w'"
proof (induction n arbitrary: w)
  case (Suc n)
  obtain e w1 where one: "kc_reconcile_resource k obj w = (e, w1)" by fastforce
  from admitted(10) [OF assms(1) Suc.prems(2) one assms(2)] Suc one show ?case
    by (cases e) (auto split: if_splits)
qed simp

lemma ApplyObjectV2_asks:
  assumes "admits (permitted app) k I" "live app" "owned_object app obj" "I w"
    and "ApplyObjectV2 k obj fm w = (r, w')"
  shows "I w'"
proof (cases "missing_identity k obj")
  case False
  obtain c w1 where one: "kc_create_if_not_exist k obj w = (c, w1)" by fastforce
  have "I w1" by (rule admitted(9) [OF assms(1,4) one]) (simp add: assms(2,3))
  moreover have "permitted app (ReconcileResource obj)" by (simp add: assms(2,3))
  ultimately show ?thesis
    using assms(5) False one reconcile_attempts_asks [OF assms(1)]
    by (auto simp: ApplyObjectV2_def split: prod.splits sum.splits bool.splits option.splits)
qed (use assms(4,5) in \<open>simp add: ApplyObjectV2_def\<close>)

lemma preserve_cluster_ip_asks:
  assumes "admits (permitted app) k I" "owned_object app obj" "I w" "preserve_cluster_ip k obj w = (r, w')"
  shows "I w' \<and> (\<forall>obj'. r = Inr obj' \<longrightarrow> owned_object app obj')"
proof -
  obtain s w1 where one: "kc_get_service k (object_key obj) w = (s, w1)" by fastforce
  have "I w1"
    by (rule admitted(4) [OF assms(1,3) one]) (use assms(2) in \<open>simp add: owned_object_def object_defs\<close>)
  moreover have "owned_object app obj'" if "r = Inr obj'" for obj'
  proof -
    have "ko_meta obj' = ko_meta obj"
      using assms(4) that by (auto simp: preserve_cluster_ip_def split: objectBody.splits prod.splits sum.splits if_splits)
    from owned_object_same [OF this preserve_cluster_ip_managed [OF assms(4) [unfolded that]]] assms(2)
    show ?thesis by simp
  qed
  ultimately show ?thesis
    using assms(3,4) one by (auto simp: preserve_cluster_ip_def split: objectBody.splits sum.splits if_splits)
qed

lemma owner_ref_owned:
  "owner_ref_law k \<Longrightarrow> lib_set_controller_ref k a obj = Inr obj' \<Longrightarrow> owned_object app obj \<Longrightarrow> owned_object app obj'"
  using owner_ref_managed [of k a obj obj'] owner_ref_law_frame [of k a obj obj'] by (simp add: owned_object_def)

lemma apply_object_asks:
  assumes "admits (permitted app) k I" "owner_ref_law k" "live app" "owned_object app obj" "I w"
    and "apply_object k obj fe st w = (r, w')"
  shows "I w'"
proof -
  obtain p w1 where one: "preserve_cluster_ip k obj w = (p, w1)" by fastforce
  note kept = preserve_cluster_ip_asks [OF assms(1,4,5) one]
  show ?thesis
  proof (cases p)
    case (Inr obj1)
    show ?thesis
    proof (cases "lib_set_controller_ref k (rs_appDef st) obj1")
      case ref: (Inr obj2)
      obtain a w2 where two: "ApplyObjectV2 k obj2 OperatorName w1 = (a, w2)" by fastforce
      have "owned_object app obj2" using owner_ref_owned [OF assms(2) ref] kept Inr by blast
      with ApplyObjectV2_asks [OF assms(1,3) this _ two] kept assms(6) one Inr ref two show ?thesis
        by (auto simp: apply_object_def split: prod.splits)
    qed (use assms(6) one kept Inr in \<open>auto simp: apply_object_def Let_def\<close>)
  qed (use assms(6) one kept in \<open>auto simp: apply_object_def\<close>)
qed

lemma apply_objects_asks:
  assumes "admits (permitted app) k I" "owner_ref_law k" "live app"
  shows "apply_objects k applied todo fe st w = (r, w') \<Longrightarrow> list_all (owned_object app) todo \<Longrightarrow> I w \<Longrightarrow> I w'"
proof (induction todo arbitrary: applied fe st w)
  case (Cons obj objs)
  obtain stop fe1 obj1 st1 w1 where one: "apply_object k obj fe st w = (((stop, fe1), obj1, st1), w1)"
    by (metis surj_pair)
  with apply_object_asks [OF assms _ Cons.prems(3) one] Cons show ?case by (auto split: if_splits)
qed simp

lemma applyResources_asks:
  assumes "admits (permitted app) k I" "owner_ref_law k" "live app"
    and "list_all (owned_object app) (rs_desiredObjects st)" "I w" "applyResources k st w = (r, w')"
  shows "I w'"
  using assms(4-6) apply_objects_asks [OF assms(1-3)]
  by (fastforce simp: applyResources_def split: if_splits prod.splits bool.splits)

lemma CheckHealth_asks:
  assumes "admits (permitted app) k I" "addressed k" "ns = app_namespace app" "I w"
    and "CheckHealth k ns n av kd w = (r, w')"
  shows "I w'"
proof -
  let ?g = "lib_gvk k av kd"
  obtain u w1 where one: "kc_get_unstructured k ?g (NsName ns n) w = (u, w1)" by fastforce
  have w1: "I w1" by (rule admitted(6) [OF assms(1,4) one]) (simp add: assms(3))
  have typed: "I w'" if t: "check_typed k kd ?g obj w1 = (r, w')" and ns: "get_namespace obj = ns" for obj
  proof (cases "ko_body obj")
    case (Service spec ingress)
    obtain e w2 where two: "kc_get_endpoints k (object_key obj) w1 = (e, w2)" by fastforce
    have "I w2" by (rule admitted(5) [OF assms(1) w1 two]) (use ns assms(3) in \<open>simp add: object_defs\<close>)
    with t Service two w1 show ?thesis
      by (auto simp: check_typed_def checkServiceHealth_def split: if_splits sum.splits)
  qed (use t w1 in \<open>auto simp: check_typed_def\<close>)
  show ?thesis
    using assms(5) one w1 typed addressed_answers(5) [OF assms(2)]
    by (fastforce simp: CheckHealth_def Let_def split: sum.splits option.splits)
qed

lemma check_component_asks:
  assumes "admits (permitted app) k I" "addressed k" "app_key a = app_key app" "I w"
    and "check_component k a n cs w = (r, w')"
  shows "I w'"
proof (cases "as_components (ad_spec a)")
  case Nil
  with assms(4,5) show ?thesis by (simp add: check_component_def)
next
  case (Cons spec rest)
  obtain h b e w1 where c: "CheckHealth k (app_namespace a) n (ac_apiVersion spec) (ac_kind spec) w = ((h, b, e), w1)"
    by (metis surj_pair)
  with Cons assms(5) have "w' = w \<or> w' = w1"
    by (cases e) (auto simp: check_component_def Let_def split: if_splits)
  with CheckHealth_asks [OF assms(1,2) _ assms(4) c] app_key_parts [OF assms(3)] assms(4) show ?thesis by auto
qed

lemma check_components_asks:
  assumes "admits (permitted app) k I" "addressed k" "app_key a = app_key app"
  shows "check_components k a names v m w = (r, w') \<Longrightarrow> I w \<Longrightarrow> I w'"
proof (induction names arbitrary: v m w)
  case (Cons n names)
  show ?case
  proof (cases "map_of m n")
    case (Some cs)
    obtain cs1 v1 w1 where one: "check_component k a n cs w = ((cs1, v1), w1)" by (metis surj_pair)
    with Cons.prems Some have "check_components k a names (combine v v1) (AList.update n cs1 m) w1 = (r, w')"
      by simp
    with Cons.IH check_component_asks [OF assms Cons.prems(2) one] show ?thesis by blast
  qed (use Cons in simp)
qed simp

lemma apply_and_judge_asks:
  assumes "admits (permitted app) k I" "addressed k" "owner_ref_law k" "live app"
    and "app_key (rs_appDef st) = app_key app" "list_all (owned_object app) (rs_desiredObjects st)" "I w"
    and "apply_and_judge k st w = (r, w')"
  shows "I w'"
proof -
  obtain e st1 w1 where a: "applyResources k st w = ((e, st1), w1)" by (metis surj_pair)
  note w1 = applyResources_asks [OF assms(1,3,4,6,7) a]
  have "app_key (rs_appDef st1) = app_key app" using applyResources_kept [OF a] assms(5) by (simp add: kept_def)
  with assms(8) a w1 check_components_asks [OF assms(1,2)] show ?thesis
    by (cases e; cases "rs_firstError st1")
      (auto simp: apply_and_judge_def checkHealthAndCalculateStatus_def Let_def split: prod.splits option.splits)
qed

subsection \<open>A run\<close>

lemma collect_kinds_asks:
  assumes "admits A k I"
  shows "\<forall>kind \<in> set kinds. A (DeleteAllOf kind (app_namespace a) (AppNameLabel, app_name a)) \<Longrightarrow> I w \<Longrightarrow>
    I (collect_kinds k a kinds w)"
  by (induction kinds arbitrary: w) (simp_all add: admitted_calls(9) [OF assms])

lemma handleEmptyApp_asks:
  assumes "admits (permitted app) k I" "addressed k" "rs_appDef st = app" "as_components (ad_spec app) = []" "I w"
    and "handleEmptyApp k st w = (r, w')"
  shows "I w'"
proof -
  let ?a = "setCondition k (mk_condition ConditionReady ConditionTrue ''NoComponentsDefined''
      ''Application has no components defined, orphaned resources cleaned up'')
    (with_status (\<lambda>s. s\<lparr>st_components := []\<rparr>) (set_phase ApplicationPhaseRunning app))"
  let ?w = "collect_kinds k app collected_kinds w"
  obtain out a w1 where u: "updateStatusIfNeeded k ?a (rs_originalStatus st) ?w = ((out, a), w1)"
    by (metis surj_pair)
  with assms(3,6) have "w' = w1" by (auto simp: handleEmptyApp_def Let_def split: prod.splits)
  moreover have "I ?w" by (rule collect_kinds_asks [OF assms(1) _ assms(5)]) (simp add: assms(4))
  then have "about I (app_key app) ?w ?a" by (simp add: about_def)
  ultimately show ?thesis using updateStatusIfNeeded_asks [OF assms(1,2) _ u] by simp
qed

lemma handleReconcileError_asks:
  assumes "admits (permitted app) k I" "addressed k" "about I (app_key app) w (rs_appDef st)"
    and "handleReconcileError k reason e st w = (r, w')"
  shows "I w'"
proof -
  let ?a = "with_status (\<lambda>s. s\<lparr>st_components := mapToSliceComponentStatus k
      (updateComponentStatusesForError (rs_componentStatuses st) e)\<rparr>)
    (setCondition k (mk_condition ConditionReady ConditionFalse reason (err_msg e))
      (set_phase ApplicationPhaseFailed (rs_appDef st)))"
  obtain out a w1 where u: "updateStatusIfNeeded k ?a (rs_originalStatus st) w = ((out, a), w1)"
    by (metis surj_pair)
  with assms(4) have "w' = w1" by (auto simp: handleReconcileError_def Let_def split: prod.splits)
  moreover have "about I (app_key app) w ?a" using assms(3) by (simp add: about_def)
  ultimately show ?thesis using updateStatusIfNeeded_asks [OF assms(1,2) _ u] by simp
qed

lemma finish_run_asks:
  assumes "admits (permitted app) k I" "addressed k" "about I (app_key app) w (rs_appDef st)"
    and "finish_run k ready q st w = (r, w')"
  shows "I w'"
proof -
  let ?c = "conclude k ready st"
  obtain out a w1 where u: "updateStatusIfNeeded k (rs_appDef ?c) (rs_originalStatus ?c) w = ((out, a), w1)"
    by (metis surj_pair)
  with assms(4) have "w' = w1" by (auto simp: finish_run_def Let_def split: prod.splits)
  moreover have "about I (app_key app) w (rs_appDef ?c)" using assms(3) by (simp add: about_def conclude_key)
  ultimately show ?thesis using updateStatusIfNeeded_asks [OF assms(1,2) _ u] by simp
qed

lemma run_components_asks:
  assumes "admits (permitted app) k I" "addressed k" "owner_ref_law k" "live app"
    and "about I (app_key app) w (rs_appDef st)" "run_components k reg st w = Inr (r, w')"
  shows "I w'"
proof -
  obtain p st1 where p: "processComponentsAndBuildObjects k reg st = (p, st1)" by fastforce
  from processing_key [OF p] assms(5) have key: "app_key (rs_appDef st1) = app_key app" "I w"
    by (simp_all add: about_def)
  show ?thesis
  proof (cases p)
    case (ProcessFailed e)
    with assms(6) p have f: "handleReconcileError k ''ProcessingFailed'' e (st1\<lparr>rs_firstError := Some e\<rparr>) w = (r, w')"
      by (simp add: run_components_def)
    show ?thesis by (rule handleReconcileError_asks [OF assms(1,2) _ f]) (simp add: about_def key)
  next
    case Processed
    obtain ready q st2 w2 where j: "apply_and_judge k st1 w = (((ready, q), st2), w2)" by (metis surj_pair)
    with assms(6) p Processed have f: "finish_run k ready q st2 w2 = (r, w')" by (simp add: run_components_def)
    have owned: "list_all (owned_object app) (rs_desiredObjects st1)"
      by (rule processing_owned [OF p [unfolded Processed]]) (use assms(5) in \<open>simp add: about_def\<close>)
    have "I w2" by (rule apply_and_judge_asks [OF assms(1-4) key(1) owned key(2) j])
    with key(1) apply_and_judge_app [OF j] show ?thesis
      by (intro finish_run_asks [OF assms(1,2) _ f]) (simp add: about_def)
  qed (use assms(6) p in \<open>simp add: run_components_def\<close>)
qed

lemma run_initialised_asks:
  assumes "admits (permitted app) k I" "addressed k" "owner_ref_law k" "rs_appDef st = app" "I w" "workable app"
    and "run_initialised k reg st w = Inr (r, w')"
  shows "I w'"
proof -
  obtain del ferr app1 w1 where fin: "handleFinalizer k app w = (((del, ferr), app1), w1)"
    by (metis surj_pair)
  note f = handleFinalizer_asks [OF assms(1,2,5) fin assms(6)]
  obtain up perr st2 w2 where ini: "setInitialPhase k (st\<lparr>rs_appDef := app1\<rparr>) w1 = (((up, perr), st2), w2)"
    by (metis surj_pair)
  have w2: "I w2" by (rule setInitialPhase_asks [OF assms(1,2) _ ini]) (use f in simp)
  show ?thesis
  proof (cases "\<not> del \<and> \<not> up \<and> perr = None \<and> run_components k reg st2 w2 = Inr (r, w')")
    case True
    with ini have "st2 = st\<lparr>rs_appDef := app1\<rparr>" "w2 = w1"
      by (auto simp: setInitialPhase_def Let_def split: if_splits prod.splits retryResult.splits)
    with True f show ?thesis
      by (intro run_components_asks [OF assms(1-3), of w2 st2 reg r w']) simp_all
  next
    case False
    with assms(4,7) fin ini have "w' = w1 \<or> w' = w2"
      by (auto simp: run_initialised_def Let_def split: if_splits)
    with f w2 show ?thesis by (auto simp: about_def)
  qed
qed

lemma run_fetched_asks:
  assumes "admits (permitted app) k I" "addressed k" "owner_ref_law k" "I w"
    and "run_fetched k reg app w = Inr (r, w')"
  shows "I w'"
proof -
  obtain e m where ini: "initializeComponentStatuses (as_components (ad_spec app)) (rs_componentStatuses (fresh_state app)) = (e, m)"
    by fastforce
  let ?st = "(fresh_state app)\<lparr>rs_componentStatuses := m\<rparr>"
  have app: "rs_appDef ?st = app" by (simp add: fresh_state_def)
  show ?thesis
  proof (cases e)
    case (Some err)
    with assms(5) ini have f: "handleReconcileError k ''InitializationFailed'' err ?st w = (r, w')"
      by (simp add: run_fetched_def Let_def)
    show ?thesis by (rule handleReconcileError_asks [OF assms(1,2) _ f]) (simp only: about_def app assms(4))
  next
    case None
    have ok: "workable app" if "as_components (ad_spec app) \<noteq> []"
      using ini None that initialize_loop_error_iff [of "as_components (ad_spec app)" "[]" "[]"]
      by (auto simp: workable_def initializeComponentStatuses_def fresh_state_def split: prod.splits)
    from None show ?thesis
      using assms(5) ok ini handleEmptyApp_asks [OF assms(1,2) app _ assms(4)]
        run_initialised_asks [OF assms(1-3) app assms(4)]
      by (auto simp: run_fetched_def Let_def split: if_splits)
  qed
qed

text \<open>The calls of a recorded run: the read of the application, and what is permitted for what was read.\<close>

lemma Reconcile_asks:
  assumes "addressed k" "owner_ref_law k"
    and "Reconcile (recording k) reg watched req (w, []) = Inr (out, (w', calls))"
  shows "if nn_namespace req \<noteq> watched then calls = []
    else case fst (kc_get_app k req w) of
      Inl e \<Rightarrow> calls = [GetApp req]
    | Inr app \<Rightarrow> \<exists>rest. calls = GetApp req # rest \<and> list_all (permitted app) rest"
proof (cases "nn_namespace req \<noteq> watched")
  case here: False
  obtain r w1 where rd: "kc_get_app k req w = (r, w1)" by fastforce
  then have rd': "kc_get_app (recording k) req (w, []) = (r, (w1, [GetApp req]))"
    by (simp add: recording_def recorded_call_def)
  show ?thesis
  proof (cases r)
    case (Inl e)
    with here rd rd' assms(3) show ?thesis by (simp add: Reconcile_def)
  next
    case (Inr app)
    with here rd' assms(3) obtain res where
      run: "run_fetched (recording k) reg app (w1, [GetApp req]) = Inr (res, (w', calls))"
      by (auto simp: Reconcile_def split: sum.splits)
    let ?I = "\<lambda>v. \<exists>rest. snd v = [GetApp req] @ rest \<and> list_all (permitted app) rest"
    have "?I (w', calls)"
      by (rule run_fetched_asks [OF recording_admits recording_laws(1) [OF assms(1)] recording_laws(2) [OF assms(2)] _ run]) simp
    with here rd Inr show ?thesis by simp
  qed
qed (use assms(3) in \<open>simp add: Reconcile_def\<close>)

subsection \<open>Properties\<close>

text \<open>
  C2. A run keeps to the application it is for, whatever the API answers about it. A request from another
  namespace than the watched one makes no call. Else the run reads the application, and if it finds it,
  everything it asks after that is permitted for what it found: it writes this application only; the
  objects it creates and updates are in the namespace of the application and carry its name and the label
  of the operator, and there are none for an application that is being deleted; volume claims are deleted
  only for an application that is being deleted, and whole kinds only for one without components, by the
  label with its name and in its namespace. For an application without components or with component names
  that are empty or occur twice, it writes nothing but the status.
\<close>

theorem runs_ask_only_what_is_theirs:
  assumes "addressed k" "owner_ref_law k" and "Reconcile k reg watched req w = Inr (out, w')"
  shows "\<exists>calls. Reconcile (recording k) reg watched req (w, []) = Inr (out, (w', calls)) \<and>
    (if nn_namespace req \<noteq> watched then calls = []
     else case fst (kc_get_app k req w) of
       Inl e \<Rightarrow> calls = [GetApp req]
     | Inr app \<Rightarrow> \<exists>rest. calls = GetApp req # rest \<and> list_all (permitted app) rest)"
proof -
  obtain calls where run: "Reconcile (recording k) reg watched req (w, []) = Inr (out, (w', calls))"
    using recording_run.Reconcile_recorded [of k reg watched req "(w, [])" out w'] assms(3) by force
  with Reconcile_asks [OF assms(1,2) run] show ?thesis by blast
qed

text \<open>A cluster that answers about what it is asked, with one application, a volume claim and a workload.\<close>

definition asked_cluster :: "appDef cluster" where
  "asked_cluster = bare_cluster
     \<lparr>kc_get_app := \<lambda>key w. (if key = app_key w then Inr w else Inl not_found_error, w),
      kc_update_app := \<lambda>app w. if app_key app = app_key w then (Inr app, app) else (Inl not_found_error, w),
      kc_status_update := \<lambda>app w. if app_key app = app_key w then (Inr app, app) else (Inl not_found_error, w),
      kc_list_pvcs := \<lambda>ns l w. (Inr [NsName ns ''data-web-0''], w),
      kc_get_unstructured := \<lambda>g key w. (if key = NsName ''default'' ''web'' then Inr [] else Inl not_found_error, w),
      lib_from_unstructured := \<lambda>u g. Inr ready_workload,
      lib_unmarshal := \<lambda>properties. Inr example_config\<rparr>"

lemma asked_laws: "addressed asked_cluster" "owner_ref_law asked_cluster"
proof -
  show "addressed asked_cluster"
    by (auto simp: addressed_def asked_cluster_def bare_cluster_def ready_workload_def object_defs empty_meta_def
        split: if_splits)
  show "owner_ref_law asked_cluster"
    using bare_laws(5) by (simp add: owner_ref_law_def asked_cluster_def)
qed

text \<open>When the application is being deleted, its claims are listed and deleted, then the finalizer goes.\<close>

lemma asked_run:
  "\<exists>out. Reconcile (recording asked_cluster) example_registry ''default'' (NsName ''default'' ''shop'') (deleted_app, []) =
     Inr (out, (remove_finalizer asked_cluster deleted_app,
       [GetApp (NsName ''default'' ''shop''), ListPvcs ''default'' (AppNameLabel, ''shop''),
        DeletePvc (NsName ''default'' ''data-web-0''), UpdateApp (remove_finalizer asked_cluster deleted_app)]))"
  by (simp_all add: Reconcile_def run_fetched_def run_initialised_def handleFinalizer_def cleanup_pvcs_def
      initializeComponentStatuses_def has_finalizer_def remove_finalizer_def max_attempts_def numeral_3_eq_3 Let_def
      recording_def recorded_call_def asked_cluster_def bare_cluster_def deleted_app_def managed_app_def
      example_app_def example_component_def fresh_state_def empty_status_def empty_meta_def app_key_def
      app_namespace_def app_name_def)

theorem runs_ask_only_what_is_theirs_witness:
  "\<exists>out rest. Reconcile (recording asked_cluster) example_registry ''default'' (NsName ''default'' ''shop'') (deleted_app, []) =
     Inr (out, (remove_finalizer asked_cluster deleted_app, GetApp (NsName ''default'' ''shop'') # rest)) \<and>
     list_all (permitted deleted_app) rest \<and> DeletePvc (NsName ''default'' ''data-web-0'') \<in> set rest"
proof -
  let ?req = "NsName ''default'' ''shop''"
  obtain out rest where run: "Reconcile (recording asked_cluster) example_registry ''default'' ?req (deleted_app, []) =
      Inr (out, (remove_finalizer asked_cluster deleted_app, GetApp ?req # rest))"
    and del: "DeletePvc (NsName ''default'' ''data-web-0'') \<in> set rest"
    using asked_run by fastforce
  have plain: "Reconcile asked_cluster example_registry ''default'' ?req deleted_app =
      Inr (out, remove_finalizer asked_cluster deleted_app)"
    using recording_run.Reconcile_same [of asked_cluster example_registry "''default''" ?req "(deleted_app, [])"] run
    by simp
  have "fst (kc_get_app asked_cluster ?req deleted_app) = Inr deleted_app"
    by (simp add: asked_cluster_def deleted_app_def managed_app_def example_app_def empty_meta_def app_key_def)
  with runs_ask_only_what_is_theirs [OF asked_laws plain] run have "list_all (permitted deleted_app) rest" by simp
  with run del show ?thesis by blast
qed








end
