(* ===== verification/Deletion.thy ===== *)
theory Deletion
  imports Requests
begin

text \<open>
  The deletion of an application, up to its release: on an API server that lists and deletes claims and
  lets a write through after at most two conflicts, one run deletes the claims and removes the finalizer.
\<close>

text \<open>
  \<open>stored\<close> is the application as it was last accepted, \<open>claims w ns l\<close> the volume claims in the namespace
  \<open>ns\<close> with the label \<open>l\<close> that nobody has asked to delete yet, and \<open>busy\<close> the number of conflicts to come. A
  conflicting writer may change the application, but not its identity; a list holds the claims, and may
  hold others that are on their way out already. The law idealises: lists and deletions always answer, a
  read of the application always finds what was accepted last, also after its release, when a real server may
  have removed it (the run does not read it then), and a write is refused only while there are conflicts to come.
\<close>

definition deletion_law ::
    "'w cluster \<Rightarrow> ('w \<Rightarrow> appDef) \<Rightarrow> ('w \<Rightarrow> string \<Rightarrow> string \<times> string \<Rightarrow> nsname set) \<Rightarrow> ('w \<Rightarrow> nat) \<Rightarrow> bool" where
  "deletion_law k stored claims busy \<longleftrightarrow>
     (\<forall>w. kc_get_app k (app_key (stored w)) w = (Inr (stored w), w)) \<and>
     (\<forall>app w. app_key app = app_key (stored w) \<longrightarrow>
        (\<exists>r w'. kc_update_app k app w = (r, w') \<and> claims w' = claims w \<and> app_key (stored w') = app_key (stored w) \<and>
           (if busy w = 0 then r = Inr app \<and> stored w' = app
            else busy w' < busy w \<and> (\<exists>e. r = Inl e \<and> is_conflict e)))) \<and>
     (\<forall>ns l w. \<exists>pvcs. kc_list_pvcs k ns l w = (Inr pvcs, w) \<and> claims w ns l \<subseteq> set pvcs) \<and>
     (\<forall>pvc w. \<exists>r w'. kc_delete_pvc k pvc w = (r, w') \<and> (\<forall>e. r = Some e \<longrightarrow> is_not_found e) \<and>
        stored w' = stored w \<and> busy w' = busy w \<and> (\<forall>ns l. claims w' ns l = claims w ns l - {pvc}))"

lemma deletion_calls:
  assumes "deletion_law k stored claims busy"
  shows "kc_get_app k (app_key (stored w)) w = (Inr (stored w), w)"
    "app_key app = app_key (stored w) \<Longrightarrow>
      \<exists>r w'. kc_update_app k app w = (r, w') \<and> claims w' = claims w \<and> app_key (stored w') = app_key (stored w) \<and>
        (if busy w = 0 then r = Inr app \<and> stored w' = app
         else busy w' < busy w \<and> (\<exists>e. r = Inl e \<and> is_conflict e))"
    "\<exists>pvcs. kc_list_pvcs k ns l w = (Inr pvcs, w) \<and> claims w ns l \<subseteq> set pvcs"
    "\<exists>r w'. kc_delete_pvc k pvc w = (r, w') \<and> (\<forall>e. r = Some e \<longrightarrow> is_not_found e) \<and>
      stored w' = stored w \<and> busy w' = busy w \<and> (\<forall>ns l. claims w' ns l = claims w ns l - {pvc})"
  using assms unfolding deletion_law_def by blast+

text \<open>The claims that were listed are gone.\<close>

lemma delete_pvcs_completes:
  assumes "deletion_law k stored claims busy"
  shows "\<exists>w'. delete_pvcs k pvcs w = (None, w') \<and> stored w' = stored w \<and> busy w' = busy w \<and>
    (\<forall>ns l. claims w' ns l = claims w ns l - set pvcs)"
proof (induction pvcs arbitrary: w)
  case (Cons pvc pvcs)
  obtain r w1 where one: "kc_delete_pvc k pvc w = (r, w1)" "\<forall>e. r = Some e \<longrightarrow> is_not_found e"
    "stored w1 = stored w" "busy w1 = busy w" "\<forall>ns l. claims w1 ns l = claims w ns l - {pvc}"
    using deletion_calls(4) [OF assms] by blast
  from Cons.IH [of w1] obtain w2 where "delete_pvcs k pvcs w1 = (None, w2)" "stored w2 = stored w1"
    "busy w2 = busy w1" "\<forall>ns l. claims w2 ns l = claims w1 ns l - set pvcs" by blast
  with one show ?case by (intro exI [of _ w2]) (cases r; auto)
qed simp

text \<open>With fewer conflicts than attempts the finalizer is removed.\<close>

lemma removal_completes:
  assumes "deletion_law k stored claims busy" "finalizer_law k"
  shows "busy w < n \<Longrightarrow> app_key a = app_key (stored w) \<Longrightarrow> \<not> has_finalizer k a \<Longrightarrow>
    \<exists>a' w'. remove_finalizer_loop k n a w = ((Written, a'), w') \<and> stored w' = a' \<and> \<not> has_finalizer k a' \<and>
      claims w' = claims w"
proof (induction n arbitrary: a w)
  case (Suc n)
  from deletion_calls(2) [OF assms(1) Suc.prems(2)] obtain r w1 where
    up: "kc_update_app k a w = (r, w1)" "claims w1 = claims w" "app_key (stored w1) = app_key (stored w)"
    and r: "if busy w = 0 then r = Inr a \<and> stored w1 = a else busy w1 < busy w \<and> (\<exists>e. r = Inl e \<and> is_conflict e)"
    by blast
  show ?case
  proof (cases "busy w = 0")
    case True
    with up r Suc.prems(3) show ?thesis by simp
  next
    case False
    with r obtain e where e: "r = Inl e" "is_conflict e" "busy w1 < busy w" by auto
    let ?a = "remove_finalizer k (stored w1)"
    have "kc_get_app k (app_key a) w1 = (Inr (stored w1), w1)"
      using deletion_calls(1) [OF assms(1), of w1] up(3) Suc.prems(2) by simp
    with up e have "remove_finalizer_loop k (Suc n) a w = remove_finalizer_loop k n ?a w1" by simp
    with Suc.IH [of w1 ?a] add_finalizer_has(2) [OF assms(2)] e(3) Suc.prems(1) up(2) show ?thesis by simp
  qed
qed simp

lemma handleFinalizer_completes:
  assumes "deletion_law k stored claims busy" "finalizer_law k"
    and "being_deleted (stored w)" "has_finalizer k (stored w)" "busy w < max_attempts"
  shows "\<exists>w'. handleFinalizer k (stored w) w = (((True, None), stored w'), w') \<and> \<not> has_finalizer k (stored w') \<and>
    claims w' (app_namespace (stored w)) (AppNameLabel, app_name (stored w)) = {}"
proof -
  let ?ns = "app_namespace (stored w)" and ?l = "(AppNameLabel, app_name (stored w))"
  obtain pvcs where ls: "kc_list_pvcs k ?ns ?l w = (Inr pvcs, w)" "claims w ?ns ?l \<subseteq> set pvcs"
    using deletion_calls(3) [OF assms(1)] by blast
  obtain w1 where del: "delete_pvcs k pvcs w = (None, w1)" "stored w1 = stored w" "busy w1 = busy w"
    "\<forall>ns l. claims w1 ns l = claims w ns l - set pvcs"
    using delete_pvcs_completes [OF assms(1)] by blast
  obtain a' w' where "remove_finalizer_loop k max_attempts (remove_finalizer k (stored w)) w1 = ((Written, a'), w')"
    "stored w' = a'" "\<not> has_finalizer k a'" "claims w' = claims w1"
    using removal_completes [OF assms(1,2), of w1 max_attempts "remove_finalizer k (stored w)"]
      add_finalizer_has(2) [OF assms(2)] assms(5) del(2,3) by auto
  with assms(3,4) ls del show ?thesis
    by (intro exI [of _ w']) (auto simp: handleFinalizer_def being_deleted_def cleanup_pvcs_def)
qed

text \<open>
  C15. Deletion gets through: when at most two writes conflict, one run on an application that is being
  deleted, and that can be worked on, deletes every volume claim with its label, and then has an update
  without the finalizer accepted. It ends with no error and asks for no other run.
\<close>

theorem deletion_is_completed:
  assumes "deletion_law k stored claims busy" "finalizer_law k" "leaving (stored w)" "has_finalizer k (stored w)"
    and "app_key (stored w) = req" "busy w \<le> 2"
  shows "\<exists>st w'. Reconcile k reg (nn_namespace req) req w = Inr (((no_requeue, None), Some st), w') \<and>
    \<not> has_finalizer k (stored w') \<and> claims w' (nn_namespace req) (AppNameLabel, nn_name req) = {}"
proof -
  let ?app = "stored w" and ?comps = "as_components (ad_spec (stored w))"
  have key: "app_namespace ?app = nn_namespace req" "app_name ?app = nn_name req"
    using assms(5) by (auto simp: app_key_def app_namespace_def app_name_def)
  have get: "kc_get_app k req w = (Inr ?app, w)" using deletion_calls(1) [OF assms(1), of w] assms(5) by simp
  have app: "being_deleted ?app" "workable ?app" using assms(3) by (simp_all add: leaving_def)
  obtain e m where ini: "initializeComponentStatuses ?comps [] = (e, m)" by fastforce
  with app(2) initialize_loop_error_iff [of ?comps "[]" "[]"] have e: "e = None"
    by (auto simp: workable_def initializeComponentStatuses_def split: prod.splits option.splits)
  obtain w' where fin: "handleFinalizer k ?app w = (((True, None), stored w'), w')" "\<not> has_finalizer k (stored w')"
    "claims w' (nn_namespace req) (AppNameLabel, nn_name req) = {}"
    using handleFinalizer_completes [OF assms(1,2) app(1) assms(4)] assms(6) key by (auto simp: max_attempts_def)
  have "?comps \<noteq> []" using app(2) by (simp add: workable_def)
  with ini e fin(1) have "\<exists>st. run_fetched k reg ?app w = Inr (((no_requeue, None), st), w')"
    by (simp add: run_fetched_def run_initialised_def fresh_state_def Let_def)
  with get fin(2,3) show ?thesis by (fastforce simp: Reconcile_def)
qed

text \<open>One application with its claims; two conflicts are to come.\<close>

record leavingWorld =
  lw_app :: appDef
  lw_claims :: "nsname list"
  lw_busy :: nat

definition leaving_cluster :: "leavingWorld cluster" where
  "leaving_cluster = bare_cluster
     \<lparr>kc_get_app := \<lambda>key w. (Inr (lw_app w), w),
      kc_update_app := \<lambda>app w. if lw_busy w = 0 then (Inr app, w\<lparr>lw_app := app\<rparr>)
        else (Inl conflict_error, w\<lparr>lw_busy := lw_busy w - 1\<rparr>),
      kc_list_pvcs := \<lambda>ns l w. (Inr (lw_claims w), w),
      kc_delete_pvc := \<lambda>pvc w. (if pvc \<in> set (lw_claims w) then None else Some not_found_error,
        w\<lparr>lw_claims := removeAll pvc (lw_claims w)\<rparr>)\<rparr>"

definition claims_left :: "leavingWorld \<Rightarrow> string \<Rightarrow> string \<times> string \<Rightarrow> nsname set" where
  "claims_left w ns l = {pvc \<in> set (lw_claims w). nn_namespace pvc = ns}"

lemma leaving_laws: "deletion_law leaving_cluster lw_app claims_left lw_busy" "finalizer_law leaving_cluster"
proof -
  show "deletion_law leaving_cluster lw_app claims_left lw_busy"
    unfolding deletion_law_def
    by (intro conjI allI impI) (auto simp: leaving_cluster_def claims_left_def fun_eq_iff)
  show "finalizer_law leaving_cluster"
    using bare_laws(1) by (simp add: finalizer_law_def leaving_cluster_def)
qed

theorem deletion_is_completed_witness:
  "\<exists>st w'. Reconcile leaving_cluster example_registry ''default'' (NsName ''default'' ''shop'')
       \<lparr>lw_app = deleted_app, lw_claims = [NsName ''default'' ''data-web-0''], lw_busy = 2\<rparr> =
     Inr (((no_requeue, None), Some st), w') \<and>
     \<not> has_finalizer leaving_cluster (lw_app w') \<and> NsName ''default'' ''data-web-0'' \<notin> set (lw_claims w')"
proof -
  let ?w = "\<lparr>lw_app = deleted_app, lw_claims = [NsName ''default'' ''data-web-0''], lw_busy = 2\<rparr>"
  have "leaving (lw_app ?w)" "app_key (lw_app ?w) = NsName ''default'' ''shop''" "has_finalizer leaving_cluster (lw_app ?w)"
    by (simp_all add: leaving_def workable_def being_deleted_def has_finalizer_def leaving_cluster_def bare_cluster_def
        deleted_app_def managed_app_def example_app_def empty_meta_def app_key_def example_component_def)
  then have "\<exists>st w'. Reconcile leaving_cluster example_registry (nn_namespace (NsName ''default'' ''shop''))
      (NsName ''default'' ''shop'') ?w = Inr (((no_requeue, None), Some st), w') \<and>
      \<not> has_finalizer leaving_cluster (lw_app w') \<and>
      claims_left w' (nn_namespace (NsName ''default'' ''shop'')) (AppNameLabel, nn_name (NsName ''default'' ''shop'')) = {}"
    by (intro deletion_is_completed [OF leaving_laws]) simp_all
  then show ?thesis by (auto simp: claims_left_def)
qed

end
