(* ===== verification/Payloads.thy ===== *)
theory Payloads
  imports WebRecorder
begin

text \<open>
  The JSON text of a webhook event (\<^verbatim>\<open>pkg/webrecorder/recorder.go\<close>), by the field tags of its
  structures: a field with \<^verbatim>\<open>omitempty\<close> is left out when it is empty. Nothing is lost: a reader that takes
  the missing fields for empty gets the event back.
\<close>

subsection \<open>Fields\<close>

definition text_field :: "string \<Rightarrow> string \<Rightarrow> (string \<times> json) list" where
  "text_field name s = [(name, JText s)]"

definition text_omitempty :: "string \<Rightarrow> string \<Rightarrow> (string \<times> json) list" where
  "text_omitempty name s = (if s = [] then [] else [(name, JText s)])"

definition int_omitempty :: "string \<Rightarrow> int32 option \<Rightarrow> (string \<times> json) list" where
  "int_omitempty name n = (case n of None \<Rightarrow> [] | Some i \<Rightarrow> [(name, JInt (sint i))])"

text \<open>A pointer to a structure, and a map, which is empty when it has no keys.\<close>

definition struct_omitempty :: "string \<Rightarrow> (string \<times> json) list option \<Rightarrow> (string \<times> json) list" where
  "struct_omitempty name ps = (case ps of None \<Rightarrow> [] | Some qs \<Rightarrow> [(name, JObject qs)])"

definition map_omitempty :: "string \<Rightarrow> str_map \<Rightarrow> (string \<times> json) list" where
  "map_omitempty name m = (case sorted_entries m of [] \<Rightarrow> [] | ps \<Rightarrow> [(name, json_entries ps)])"

definition change_members :: "resourceChange \<Rightarrow> (string \<times> json) list" where
  "change_members r =
     text_omitempty ''cpu_before'' (rch_cpuBefore r) @ text_omitempty ''cpu_after'' (rch_cpuAfter r) @
     text_omitempty ''memory_before'' (rch_memoryBefore r) @ text_omitempty ''memory_after'' (rch_memoryAfter r) @
     text_omitempty ''disk_before'' (rch_diskBefore r) @ text_omitempty ''disk_after'' (rch_diskAfter r) @
     int_omitempty ''replicas_before'' (rch_replicasBefore r) @
     int_omitempty ''replicas_after'' (rch_replicasAfter r)"

definition event_members :: "webhookEvent \<Rightarrow> (string \<times> json) list" where
  "event_members e =
     text_field ''change_id'' (we_changeID e) @ text_field ''cluster_id'' (we_clusterID e) @
     text_field ''phase'' (we_phase e) @ text_field ''level'' (we_level e) @
     text_field ''message'' (we_message e) @ text_field ''timestamp'' (we_timestamp e) @
     map_omitempty ''payload'' (we_payload e) @
     text_field ''status'' (we_status e) @ text_field ''step'' (we_step e) @
     struct_omitempty ''resource_change'' (map_option change_members (we_resourceChange e))"

text \<open>\<^verbatim>\<open>json.Marshal\<close> of an event never fails.\<close>

definition marshal_event :: "webhookEvent \<Rightarrow> goerror + string" where
  "marshal_event e = Inr (json_text (JObject (event_members e)))"

subsection \<open>Reading an event back\<close>

definition text_at :: "string \<Rightarrow> (string \<times> json) list \<Rightarrow> string" where
  "text_at name ps = (case map_of ps name of Some (JText s) \<Rightarrow> s | _ \<Rightarrow> [])"

definition int_at :: "string \<Rightarrow> (string \<times> json) list \<Rightarrow> int32 option" where
  "int_at name ps = (case map_of ps name of Some (JInt i) \<Rightarrow> Some (word_of_int i) | _ \<Rightarrow> None)"

definition struct_at :: "string \<Rightarrow> (string \<times> json) list \<Rightarrow> (string \<times> json) list option" where
  "struct_at name ps = (case map_of ps name of Some (JObject qs) \<Rightarrow> Some qs | _ \<Rightarrow> None)"

definition map_at :: "string \<Rightarrow> (string \<times> json) list \<Rightarrow> str_map" where
  "map_at name ps =
     (case struct_at name ps of
        None \<Rightarrow> Map.empty
      | Some qs \<Rightarrow> map_of (map (\<lambda>(key, v). (key, case v of JText s \<Rightarrow> s | _ \<Rightarrow> [])) qs))"

definition read_change :: "(string \<times> json) list \<Rightarrow> resourceChange" where
  "read_change ps =
     \<lparr>rch_cpuBefore = text_at ''cpu_before'' ps, rch_cpuAfter = text_at ''cpu_after'' ps,
      rch_memoryBefore = text_at ''memory_before'' ps, rch_memoryAfter = text_at ''memory_after'' ps,
      rch_diskBefore = text_at ''disk_before'' ps, rch_diskAfter = text_at ''disk_after'' ps,
      rch_replicasBefore = int_at ''replicas_before'' ps, rch_replicasAfter = int_at ''replicas_after'' ps\<rparr>"

definition read_event :: "(string \<times> json) list \<Rightarrow> webhookEvent" where
  "read_event ps =
     \<lparr>we_changeID = text_at ''change_id'' ps, we_clusterID = text_at ''cluster_id'' ps,
      we_phase = text_at ''phase'' ps, we_level = text_at ''level'' ps,
      we_message = text_at ''message'' ps, we_timestamp = text_at ''timestamp'' ps,
      we_payload = map_at ''payload'' ps, we_status = text_at ''status'' ps, we_step = text_at ''step'' ps,
      we_resourceChange = map_option read_change (struct_at ''resource_change'' ps)\<rparr>"

text \<open>Where a member stands, the reader of its kind finds its value, and the others pass it over.\<close>

lemma text_at_members [simp]:
  "text_at n (text_field m s @ ps) = (if n = m then s else text_at n ps)"
  "n \<noteq> m \<Longrightarrow> text_at n (text_omitempty m s @ ps) = text_at n ps"
  "map_of ps n = None \<Longrightarrow> text_at n (text_omitempty n s @ ps) = s"
  "n \<noteq> m \<Longrightarrow> text_at n (int_omitempty m i @ ps) = text_at n ps"
  "n \<noteq> m \<Longrightarrow> text_at n (struct_omitempty m qs @ ps) = text_at n ps"
  "n \<noteq> m \<Longrightarrow> text_at n (map_omitempty m d @ ps) = text_at n ps"
  by (auto simp: text_at_def text_field_def text_omitempty_def int_omitempty_def struct_omitempty_def
      map_omitempty_def split: option.splits list.splits)

lemma int_at_members [simp]:
  "n \<noteq> m \<Longrightarrow> int_at n (text_omitempty m s @ ps) = int_at n ps"
  "n \<noteq> m \<Longrightarrow> int_at n (int_omitempty m i @ ps) = int_at n ps"
  "map_of ps n = None \<Longrightarrow> int_at n (int_omitempty n i @ ps) = i"
  "int_at n (int_omitempty n i) = i"
  by (auto simp: int_at_def text_omitempty_def int_omitempty_def split: option.splits)

lemma struct_at_members [simp]:
  "n \<noteq> m \<Longrightarrow> struct_at n (text_field m s @ ps) = struct_at n ps"
  "n \<noteq> m \<Longrightarrow> struct_at n (map_omitempty m d @ ps) = struct_at n ps"
  "struct_at n (struct_omitempty n qs) = qs"
  "struct_at n [] = None"
  by (auto simp: struct_at_def text_field_def struct_omitempty_def map_omitempty_def
      split: option.splits list.splits)

lemma map_of_members [simp]:
  "map_of (text_field m s @ ps) n = (if n = m then Some (JText s) else map_of ps n)"
  "n \<noteq> m \<Longrightarrow> map_of (text_omitempty m s @ ps) n = map_of ps n"
  "n \<noteq> m \<Longrightarrow> map_of (int_omitempty m i @ ps) n = map_of ps n"
  "n \<noteq> m \<Longrightarrow> map_of (int_omitempty m i) n = None"
  "n \<noteq> m \<Longrightarrow> map_of (struct_omitempty m qs) n = None"
  by (auto simp: text_field_def text_omitempty_def int_omitempty_def struct_omitempty_def split: option.splits)

lemma map_at_members [simp]:
  "n \<noteq> m \<Longrightarrow> map_at n (text_field m s @ ps) = map_at n ps"
  "finite (dom d) \<Longrightarrow> map_of ps n = None \<Longrightarrow> map_at n (map_omitempty n d @ ps) = d"
  using sorted_entries_map_of [of d]
  by (auto simp: map_at_def struct_at_def map_omitempty_def text_field_def json_entries_def comp_def
      prod.case_eq_if split: list.splits)

lemma read_change_members: "read_change (change_members r) = r"
  by (simp add: read_change_def change_members_def del: map_of_append)

lemma read_event_members: "finite (dom (we_payload e)) \<Longrightarrow> read_event (event_members e) = e"
  by (simp add: read_event_def event_members_def option.map_comp comp_def read_change_members
      option.map_ident del: map_of_append)

text \<open>An event whose strings are valid UTF-8 is determined by its text.\<close>

definition valid_event :: "webhookEvent \<Rightarrow> bool" where
  "valid_event e \<longleftrightarrow> finite (dom (we_payload e)) \<and> valid_members (event_members e)"

lemma marshal_event_inject:
  assumes "marshal_event a = marshal_event b" "valid_event a" "valid_event b"
  shows "a = b"
proof -
  have "JObject (event_members a) = JObject (event_members b)"
    by (rule json_document) (use assms in \<open>simp_all add: marshal_event_def valid_event_def\<close>)
  with read_event_members assms(2,3) show ?thesis by (metis json.inject(3) valid_event_def)
qed

subsection \<open>Properties\<close>

text \<open>
  C33. An event that is delivered has been accepted whole: the last post was answered with a success
  code, and the text it carried is that of this event and of no other, so the receiver can read back
  every field of it, the optional ones included.
\<close>

theorem delivered_events_are_readable:
  assumes "valid_event ev" "sendEvent marshal_event post ev w = ((Delivered, acts), w')"
  shows "\<exists>json w0 code. post json w0 = (Status code, w') \<and> 200 \<le> code \<and> code < 300 \<and>
    (\<forall>e. valid_event e \<longrightarrow> (marshal_event e = Inr json \<longleftrightarrow> e = ev))"
proof -
  obtain json where json: "marshal_event ev = Inr json" by (simp add: marshal_event_def)
  with assms(2) send_attempts_delivered obtain w0 code where
    "post json w0 = (Status code, w')" "200 \<le> code" "code < 300"
    by (fastforce simp: sendEvent_def)
  moreover have "marshal_event e = Inr json \<longleftrightarrow> e = ev" if "valid_event e" for e
    using marshal_event_inject [OF _ that assms(1)] json by auto
  ultimately show ?thesis by blast
qed

definition scaling_event :: webhookEvent where
  "scaling_event =
     \<lparr>we_changeID = ''c1'', we_clusterID = ''k1'', we_phase = ''Running'', we_level = ''Normal'',
      we_message = ''scaled'', we_timestamp = ''2025-01-01T00:00:00Z'', we_payload = map_of [(''reason'', ''Scaled'')],
      we_status = StatusSuccess, we_step = ''Scale'',
      we_resourceChange = Some \<lparr>rch_cpuBefore = [], rch_cpuAfter = [], rch_memoryBefore = [],
        rch_memoryAfter = ''2Gi'', rch_diskBefore = [], rch_diskAfter = [],
        rch_replicasBefore = Some 1, rch_replicasAfter = Some 3\<rparr>\<rparr>"

lemma scaling_event_members:
  "event_members scaling_event =
     [(''change_id'', JText ''c1''), (''cluster_id'', JText ''k1''), (''phase'', JText ''Running''),
      (''level'', JText ''Normal''), (''message'', JText ''scaled''), (''timestamp'', JText ''2025-01-01T00:00:00Z''),
      (''payload'', JObject [(''reason'', JText ''Scaled'')]), (''status'', JText ''success''), (''step'', JText ''Scale''),
      (''resource_change'', JObject [(''memory_after'', JText ''2Gi''), (''replicas_before'', JInt 1),
         (''replicas_after'', JInt 3)])]"
proof -
  have "sorted_entries (map_of [(''reason'', ''Scaled'')]) = [(''reason'', ''Scaled'')]"
    by (simp add: sorted_entries_def)
  then show ?thesis
    by (simp add: event_members_def scaling_event_def change_members_def text_field_def text_omitempty_def
        int_omitempty_def struct_omitempty_def map_omitempty_def json_entries_def StatusSuccess_def)
qed

lemma scaling_event_valid: "valid_event scaling_event"
proof -
  have "valid_members (event_members scaling_event)" unfolding scaling_event_members by code_simp
  then show ?thesis by (simp add: valid_event_def scaling_event_def finite_dom_map_of)
qed

theorem delivered_events_are_readable_witness:
  "\<exists>json w0 code. example_post json w0 = (Status code, 2) \<and> 200 \<le> code \<and> code < 300 \<and>
     marshal_event scaling_event = Inr json"
proof -
  have "sendEvent marshal_event example_post scaling_event 0 = ((Delivered, [Post, Wait 10, Post]), 2)"
    by (simp add: sendEvent_def marshal_event_def example_post_def WebhookRetryMaxAttempts_def eval_nat_numeral
        backoff_def WebhookRetryInitialInterval_def)
  from delivered_events_are_readable [OF scaling_event_valid this] scaling_event_valid show ?thesis by blast
qed

end
