(* ===== verification/Tasks.thy ===== *)
theory Tasks
  imports Apply Health Registry
begin

text \<open>
  \<^verbatim>\<open>pkg/reconcilers/common\<close> and \<^verbatim>\<open>pkg/reconcilers/runtime/strategy.go\<close>: the tasks of a reconcile
  strategy, the runner that executes them in order and the strategy of the runtime components. A
  task receives a context it may change; the runner stops at the first task that fails or has to
  wait. The contract a task owes the runner (an error exactly when it failed) is the interface
  \<open>task_list\<close>, interpreted on the task lists of the source.
\<close>

subsection \<open>Results, ordered by severity\<close>

datatype taskResult =
    TaskResultSkipped | TaskResultComplete | TaskResultPending | TaskResultFailed

primrec severity :: "taskResult \<Rightarrow> nat" where
  "severity TaskResultSkipped = 0"
| "severity TaskResultComplete = 1"
| "severity TaskResultPending = 2"
| "severity TaskResultFailed = 3"

lemma severity_inj: "severity a = severity b \<Longrightarrow> a = b"
  by (cases a; cases b) simp_all

instantiation taskResult :: linorder
begin

definition less_eq_taskResult :: "taskResult \<Rightarrow> taskResult \<Rightarrow> bool" where
  "less_eq_taskResult a b \<longleftrightarrow> severity a \<le> severity b"

definition less_taskResult :: "taskResult \<Rightarrow> taskResult \<Rightarrow> bool" where
  "less_taskResult a b \<longleftrightarrow> severity a < severity b"

instance
  by standard (auto simp: less_eq_taskResult_def less_taskResult_def intro: severity_inj)

end

lemmas taskResult_order = less_eq_taskResult_def less_taskResult_def

lemma taskResult_le_simps [simp]:
  "r \<le> TaskResultFailed" "TaskResultSkipped \<le> r"
  "TaskResultComplete \<le> TaskResultPending" "\<not> TaskResultFailed \<le> TaskResultPending"
  "\<not> TaskResultFailed \<le> TaskResultComplete" "\<not> TaskResultPending \<le> TaskResultComplete"
  by (cases r; simp add: taskResult_order)+

subsection \<open>The task context\<close>

text \<open>
  The clients and the scheme are the cluster argument of the tasks. \<open>tc_recorder\<close>: is there a
  recorder? \<open>tc_events\<close>: what was recorded, type, reason and message (the source passes the message
  as a format; the model covers texts without a percent sign). A nil \<^verbatim>\<open>client.Object\<close> in the
  map of desired objects is \<open>None\<close>; a nil map of results is one that was never made.
\<close>

record taskContext =
  tc_owner :: appDef
  tc_recorder :: bool
  tc_events :: "(string \<times> string \<times> string) list"
  tc_appComp :: applicationComponent
  tc_componentStatus :: "componentStatus option"
  tc_mergedConfig :: "runtimeConfig option"
  tc_desiredObjects :: "(string, kobject option) amap"
  tc_applyResults :: "string \<rightharpoonup> applyResult"

definition GetDesiredObject :: "taskContext \<Rightarrow> string \<Rightarrow> kobject option \<times> bool" where
  "GetDesiredObject tc key =
     (case map_of (tc_desiredObjects tc) key of None \<Rightarrow> (None, False) | Some obj \<Rightarrow> (obj, True))"

definition GetApplyResult :: "taskContext \<Rightarrow> string \<Rightarrow> applyResult \<times> bool" where
  "GetApplyResult tc key =
     (case tc_applyResults tc key of
        None \<Rightarrow> (\<lparr>ar_operation = OperationResultUnset, ar_error = None\<rparr>, False)
      | Some r \<Rightarrow> (r, True))"

text \<open>\<open>newMessage\<close> is the formatted message.\<close>

definition SetStatusMessage :: "string \<Rightarrow> taskContext \<Rightarrow> taskContext" where
  "SetStatusMessage newMessage tc =
     (case tc_componentStatus tc of
        None \<Rightarrow> tc
      | Some cs \<Rightarrow> tc\<lparr>tc_componentStatus := Some (cs\<lparr>cs_message := newMessage\<rparr>)\<rparr>)"

definition SetHealthStatus :: "bool \<Rightarrow> taskContext \<Rightarrow> taskContext" where
  "SetHealthStatus isHealthy tc =
     (case tc_componentStatus tc of
        None \<Rightarrow> tc
      | Some cs \<Rightarrow> tc\<lparr>tc_componentStatus := Some (cs\<lparr>cs_health := isHealthy\<rparr>)\<rparr>)"

definition record_event :: "string \<Rightarrow> string \<Rightarrow> string \<Rightarrow> taskContext \<Rightarrow> taskContext" where
  "record_event eventtype reason msg tc =
     (if tc_recorder tc then tc\<lparr>tc_events := tc_events tc @ [(eventtype, reason, msg)]\<rparr> else tc)"

definition put_result :: "string \<Rightarrow> applyResult \<Rightarrow> taskContext \<Rightarrow> taskContext" where
  "put_result key r tc = tc\<lparr>tc_applyResults := (tc_applyResults tc)(key \<mapsto> r)\<rparr>"

definition put_desired :: "string \<Rightarrow> kobject \<Rightarrow> taskContext \<Rightarrow> taskContext" where
  "put_desired key obj tc =
     tc\<lparr>tc_desiredObjects := AList.update key (Some obj) (tc_desiredObjects tc)\<rparr>"

subsection \<open>The health task\<close>

type_synonym 'w task_run =
  "taskContext \<Rightarrow> 'w \<Rightarrow> ((taskResult \<times> goerror option) \<times> taskContext) \<times> 'w"

definition waiting_messages :: "string list" where
  "waiting_messages =
     [''Initializing'', ''Processing'', ''Built successfully'',
      ''Applied successfully, awaiting health check'']"

definition CheckK8sHealthTask_Execute :: "'w cluster \<Rightarrow> 'w task_run" where
  "CheckK8sHealthTask_Execute k tc w =
     (case tc_componentStatus tc of
        None \<Rightarrow>
          (((TaskResultFailed, Some (errorf ''internal error: TaskContext is missing ComponentStatus'')),
            tc), w)
      | Some cs \<Rightarrow>
          if cs_resourceName cs = [] \<or> cs_kind cs = [] \<or> cs_apiVersion cs = [] then
            (let cs' = cs\<lparr>cs_health := False,
                   cs_message := (if cs_message cs \<in> set waiting_messages
                                  then ''Skipped health check: Resource info missing.''
                                  else cs_message cs)\<rparr>
             in (((TaskResultComplete, None), tc\<lparr>tc_componentStatus := Some cs'\<rparr>), w))
          else
            (case CheckHealth k (cs_namespace cs) (cs_resourceName cs) (cs_apiVersion cs) (cs_kind cs) w of
               ((isHealthy, message, checkProcessErr), w') \<Rightarrow>
                 (let tc' = tc\<lparr>tc_componentStatus := Some (cs\<lparr>cs_health := isHealthy, cs_message := message\<rparr>)\<rparr>
                  in case checkProcessErr of
                       Some e \<Rightarrow> (((TaskResultFailed, Some e), tc'), w')
                     | None \<Rightarrow>
                         (((if isHealthy then TaskResultComplete else TaskResultPending, None), tc'), w'))))"

subsection \<open>The apply task\<close>

definition object_label :: "'w cluster \<Rightarrow> kobject \<Rightarrow> string" where
  "object_label k obj =
     gvk_kind (object_gvk k obj) @ '' '' @ get_namespace obj @ ''/'' @ get_name obj"

text \<open>One object that has a name and a namespace; \<open>True\<close>: the task stops here.\<close>

definition apply_one ::
    "'w cluster \<Rightarrow> string \<Rightarrow> string \<Rightarrow> kobject \<Rightarrow> taskContext \<Rightarrow> goerror option \<Rightarrow> 'w
      \<Rightarrow> ((bool \<times> goerror option) \<times> taskContext) \<times> 'w" where
  "apply_one k fieldManager key obj tc firstTaskErr w =
     (case lib_set_controller_ref k (tc_owner tc) obj of
        Inl e \<Rightarrow>
          (let tc = record_event ''Warning'' ''SetOwnerRefFailed''
                 (''Failed to set OwnerReference on '' @ object_label k obj @ '': '' @ err_msg e) tc
           in (((True, first_error firstTaskErr e), put_result key (apply_failed e) tc), w))
      | Inr obj' \<Rightarrow>
          (case ApplyObject k obj' fieldManager w of
             ((r, obj''), w') \<Rightarrow>
               (let tc = put_result key r (put_desired key obj'' tc)
                in case ar_error r of
                     None \<Rightarrow> (((False, firstTaskErr), tc), w')
                   | Some e \<Rightarrow>
                       if is_conflict e then (((False, first_error firstTaskErr e), tc), w')
                       else (((False, first_error firstTaskErr e),
                              record_event ''Warning'' ''ResourceApplyFailed''
                                (''Failed to apply resource '' @ object_label k obj'' @ '': '' @ err_msg e) tc), w'))))"

definition unnamed_error :: "string \<Rightarrow> goerror" where
  "unnamed_error key =
     errorf (''skipping apply for object with key '' @ squote key @ '' due to missing name or namespace'')"

fun apply_loop ::
    "'w cluster \<Rightarrow> string \<Rightarrow> string list \<Rightarrow> taskContext \<Rightarrow> goerror option \<Rightarrow> 'w
      \<Rightarrow> ((taskResult \<times> goerror option) \<times> taskContext) \<times> 'w" where
  "apply_loop k fieldManager [] tc firstTaskErr w =
     (((case firstTaskErr of None \<Rightarrow> TaskResultComplete | Some _ \<Rightarrow> TaskResultFailed, firstTaskErr), tc), w)"
| "apply_loop k fieldManager (key # keys) tc firstTaskErr w =
     (case fst (GetDesiredObject tc key) of
        None \<Rightarrow>
          apply_loop k fieldManager keys (put_result key (apply_failed (unnamed_error key)) tc)
            (first_error firstTaskErr (unnamed_error key)) w
      | Some obj \<Rightarrow>
          if get_name obj = [] \<or> get_namespace obj = [] then
            apply_loop k fieldManager keys (put_result key (apply_failed (unnamed_error key)) tc)
              (first_error firstTaskErr (unnamed_error key)) w
          else (case apply_one k fieldManager key obj tc firstTaskErr w of
                  (((stop, fe), tc'), w') \<Rightarrow>
                    if stop then (((TaskResultFailed, fe), tc'), w')
                    else apply_loop k fieldManager keys tc' fe w'))"

definition ApplyResourcesTask_Execute :: "'w cluster \<Rightarrow> string \<Rightarrow> 'w task_run" where
  "ApplyResourcesTask_Execute k fieldManager tc w =
     (if length (tc_desiredObjects tc) = 0 then (((TaskResultComplete, None), tc), w)
      else apply_loop k fieldManager (lib_range k (map fst (tc_desiredObjects tc))) tc None w)"

subsection \<open>The runner\<close>

text \<open>A task: the text of its Go type (that of the element for a pointer) and its \<^verbatim>\<open>Execute\<close>.\<close>

record 'w task =
  tk_type :: string
  tk_execute :: "'w task_run"

definition getTaskName :: "'w task option \<Rightarrow> string" where
  "getTaskName t =
     (case t of None \<Rightarrow> ''nil-task'' | Some task \<Rightarrow> last (split_char (CHR ''.'') (tk_type task)))"

definition inconsistency :: "'w task \<Rightarrow> goerror" where
  "inconsistency t =
     errorf (''task '' @ getTaskName (Some t) @ '' reported status Failed but returned nil error'')"

fun run_tasks :: "'w task list \<Rightarrow> 'w task_run" where
  "run_tasks [] tc w = (((TaskResultComplete, None), tc), w)"
| "run_tasks (t # ts) tc w =
     (case tk_execute t tc w of
        (((taskResult, err), tc'), w') \<Rightarrow>
          (case err of
             Some e \<Rightarrow> (((TaskResultFailed, Some e), tc'), w')
           | None \<Rightarrow>
               if taskResult = TaskResultFailed
               then (((TaskResultFailed, Some (inconsistency t)), tc'), w')
               else if taskResult = TaskResultPending then (((TaskResultPending, None), tc'), w')
               else run_tasks ts tc' w'))"

definition RunTasks ::
    "appDef \<Rightarrow> bool \<Rightarrow> applicationComponent \<Rightarrow> componentStatus option \<Rightarrow> runtimeConfig option
      \<Rightarrow> (string, kobject option) amap \<Rightarrow> (string \<rightharpoonup> applyResult) \<Rightarrow> 'w task list \<Rightarrow> 'w
      \<Rightarrow> ((taskResult \<times> goerror option) \<times> taskContext) \<times> 'w" where
  "RunTasks owner recorder appComp status mergedConfig desiredObjects applyResults taskList w =
     run_tasks taskList
       \<lparr>tc_owner = owner, tc_recorder = recorder, tc_events = [], tc_appComp = appComp,
        tc_componentStatus = status, tc_mergedConfig = mergedConfig,
        tc_desiredObjects = desiredObjects, tc_applyResults = applyResults\<rparr> w"

subsection \<open>The strategy of runtime components\<close>

definition check_health_task :: "'w cluster \<Rightarrow> 'w task" where
  "check_health_task k =
     \<lparr>tk_type = ''common.CheckK8sHealthTask'', tk_execute = CheckK8sHealthTask_Execute k\<rparr>"

definition apply_resources_task :: "'w cluster \<Rightarrow> string \<Rightarrow> 'w task" where
  "apply_resources_task k fieldManager =
     \<lparr>tk_type = ''common.ApplyResourcesTask'', tk_execute = ApplyResourcesTask_Execute k fieldManager\<rparr>"

definition buildObjectMap :: "'w cluster \<Rightarrow> kobject list \<Rightarrow> (string, kobject option) amap" where
  "buildObjectMap k objList =
     fold (\<lambda>obj m. AList.update (BuildObjectResultMapKey k (Some obj)) (Some obj) m) objList []"

definition ReconcileStrategy_Reconcile ::
    "'w cluster \<Rightarrow> appDef \<Rightarrow> applicationComponent \<Rightarrow> componentStatus \<Rightarrow> runtimeConfig option
      \<Rightarrow> kobject list \<Rightarrow> (string \<rightharpoonup> applyResult) \<Rightarrow> bool \<Rightarrow> 'w
      \<Rightarrow> ((bool \<times> goerror option) \<times> componentStatus option) \<times> 'w" where
  "ReconcileStrategy_Reconcile k app appComp status mergedConfig desiredObjects applyResults recorder w =
     (case RunTasks app recorder appComp (Some status) mergedConfig (buildObjectMap k desiredObjects)
             applyResults [check_health_task k] w of
        (((overallResult, runErr), tc), w') \<Rightarrow>
          (((case runErr of
               Some e \<Rightarrow> (False, Some e)
             | None \<Rightarrow> (overallResult = TaskResultPending, None)), tc_componentStatus tc), w'))"

definition CheckAppHealth ::
    "'w cluster \<Rightarrow> appDef \<Rightarrow> applicationComponent \<Rightarrow> runtimeConfig option \<Rightarrow> 'w \<Rightarrow> health \<times> 'w" where
  "CheckAppHealth k app appComp cfg w =
     (case cfg of
        None \<Rightarrow> (health_error ''Invalid or missing Runtime config for health check''
                  (errorf ''invalid config type <nil>''), w)
      | Some _ \<Rightarrow>
          (let serviceName = DeriveResourceName (ac_name appComp);
               key = NsName (app_namespace app) serviceName
           in case kc_get_service k key w of
                (Inl e, w1) \<Rightarrow>
                  (if is_not_found e then unhealthy (''Client service '' @ serviceName @ '' not found'')
                   else health_error (''Failed to get client service '' @ serviceName @ '': '' @ err_msg e) e, w1)
              | (Inr svc, w1) \<Rightarrow>
                  if svc_clusterIP svc = ClusterIPNone
                  then (healthy ''Headless service found (basic check)'', w1)
                  else (case kc_get_endpoints k key w1 of
                      (Inl e, w2) \<Rightarrow>
                        (if is_not_found e then unhealthy ''Runtime service endpoints not found''
                         else health_error (''Failed to get Runtime endpoints '' @ serviceName @ '': '' @ err_msg e) e, w2)
                    | (Inr subsets, w2) \<Rightarrow>
                        (if \<not> has_ready_endpoints subsets
                         then unhealthy (''No ready endpoints found for Runtime service (''
                                @ count_fraction (ready_count subsets) (total_count subsets) @ '' ready/total)'')
                         else healthy (''Runtime application service has ready endpoints (''
                                @ count_fraction (ready_count subsets) (total_count subsets) @ '' ready/total)''), w2))))"

text \<open>The interface \<^verbatim>\<open>AppReconcileStrategy\<close> as the record of its methods, and the strategy of the package.\<close>

record 'w appReconcileStrategy =
  ars_Reconcile :: "appDef \<Rightarrow> applicationComponent \<Rightarrow> componentStatus \<Rightarrow> runtimeConfig option
    \<Rightarrow> kobject list \<Rightarrow> (string \<rightharpoonup> applyResult) \<Rightarrow> bool \<Rightarrow> 'w
    \<Rightarrow> ((bool \<times> goerror option) \<times> componentStatus option) \<times> 'w"
  ars_CheckAppHealth :: "appDef \<Rightarrow> applicationComponent \<Rightarrow> runtimeConfig option \<Rightarrow> 'w \<Rightarrow> health \<times> 'w"

definition reconciler_of :: "'w cluster \<Rightarrow> reconciler_id \<Rightarrow> 'w appReconcileStrategy" where
  "reconciler_of k r =
     (case r of
        RuntimeReconcileStrategy \<Rightarrow>
          \<lparr>ars_Reconcile = ReconcileStrategy_Reconcile k, ars_CheckAppHealth = CheckAppHealth k\<rparr>)"

subsection \<open>The contract of a task list\<close>

text \<open>
  The runner's own guarantees hold of any list: the error and the overall result agree, and the
  overall result is the gravest of those that were executed, at least complete. \<open>executed\<close> is the
  list of the results, in order.
\<close>

fun executed :: "'w task list \<Rightarrow> taskContext \<Rightarrow> 'w \<Rightarrow> taskResult list" where
  "executed [] tc w = []"
| "executed (t # ts) tc w =
     (case tk_execute t tc w of
        (((taskResult, err), tc'), w') \<Rightarrow>
          if err \<noteq> None then [TaskResultFailed]
          else if taskResult \<in> {TaskResultFailed, TaskResultPending} then [taskResult]
          else taskResult # executed ts tc' w')"

lemma executed_length: "length (executed ts tc w) \<le> length ts"
  by (induction ts tc w rule: executed.induct) (auto split: prod.splits)

lemma run_tasks_severity:
  "fst (fst (fst (run_tasks ts tc w))) = foldr max (executed ts tc w) TaskResultComplete"
proof (induction ts tc w rule: executed.induct)
  case (2 t ts tc w)
  obtain r err tc' w' where call: "tk_execute t tc w = (((r, err), tc'), w')" by (metis surj_pair)
  show ?case
  proof (cases "err = None \<and> r \<notin> {TaskResultFailed, TaskResultPending}")
    case True
    then have "r = TaskResultSkipped \<or> r = TaskResultComplete" by (cases r) auto
    moreover have "TaskResultComplete \<le> foldr max rs TaskResultComplete" for rs :: "taskResult list"
      by (induction rs) (auto simp: le_max_iff_disj)
    ultimately have "max r (foldr max (executed ts tc' w') TaskResultComplete) =
        foldr max (executed ts tc' w') TaskResultComplete"
      by (metis max.absorb2 order_trans taskResult_le_simps(2))
    with True 2 [OF call [symmetric]] call show ?thesis by auto
  next
    case False
    with call show ?thesis by (auto simp: max_def taskResult_order split: option.splits)
  qed
qed simp

lemma run_tasks_error_iff:
  "run_tasks ts tc w = (((r, err), tc'), w') \<Longrightarrow> err \<noteq> None \<longleftrightarrow> r = TaskResultFailed"
  by (induction ts tc w rule: run_tasks.induct) (auto split: prod.splits option.splits if_splits)

text \<open>
  What a task owes: it reports failure exactly when it returns an error. Then every error of the
  runner is the error of one of its tasks.
\<close>

locale task_list =
  fixes tasks :: "'w task list"
  assumes failed_iff:
    "t \<in> set tasks \<Longrightarrow> tk_execute t tc w = (((r, err), tc'), w') \<Longrightarrow>
      r = TaskResultFailed \<longleftrightarrow> err \<noteq> None"
begin

lemma error_from_task:
  assumes "set ts \<subseteq> set tasks" "run_tasks ts tc w = (((r, Some e), tc'), w')"
  shows "\<exists>t \<in> set ts. \<exists>tc0 w0. tk_execute t tc0 w0 = (((TaskResultFailed, Some e), tc'), w')"
  using assms
proof (induction ts arbitrary: tc w)
  case (Cons t ts)
  obtain r1 e1 tc1 w1 where call: "tk_execute t tc w = (((r1, e1), tc1), w1)" by (metis surj_pair)
  from Cons.prems(1) have law: "r1 = TaskResultFailed \<longleftrightarrow> e1 \<noteq> None"
    by (intro failed_iff [OF _ call]) simp
  show ?case
  proof (cases e1)
    case None
    with law have "r1 \<noteq> TaskResultFailed" by simp
    with Cons.prems(2) call None have "run_tasks ts tc1 w1 = (((r, Some e), tc'), w')"
      by (auto split: if_splits)
    with Cons.IH Cons.prems(1) show ?thesis by fastforce
  next
    case (Some e2)
    with Cons.prems(2) call law have "e2 = e" "tc1 = tc'" "w1 = w'" "r1 = TaskResultFailed" by auto
    with call Some show ?thesis by auto
  qed
qed simp

lemma no_inconsistency:
  "run_tasks tasks tc w = (((r, Some e), tc'), w') \<Longrightarrow>
    \<exists>t \<in> set tasks. \<exists>tc0 w0. tk_execute t tc0 w0 = (((TaskResultFailed, Some e), tc'), w')"
  by (rule error_from_task) simp_all

end

lemma CheckK8sHealthTask_failed_iff:
  "CheckK8sHealthTask_Execute k tc w = (((r, err), tc'), w') \<Longrightarrow>
    r = TaskResultFailed \<longleftrightarrow> err \<noteq> None"
  by (auto simp: CheckK8sHealthTask_Execute_def Let_def
      split: option.splits if_splits prod.splits)

lemma apply_one_stop:
  "apply_one k fm key obj tc fe w = (((True, fe'), tc'), w') \<Longrightarrow> fe' \<noteq> None"
  by (auto simp: apply_one_def first_error_def Let_def
      split: sum.splits prod.splits option.splits if_splits)

lemma apply_loop_failed_iff:
  "apply_loop k fm keys tc fe w = (((r, err), tc'), w') \<Longrightarrow> r = TaskResultFailed \<longleftrightarrow> err \<noteq> None"
proof (induction k fm keys tc fe w rule: apply_loop.induct)
  case (2 k fm key keys tc fe w)
  then show ?case
    by (auto split: option.splits if_splits prod.splits dest!: apply_one_stop)
qed (auto split: option.splits)

lemma ApplyResourcesTask_failed_iff:
  "ApplyResourcesTask_Execute k fm tc w = (((r, err), tc'), w') \<Longrightarrow>
    r = TaskResultFailed \<longleftrightarrow> err \<noteq> None"
  by (auto simp: ApplyResourcesTask_Execute_def split: if_splits dest: apply_loop_failed_iff)

interpretation runtime_tasks: task_list "[check_health_task k]" for k :: "'w cluster"
  by unfold_locales (simp add: check_health_task_def CheckK8sHealthTask_failed_iff)

interpretation apply_then_check: task_list "[apply_resources_task k fm, check_health_task k]"
  for k :: "'w cluster" and fm :: string
proof unfold_locales
  fix t :: "'w task" and tc w r err tc' w'
  assume "t \<in> set [apply_resources_task k fm, check_health_task k]"
    and "tk_execute t tc w = (((r, err), tc'), w')"
  then consider "ApplyResourcesTask_Execute k fm tc w = (((r, err), tc'), w')"
    | "CheckK8sHealthTask_Execute k tc w = (((r, err), tc'), w')"
    by (auto simp: check_health_task_def apply_resources_task_def)
  then show "r = TaskResultFailed \<longleftrightarrow> err \<noteq> None"
    by cases (erule ApplyResourcesTask_failed_iff CheckK8sHealthTask_failed_iff)+
qed

subsection \<open>What the strategy reports\<close>

lemma CheckAppHealth_ok:
  "fst (fst (CheckAppHealth k app c cfg w)) \<Longrightarrow> snd (snd (fst (CheckAppHealth k app c cfg w))) = None"
  by (auto simp: CheckAppHealth_def Let_def split: option.splits sum.splits prod.splits)

lemma buildObjectMap_ok: "amap_ok (buildObjectMap k objs)"
proof -
  have "amap_ok m \<Longrightarrow> amap_ok (fold (\<lambda>obj m.
      AList.update (BuildObjectResultMapKey k (Some obj)) (Some obj) m) objs m)" for m
    by (induction objs arbitrary: m) (auto simp: amap_ok_update)
  then show ?thesis by (simp add: buildObjectMap_def)
qed

text \<open>The verdict of the one task of the strategy, read off the health check.\<close>

lemma ReconcileStrategy_Reconcile_cases:
  assumes "cs_resourceName cs \<noteq> []" "cs_kind cs \<noteq> []" "cs_apiVersion cs \<noteq> []"
    and "CheckHealth k (cs_namespace cs) (cs_resourceName cs) (cs_apiVersion cs) (cs_kind cs) w =
      ((ok, msg, err), w')"
  shows "ReconcileStrategy_Reconcile k app c cs cfg objs results rec w =
    (((err = None \<and> \<not> ok, err), Some (cs\<lparr>cs_health := ok, cs_message := msg\<rparr>)), w')"
  using assms
  by (cases err; cases ok)
    (simp_all add: ReconcileStrategy_Reconcile_def RunTasks_def check_health_task_def
      CheckK8sHealthTask_Execute_def Let_def)

subsection \<open>Properties\<close>

text \<open>
  The overall result of a run of tasks is the gravest of the results of the tasks that were
  executed, and at least complete; failed is graver than pending, pending than complete.
\<close>

theorem runner_result_is_gravest:
  "fst (fst (fst (run_tasks ts tc w))) = foldr max (executed ts tc w) TaskResultComplete"
  by (rule run_tasks_severity)

text \<open>
  Every error of the runner for the tasks of the source is one that a task returned together with
  the result failed: the runner's report of an inconsistent task is never given.
\<close>

theorem runner_error_from_task:
  assumes "run_tasks [apply_resources_task k fm, check_health_task k] tc w = (((r, Some e), tc'), w')"
  shows "\<exists>t \<in> {apply_resources_task k fm, check_health_task k}. \<exists>tc0 w0.
    tk_execute t tc0 w0 = (((TaskResultFailed, Some e), tc'), w')"
  using apply_then_check.no_inconsistency [OF assms] by simp

definition example_context :: "componentStatus option \<Rightarrow> taskContext" where
  "example_context status =
     \<lparr>tc_owner = example_app, tc_recorder = True, tc_events = [], tc_appComp = example_component,
      tc_componentStatus = status, tc_mergedConfig = None, tc_desiredObjects = [], tc_applyResults = Map.empty\<rparr>"

theorem runner_error_from_task_witness:
  "\<exists>t \<in> {apply_resources_task bare_cluster ''fm'', check_health_task bare_cluster}. \<exists>tc0 w0.
     tk_execute t tc0 w0 =
       (((TaskResultFailed, Some (errorf ''internal error: TaskContext is missing ComponentStatus'')),
         example_context None), 0 :: nat)"
  by (rule runner_error_from_task [of bare_cluster "''fm''" "example_context None" 0 TaskResultFailed])
    (simp add: apply_resources_task_def check_health_task_def ApplyResourcesTask_Execute_def
      CheckK8sHealthTask_Execute_def example_context_def)

text \<open>
  The reconcile strategy of runtime components asks for another run exactly when the resource of
  the component was checked without an error and is not ready; it passes the error of the check on.
\<close>

theorem strategy_waits_for_readiness:
  assumes "cs_resourceName cs \<noteq> []" "cs_kind cs \<noteq> []" "cs_apiVersion cs \<noteq> []"
    and "CheckHealth k (cs_namespace cs) (cs_resourceName cs) (cs_apiVersion cs) (cs_kind cs) w =
      ((ok, msg, err), w')"
  shows "fst (fst (ReconcileStrategy_Reconcile k app c cs cfg objs results rec w)) = (err = None \<and> \<not> ok, err)"
  by (simp add: ReconcileStrategy_Reconcile_cases [OF assms])

definition example_component_status :: componentStatus where
  "example_component_status =
     \<lparr>cs_name = ''web'', cs_kind = ''StatefulSet'', cs_apiVersion = ''apps/v1'', cs_resourceName = ''web'',
      cs_namespace = ''default'', cs_health = False, cs_message = ''Initializing''\<rparr>"

theorem strategy_waits_for_readiness_witness:
  "fst (fst (ReconcileStrategy_Reconcile bare_cluster example_app example_component example_component_status
     None [] Map.empty True (0 :: nat))) = (True, None)"
  by (subst strategy_waits_for_readiness [where ok = False and msg = "''Resource not found''" and err = None and w' = 0])
    (simp_all add: example_component_status_def CheckHealth_def bare_cluster_def unhealthy_def Let_def)

end
