(* ===== verification/CommandLine.thy ===== *)
theory CommandLine
  imports GoStrings
begin

text \<open>
  The command line of \<^verbatim>\<open>cmd/main.go\<close>: the flags with their defaults, and Go's \<^verbatim>\<open>flag.Parse\<close> on
  them. Flags that imported packages define (the logger's, \<^verbatim>\<open>kubeconfig\<close>) are a parameter.
\<close>

subsection \<open>The flags\<close>

record startOptions =
  so_metricsAddr :: string
  so_probeAddr :: string
  so_leaderElect :: bool
  so_secureMetrics :: bool
  so_webhookCertPath :: string
  so_webhookCertName :: string
  so_webhookCertKey :: string
  so_metricsCertPath :: string
  so_metricsCertName :: string
  so_metricsCertKey :: string
  so_enableHTTP2 :: bool

definition default_options :: startOptions where
  "default_options =
     \<lparr>so_metricsAddr = ''0'', so_probeAddr = '':8081'', so_leaderElect = False, so_secureMetrics = True,
      so_webhookCertPath = [], so_webhookCertName = ''tls.crt'', so_webhookCertKey = ''tls.key'',
      so_metricsCertPath = [], so_metricsCertName = ''tls.crt'', so_metricsCertKey = ''tls.key'',
      so_enableHTTP2 = False\<rparr>"

text \<open>A flag and the variable it sets; a boolean flag needs no value.\<close>

datatype flagTarget =
  StringVar "string \<Rightarrow> startOptions \<Rightarrow> startOptions"
| BoolVar "bool \<Rightarrow> startOptions \<Rightarrow> startOptions"

definition declared_flags :: "(string \<times> flagTarget) list" where
  "declared_flags =
     [(''metrics-bind-address'', StringVar (\<lambda>v opts. opts\<lparr>so_metricsAddr := v\<rparr>)),
      (''health-probe-bind-address'', StringVar (\<lambda>v opts. opts\<lparr>so_probeAddr := v\<rparr>)),
      (''leader-elect'', BoolVar (\<lambda>b opts. opts\<lparr>so_leaderElect := b\<rparr>)),
      (''metrics-secure'', BoolVar (\<lambda>b opts. opts\<lparr>so_secureMetrics := b\<rparr>)),
      (''webhook-cert-path'', StringVar (\<lambda>v opts. opts\<lparr>so_webhookCertPath := v\<rparr>)),
      (''webhook-cert-name'', StringVar (\<lambda>v opts. opts\<lparr>so_webhookCertName := v\<rparr>)),
      (''webhook-cert-key'', StringVar (\<lambda>v opts. opts\<lparr>so_webhookCertKey := v\<rparr>)),
      (''metrics-cert-path'', StringVar (\<lambda>v opts. opts\<lparr>so_metricsCertPath := v\<rparr>)),
      (''metrics-cert-name'', StringVar (\<lambda>v opts. opts\<lparr>so_metricsCertName := v\<rparr>)),
      (''metrics-cert-key'', StringVar (\<lambda>v opts. opts\<lparr>so_metricsCertKey := v\<rparr>)),
      (''enable-http2'', BoolVar (\<lambda>b opts. opts\<lparr>so_enableHTTP2 := b\<rparr>))]"

text \<open>
  A flag of another package: whether it is boolean, and what it says to a value. It sets nothing here.
\<close>

type_synonym foreign_flags = "string \<Rightarrow> (bool \<times> (string \<Rightarrow> goerror option)) option"

subsection \<open>Parsing\<close>

text \<open>\<^verbatim>\<open>strconv.ParseBool\<close>.\<close>

definition parse_bool :: "string \<Rightarrow> bool option" where
  "parse_bool s =
     (if s \<in> set [''1'', ''t'', ''T'', ''TRUE'', ''true'', ''True''] then Some True
      else if s \<in> set [''0'', ''f'', ''F'', ''FALSE'', ''false'', ''False''] then Some False
      else None)"

datatype flagError =
  BadSyntax string
| NotDefined string
| NeedsArgument string
| BadBool string string
| BadValue string string goerror

datatype parseStep =
  NextFlag startOptions "string list"
| NoFlag "string list"
| HelpFlag
| FlagError flagError

text \<open>The name and the value of an argument, split at its first equals sign.\<close>

definition flag_name :: "string \<Rightarrow> string" where
  "flag_name s = takeWhile (\<lambda>c. c \<noteq> CHR ''='') s"

definition flag_value :: "string \<Rightarrow> string option" where
  "flag_value s = (case dropWhile (\<lambda>c. c \<noteq> CHR ''='') s of [] \<Rightarrow> None | _ # v \<Rightarrow> Some v)"

text \<open>
  The value of a flag that is not boolean: what follows the equals sign, or else the next argument.
\<close>

definition with_argument ::
    "string \<Rightarrow> string option \<Rightarrow> string list \<Rightarrow> (string \<Rightarrow> string list \<Rightarrow> parseStep) \<Rightarrow> parseStep" where
  "with_argument name v args assign =
     (case v of
        Some x \<Rightarrow> assign x args
      | None \<Rightarrow> (case args of [] \<Rightarrow> FlagError (NeedsArgument name) | x # rest \<Rightarrow> assign x rest))"

definition set_foreign ::
    "startOptions \<Rightarrow> string \<Rightarrow> (string \<Rightarrow> goerror option) \<Rightarrow> string \<Rightarrow> string list \<Rightarrow> parseStep" where
  "set_foreign opts name accepts x rest =
     (case accepts x of Some e \<Rightarrow> FlagError (BadValue x name e) | None \<Rightarrow> NextFlag opts rest)"

definition set_flag ::
    "foreign_flags \<Rightarrow> string \<Rightarrow> string option \<Rightarrow> string list \<Rightarrow> startOptions \<Rightarrow> parseStep" where
  "set_flag foreign name v args opts =
     (case map_of declared_flags name of
        Some (StringVar assign) \<Rightarrow> with_argument name v args (\<lambda>x rest. NextFlag (assign x opts) rest)
      | Some (BoolVar assign) \<Rightarrow>
          (case v of
             None \<Rightarrow> NextFlag (assign True opts) args
           | Some x \<Rightarrow>
               (case parse_bool x of
                  None \<Rightarrow> FlagError (BadBool x name) | Some b \<Rightarrow> NextFlag (assign b opts) args))
      | None \<Rightarrow>
          (case foreign name of
             Some (True, accepts) \<Rightarrow>
               set_foreign opts name accepts (case v of None \<Rightarrow> ''true'' | Some x \<Rightarrow> x) args
           | Some (False, accepts) \<Rightarrow> with_argument name v args (set_foreign opts name accepts)
           | None \<Rightarrow>
               if name = ''help'' \<or> name = ''h'' then HelpFlag else FlagError (NotDefined name)))"

text \<open>\<^verbatim>\<open>parseOne\<close>: one or two minus signs start a flag, two alone end the flags.\<close>

definition parse_one :: "foreign_flags \<Rightarrow> string list \<Rightarrow> startOptions \<Rightarrow> parseStep" where
  "parse_one foreign args opts =
     (case args of
        [] \<Rightarrow> NoFlag []
      | s # rest \<Rightarrow>
          if length s < 2 \<or> hd s \<noteq> CHR ''-'' then NoFlag args
          else if s = ''--'' then NoFlag rest
          else
            let body = (if s ! 1 = CHR ''-'' then drop 2 s else drop 1 s) in
            if hd body = CHR ''-'' \<or> hd body = CHR ''='' then FlagError (BadSyntax s)
            else set_flag foreign (flag_name body) (flag_value body) rest opts)"

lemma set_flag_rest:
  "set_flag foreign name v args opts = NextFlag opts' rest \<Longrightarrow> length rest \<le> length args"
  by (auto simp: set_flag_def with_argument_def set_foreign_def
      split: option.splits flagTarget.splits list.splits bool.splits prod.splits if_splits)

lemma parse_one_rest:
  "parse_one foreign args opts = NextFlag opts' rest \<Longrightarrow> length rest < length args"
  by (auto simp: parse_one_def Let_def less_Suc_eq_le dest: set_flag_rest split: list.splits if_splits)

datatype parseResult =
  Parsed startOptions "string list"
| HelpWanted
| BadUsage flagError

function parse_flags :: "foreign_flags \<Rightarrow> string list \<Rightarrow> startOptions \<Rightarrow> parseResult" where
  "parse_flags foreign args opts =
     (case parse_one foreign args opts of
        NextFlag opts' rest \<Rightarrow> parse_flags foreign rest opts'
      | NoFlag rest \<Rightarrow> Parsed opts rest
      | HelpFlag \<Rightarrow> HelpWanted
      | FlagError e \<Rightarrow> BadUsage e)"
  by pat_completeness auto

termination
  by (relation "measure (\<lambda>(foreign, args, opts). length args)") (auto dest: parse_one_rest)

declare parse_flags.simps [simp del]

subsection \<open>Every configuration can be given on the command line\<close>

definition bool_text :: "bool \<Rightarrow> string" where
  "bool_text b = (if b then ''true'' else ''false'')"

definition flag_arg :: "string \<Rightarrow> string \<Rightarrow> string" where
  "flag_arg name v = ''--'' @ name @ CHR ''='' # v"

definition flag_args :: "startOptions \<Rightarrow> string list" where
  "flag_args opts =
     [flag_arg ''metrics-bind-address'' (so_metricsAddr opts),
      flag_arg ''health-probe-bind-address'' (so_probeAddr opts),
      flag_arg ''leader-elect'' (bool_text (so_leaderElect opts)),
      flag_arg ''metrics-secure'' (bool_text (so_secureMetrics opts)),
      flag_arg ''webhook-cert-path'' (so_webhookCertPath opts),
      flag_arg ''webhook-cert-name'' (so_webhookCertName opts),
      flag_arg ''webhook-cert-key'' (so_webhookCertKey opts),
      flag_arg ''metrics-cert-path'' (so_metricsCertPath opts),
      flag_arg ''metrics-cert-name'' (so_metricsCertName opts),
      flag_arg ''metrics-cert-key'' (so_metricsCertKey opts),
      flag_arg ''enable-http2'' (bool_text (so_enableHTTP2 opts))]"

lemma parse_bool_text [simp]: "parse_bool (bool_text b) = Some b"
  by (simp add: parse_bool_def bool_text_def)

definition plain_name :: "string \<Rightarrow> bool" where
  "plain_name name \<longleftrightarrow> name \<noteq> [] \<and> hd name \<noteq> CHR ''-'' \<and> CHR ''='' \<notin> set name"

lemma plain_name_value:
  assumes "plain_name name"
  shows "flag_name (name @ CHR ''='' # v) = name" "flag_value (name @ CHR ''='' # v) = Some v"
proof -
  from assms have "\<forall>c \<in> set name. c \<noteq> CHR ''=''" by (auto simp: plain_name_def)
  then show "flag_name (name @ CHR ''='' # v) = name" "flag_value (name @ CHR ''='' # v) = Some v"
    by (simp_all add: flag_name_def flag_value_def takeWhile_append2 dropWhile_append2)
qed

lemma parse_flag_arg:
  assumes "plain_name name"
  shows "parse_flags foreign (flag_arg name v # args) opts =
    (case set_flag foreign name (Some v) args opts of
       NextFlag opts' rest \<Rightarrow> parse_flags foreign rest opts'
     | NoFlag rest \<Rightarrow> Parsed opts rest
     | HelpFlag \<Rightarrow> HelpWanted
     | FlagError e \<Rightarrow> BadUsage e)"
proof -
  from assms have "hd name \<noteq> CHR ''-''" "hd name \<noteq> CHR ''=''" "name \<noteq> []"
    by (cases name; auto simp: plain_name_def)+
  then have "parse_one foreign (flag_arg name v # args) opts = set_flag foreign name (Some v) args opts"
    using plain_name_value [OF assms] by (simp add: parse_one_def flag_arg_def Let_def)
  then show ?thesis by (simp add: parse_flags.simps [of foreign "flag_arg name v # args"])
qed

lemma parse_no_args: "parse_flags foreign [] opts = Parsed opts []"
  by (subst parse_flags.simps) (simp add: parse_one_def)

text \<open>
  C40. The command line reaches the program: for every choice of options there are arguments that the
  parser reads back as exactly these options, whatever flags other packages define and whatever the
  options were before.
\<close>

theorem options_roundtrip:
  "parse_flags foreign (flag_args opts) opts0 = Parsed opts []"
  by (simp add: flag_args_def parse_flag_arg plain_name_def set_flag_def declared_flags_def
      with_argument_def parse_no_args)

text \<open>Without arguments the defaults stand; a flag without its value is an error.\<close>

lemma defaults_stand: "parse_flags foreign [] default_options = Parsed default_options []"
  by (rule parse_no_args)

lemma missing_argument:
  "parse_flags foreign [''-webhook-cert-path''] default_options = BadUsage (NeedsArgument ''webhook-cert-path'')"
  by (subst parse_flags.simps) (simp add: parse_one_def Let_def flag_name_def flag_value_def set_flag_def
      declared_flags_def with_argument_def)

end
