(* ===== verification/Startup.thy ===== *)
theory Startup
  imports CommandLine Controller
begin

text \<open>
  \<^verbatim>\<open>cmd/main.go\<close> and \<^verbatim>\<open>SetupWithManager\<close>: from the package initialisers to the running manager.
  What the program asks of its libraries on the way is a \<open>hostCall\<close>, answered by the parameter
  \<open>host\<close>; an error ends the program with exit code 1. Logging is left out.
\<close>

subsection \<open>TLS options\<close>

record certWatcher =
  cw_cert :: string
  cw_key :: string

record tlsConfig =
  tls_nextProtos :: "string list"
  tls_getCertificate :: "certWatcher option"

text \<open>The functions on a \<^verbatim>\<open>tls.Config\<close> that the program makes; a server applies its list in order.\<close>

datatype tlsOption = DisableHTTP2 | GetCertificateFrom certWatcher

fun apply_tls_option :: "tlsOption \<Rightarrow> tlsConfig \<Rightarrow> tlsConfig" where
  "apply_tls_option DisableHTTP2 c = c\<lparr>tls_nextProtos := [''http/1.1'']\<rparr>"
| "apply_tls_option (GetCertificateFrom w) c = c\<lparr>tls_getCertificate := Some w\<rparr>"

subsection \<open>What the manager is given\<close>

record metricsOptions =
  mx_bindAddress :: string
  mx_secureServing :: bool
  mx_authentication :: bool
  mx_tlsOpts :: "tlsOption list"

record managerOptions =
  mo_metrics :: metricsOptions
  mo_webhookTLSOpts :: "tlsOption list"
  mo_probeAddr :: string
  mo_leaderElection :: bool
  mo_leaderElectionID :: string
  mo_namespaces :: "string list"

datatype hostCall =
  NewCertWatcher certWatcher
| GetConfig
| NewManager managerOptions
| CompleteController "(string \<times> string) list"
| AddToManager certWatcher
| AddHealthzCheck string
| AddReadyzCheck string
| StartManager

record 'w host =
  h_call :: "hostCall \<Rightarrow> 'w \<Rightarrow> goerror option \<times> 'w"
  h_discovery :: "'w \<Rightarrow> (goerror + (goerror + string)) \<times> 'w"
  h_addToScheme :: "string \<Rightarrow> goerror option"
  h_namespace_env :: string
  h_stat :: "string \<Rightarrow> statAnswer"
  h_readFile :: "string \<Rightarrow> goerror + string"
  h_foreign_flags :: foreign_flags

datatype outcome = Exited nat | Panicked string

subsection \<open>The initialisers of the packages\<close>

record operatorGlobals =
  og_namespace :: string
  og_builders :: "builder_id registry"
  og_reconcilers :: "reconciler_id registry"

text \<open>\<^verbatim>\<open>utilruntime.Must\<close> panics at the first group that the scheme rejects.\<close>

definition scheme_groups :: "string list" where
  "scheme_groups = [''client-go'', ''apps/v1'', ''v1'', ''policy/v1'', ''networking/v1'', ''infini.cloud/v1'']"

fun must_all :: "(string \<Rightarrow> goerror option) \<Rightarrow> string list \<Rightarrow> string option" where
  "must_all add [] = None"
| "must_all add (g # gs) = (case add g of Some e \<Rightarrow> Some (err_msg e) | None \<Rightarrow> must_all add gs)"

text \<open>
  Go runs the initialisers of imported packages first: \<^verbatim>\<open>common\<close>, the registry, the two strategies,
  then \<^verbatim>\<open>main\<close>.
\<close>

definition program_init :: "'w host \<Rightarrow> string + operatorGlobals" where
  "program_init h =
     (let ns = initial_namespace (h_namespace_env h) (h_stat h) (h_readFile h) in
      case register_runtime_builder Map.empty of
        Inl msg \<Rightarrow> Inl msg
      | Inr builders \<Rightarrow>
          (case register_runtime_reconciler Map.empty of
             Inl msg \<Rightarrow> Inl msg
           | Inr reconcilers \<Rightarrow>
               (case must_all (h_addToScheme h) scheme_groups of
                  Some msg \<Rightarrow> Inl msg
                | None \<Rightarrow> Inr \<lparr>og_namespace = ns, og_builders = builders, og_reconcilers = reconcilers\<rparr>)))"

subsection \<open>The main function\<close>

text \<open>\<^verbatim>\<open>if err := \<dots>; err != nil { os.Exit(1) }\<close>, and what comes after it.\<close>

definition attempt ::
    "'w host \<Rightarrow> hostCall \<Rightarrow> ('w \<Rightarrow> outcome \<times> 'w) \<Rightarrow> 'w \<Rightarrow> outcome \<times> 'w" where
  "attempt h c rest w =
     (case h_call h c w of (Some e, w') \<Rightarrow> (Exited 1, w') | (None, w') \<Rightarrow> rest w')"

definition cert_watcher :: "string \<Rightarrow> string \<Rightarrow> string \<Rightarrow> certWatcher" where
  "cert_watcher dir cert key = \<lparr>cw_cert = path_join dir cert, cw_key = path_join dir key\<rparr>"

definition make_watcher ::
    "'w host \<Rightarrow> string \<Rightarrow> string \<Rightarrow> string \<Rightarrow> (certWatcher option \<Rightarrow> 'w \<Rightarrow> outcome \<times> 'w)
      \<Rightarrow> 'w \<Rightarrow> outcome \<times> 'w" where
  "make_watcher h dir cert key rest w =
     (if length dir > 0
      then attempt h (NewCertWatcher (cert_watcher dir cert key))
             (rest (Some (cert_watcher dir cert key))) w
      else rest None w)"

definition base_tls_opts :: "startOptions \<Rightarrow> tlsOption list" where
  "base_tls_opts opts = (if \<not> so_enableHTTP2 opts then [DisableHTTP2] else [])"

definition watcher_opts :: "certWatcher option \<Rightarrow> tlsOption list" where
  "watcher_opts watcher = (case watcher of None \<Rightarrow> [] | Some w \<Rightarrow> [GetCertificateFrom w])"

definition webhook_tls_opts :: "startOptions \<Rightarrow> certWatcher option \<Rightarrow> tlsOption list" where
  "webhook_tls_opts opts watcher = base_tls_opts opts @ watcher_opts watcher"

definition metrics_options :: "startOptions \<Rightarrow> certWatcher option \<Rightarrow> metricsOptions" where
  "metrics_options opts watcher =
     \<lparr>mx_bindAddress = so_metricsAddr opts, mx_secureServing = so_secureMetrics opts,
      mx_authentication = so_secureMetrics opts, mx_tlsOpts = base_tls_opts opts @ watcher_opts watcher\<rparr>"

definition manager_options ::
    "operatorGlobals \<Rightarrow> startOptions \<Rightarrow> certWatcher option \<Rightarrow> certWatcher option \<Rightarrow> managerOptions" where
  "manager_options g opts webhookWatcher metricsWatcher =
     \<lparr>mo_metrics = metrics_options opts metricsWatcher,
      mo_webhookTLSOpts = webhook_tls_opts opts webhookWatcher,
      mo_probeAddr = so_probeAddr opts, mo_leaderElection = so_leaderElect opts,
      mo_leaderElectionID = ''56afa202.infini.cloud'', mo_namespaces = [og_namespace g]\<rparr>"

definition SetupWithManager :: "'w host \<Rightarrow> bool \<Rightarrow> ('w \<Rightarrow> outcome \<times> 'w) \<Rightarrow> 'w \<Rightarrow> outcome \<times> 'w" where
  "SetupWithManager h isV1Supported = attempt h (CompleteController (owned_types isV1Supported))"

definition add_watcher ::
    "'w host \<Rightarrow> certWatcher option \<Rightarrow> ('w \<Rightarrow> outcome \<times> 'w) \<Rightarrow> 'w \<Rightarrow> outcome \<times> 'w" where
  "add_watcher h watcher rest =
     (case watcher of None \<Rightarrow> rest | Some cw \<Rightarrow> attempt h (AddToManager cw) rest)"

definition run_manager ::
    "'w host \<Rightarrow> bool \<Rightarrow> certWatcher option \<Rightarrow> certWatcher option \<Rightarrow> 'w \<Rightarrow> outcome \<times> 'w" where
  "run_manager h isV1Supported webhookWatcher metricsWatcher =
     SetupWithManager h isV1Supported
       (add_watcher h metricsWatcher
         (add_watcher h webhookWatcher
           (attempt h (AddHealthzCheck ''healthz'')
             (attempt h (AddReadyzCheck ''readyz'')
               (attempt h StartManager (\<lambda>w. (Exited 0, w)))))))"

definition start_manager ::
    "'w host \<Rightarrow> operatorGlobals \<Rightarrow> startOptions \<Rightarrow> certWatcher option \<Rightarrow> certWatcher option
      \<Rightarrow> 'w \<Rightarrow> outcome \<times> 'w" where
  "start_manager h g opts webhookWatcher metricsWatcher =
     attempt h GetConfig
       (attempt h (NewManager (manager_options g opts webhookWatcher metricsWatcher))
         (\<lambda>w. case h_discovery h w of
             (answer, w') \<Rightarrow>
               (case SetK8sVersionGreaterOrEqual answer 1 21 of
                  Inl msg \<Rightarrow> (Panicked msg, w')
                | Inr isV1Supported \<Rightarrow> run_manager h isV1Supported webhookWatcher metricsWatcher w')))"

definition main_with :: "'w host \<Rightarrow> operatorGlobals \<Rightarrow> startOptions \<Rightarrow> 'w \<Rightarrow> outcome \<times> 'w" where
  "main_with h g opts =
     make_watcher h (so_webhookCertPath opts) (so_webhookCertName opts) (so_webhookCertKey opts)
       (\<lambda>webhookWatcher.
         make_watcher h (so_metricsCertPath opts) (so_metricsCertName opts) (so_metricsCertKey opts)
           (\<lambda>metricsWatcher. start_manager h g opts webhookWatcher metricsWatcher))"

text \<open>\<^verbatim>\<open>flag.Parse\<close> exits with 0 when help is asked for, and with 2 on bad usage.\<close>

definition operator_main :: "'w host \<Rightarrow> string list \<Rightarrow> 'w \<Rightarrow> outcome \<times> 'w" where
  "operator_main h args w =
     (case program_init h of
        Inl msg \<Rightarrow> (Panicked msg, w)
      | Inr g \<Rightarrow>
          (case parse_flags (h_foreign_flags h) args default_options of
             HelpWanted \<Rightarrow> (Exited 0, w)
           | BadUsage e \<Rightarrow> (Exited 2, w)
           | Parsed opts _ \<Rightarrow> main_with h g opts w))"

subsection \<open>What the initialisers leave\<close>

lemma program_init_eq:
  "program_init h =
     (case must_all (h_addToScheme h) scheme_groups of
        Some msg \<Rightarrow> Inl msg
      | None \<Rightarrow> Inr \<lparr>og_namespace = initial_namespace (h_namespace_env h) (h_stat h) (h_readFile h),
          og_builders = [''operator'' \<mapsto> RuntimeBuilderStrategy],
          og_reconcilers = [''runtime'' \<mapsto> RuntimeReconcileStrategy]\<rparr>)"
  by (simp add: program_init_def register_runtime_builder_def register_runtime_reconciler_def
      RegisterAppBuilderStrategy_def RegisterAppReconcileStrategy_def Let_def)

text \<open>The controller asks for the builder of the type \<open>operator\<close>: a started program has it.\<close>

lemma started_has_builder:
  "program_init h = Inr g \<Longrightarrow> GetAppBuilderStrategy (og_builders g) ''operator'' = Some RuntimeBuilderStrategy"
  by (auto simp: program_init_eq GetAppBuilderStrategy_def split: option.splits)

subsection \<open>The order of the start-up\<close>

text \<open>
  The plan: the calls of a start-up in which nothing fails. \<open>scripted\<close> is a host whose state is the
  list of the calls made so far, and whose answers are given by \<open>fails\<close>.
\<close>

definition planned_watcher :: "string \<Rightarrow> string \<Rightarrow> string \<Rightarrow> certWatcher option" where
  "planned_watcher dir cert key = (if dir = [] then None else Some (cert_watcher dir cert key))"

definition watcher_calls :: "(certWatcher \<Rightarrow> hostCall) \<Rightarrow> certWatcher option \<Rightarrow> hostCall list" where
  "watcher_calls call watcher = (case watcher of None \<Rightarrow> [] | Some cw \<Rightarrow> [call cw])"

definition startup_plan :: "operatorGlobals \<Rightarrow> startOptions \<Rightarrow> bool \<Rightarrow> hostCall list" where
  "startup_plan g opts isV1Supported =
     (let webhook = planned_watcher (so_webhookCertPath opts) (so_webhookCertName opts) (so_webhookCertKey opts);
          metrics = planned_watcher (so_metricsCertPath opts) (so_metricsCertName opts) (so_metricsCertKey opts)
      in watcher_calls NewCertWatcher webhook @ watcher_calls NewCertWatcher metrics
         @ [GetConfig, NewManager (manager_options g opts webhook metrics),
            CompleteController (owned_types isV1Supported)]
         @ watcher_calls AddToManager metrics @ watcher_calls AddToManager webhook
         @ [AddHealthzCheck ''healthz'', AddReadyzCheck ''readyz'', StartManager])"

definition scripted ::
    "(hostCall \<Rightarrow> goerror option) \<Rightarrow> goerror + (goerror + string) \<Rightarrow> hostCall list host \<Rightarrow> hostCall list host" where
  "scripted fails answer h =
     h\<lparr>h_call := (\<lambda>c calls. (fails c, calls @ [c])), h_discovery := (\<lambda>calls. (answer, calls))\<rparr>"

fun until_failure :: "(hostCall \<Rightarrow> goerror option) \<Rightarrow> hostCall list \<Rightarrow> hostCall list" where
  "until_failure fails [] = []"
| "until_failure fails (c # cs) = c # (if fails c = None then until_failure fails cs else [])"

definition carries_out ::
    "(hostCall \<Rightarrow> goerror option) \<Rightarrow> (hostCall list \<Rightarrow> outcome \<times> hostCall list) \<Rightarrow> hostCall list \<Rightarrow> bool" where
  "carries_out fails run plan \<longleftrightarrow>
     (\<forall>calls. run calls = (Exited (if \<forall>c \<in> set plan. fails c = None then 0 else 1),
        calls @ until_failure fails plan))"

named_theorems plan_steps \<open>how a program that carries out a plan is put together\<close>

lemma carries_out_attempt [plan_steps]:
  "carries_out fails rest plan \<Longrightarrow> carries_out fails (attempt (scripted fails answer h) c rest) (c # plan)"
  by (auto simp: carries_out_def attempt_def scripted_def split: option.splits)

lemma carries_out_done [plan_steps]: "carries_out fails (\<lambda>w. (Exited 0, w)) []"
  by (simp add: carries_out_def)

lemma carries_out_add [plan_steps]:
  "carries_out fails rest plan \<Longrightarrow>
    carries_out fails (add_watcher (scripted fails answer h) watcher rest) (watcher_calls AddToManager watcher @ plan)"
  by (cases watcher) (simp_all add: add_watcher_def watcher_calls_def carries_out_attempt)

lemma carries_out_make [plan_steps]:
  "carries_out fails (rest (planned_watcher dir cert key)) plan \<Longrightarrow>
    carries_out fails (make_watcher (scripted fails answer h) dir cert key rest)
      (watcher_calls NewCertWatcher (planned_watcher dir cert key) @ plan)"
proof (cases "dir = []")
  case True
  moreover have "make_watcher (scripted fails answer h) [] cert key rest = rest None"
    by (rule ext) (simp add: make_watcher_def)
  moreover assume "carries_out fails (rest (planned_watcher dir cert key)) plan"
  ultimately show ?thesis by (simp add: planned_watcher_def watcher_calls_def)
next
  case False
  then have "make_watcher (scripted fails answer h) dir cert key rest =
      attempt (scripted fails answer h) (NewCertWatcher (cert_watcher dir cert key))
        (rest (Some (cert_watcher dir cert key)))"
    by (intro ext) (simp add: make_watcher_def)
  moreover assume "carries_out fails (rest (planned_watcher dir cert key)) plan"
  ultimately show ?thesis using False
    by (simp add: planned_watcher_def watcher_calls_def carries_out_attempt)
qed

lemma run_manager_plan:
  "carries_out fails (run_manager (scripted fails answer h) v1 webhook metrics)
     (CompleteController (owned_types v1) # watcher_calls AddToManager metrics
       @ watcher_calls AddToManager webhook
       @ [AddHealthzCheck ''healthz'', AddReadyzCheck ''readyz'', StartManager])"
  unfolding run_manager_def SetupWithManager_def by (intro plan_steps)

lemma version_known:
  assumes "SetK8sVersionGreaterOrEqual answer 1 21 = Inr v1"
  shows "(\<lambda>w. case h_discovery (scripted fails answer h) w of
      (d, w') \<Rightarrow> (case SetK8sVersionGreaterOrEqual d 1 21 of
          Inl msg \<Rightarrow> (Panicked msg, w') | Inr v \<Rightarrow> run v w')) = run v1"
  by (rule ext) (simp add: scripted_def assms)

text \<open>
  C38. The start-up makes its calls in the order of the plan and stops at the first that fails: it ends
  with exit code 1 exactly when one of the planned calls fails, and then makes no further call; the
  manager is started last, with the controller, the certificate watchers and the probes in place.
\<close>

theorem startup_follows_plan:
  assumes "SetK8sVersionGreaterOrEqual answer 1 21 = Inr v1"
  shows "main_with (scripted fails answer h) g opts [] =
    (Exited (if \<forall>c \<in> set (startup_plan g opts v1). fails c = None then 0 else 1),
     until_failure fails (startup_plan g opts v1))"
proof -
  have "carries_out fails (main_with (scripted fails answer h) g opts) (startup_plan g opts v1)"
    unfolding main_with_def start_manager_def version_known [OF assms] startup_plan_def Let_def
      append_Cons append_Nil
    by (intro carries_out_make carries_out_attempt run_manager_plan)
  then show ?thesis by (simp add: carries_out_def)
qed

theorem startup_follows_plan_witness:
  "\<forall>h. main_with (scripted (\<lambda>c. if c = AddReadyzCheck ''readyz'' then Some (errorf ''taken'') else None)
      (Inr (Inr ''v1.28.3'')) h) \<lparr>og_namespace = ''default'', og_builders = Map.empty, og_reconcilers = Map.empty\<rparr>
      default_options [] =
    (Exited 1, until_failure (\<lambda>c. if c = AddReadyzCheck ''readyz'' then Some (errorf ''taken'') else None)
      (startup_plan \<lparr>og_namespace = ''default'', og_builders = Map.empty, og_reconcilers = Map.empty\<rparr>
        default_options True))"
proof -
  have v: "SetK8sVersionGreaterOrEqual (Inr (Inr ''v1.28.3'')) 1 21 = Inr True" by code_simp
  show ?thesis
    by (rule allI, subst startup_follows_plan [OF v]) (simp add: startup_plan_def Let_def)
qed

subsection \<open>TLS\<close>

lemma apply_base_tls_opts:
  "fold apply_tls_option (base_tls_opts opts) c =
     (if so_enableHTTP2 opts then c else c\<lparr>tls_nextProtos := [''http/1.1'']\<rparr>)"
  by (simp add: base_tls_opts_def)

lemma apply_watcher_opts:
  "fold apply_tls_option (watcher_opts watcher) c =
     (case watcher of None \<Rightarrow> c | Some w \<Rightarrow> c\<lparr>tls_getCertificate := Some w\<rparr>)"
  by (simp add: watcher_opts_def split: option.splits)

text \<open>
  C39. HTTP/2 is off at both servers unless it was asked for, whatever the configuration they start
  from, and each server takes its certificate from its own watcher only.
\<close>

theorem servers_are_configured_apart:
  "fold apply_tls_option (mo_webhookTLSOpts (manager_options g opts webhook metrics)) c =
     \<lparr>tls_nextProtos = (if so_enableHTTP2 opts then tls_nextProtos c else [''http/1.1'']),
      tls_getCertificate = (case webhook of None \<Rightarrow> tls_getCertificate c | Some w \<Rightarrow> Some w)\<rparr> \<and>
   fold apply_tls_option (mx_tlsOpts (mo_metrics (manager_options g opts webhook metrics))) c =
     \<lparr>tls_nextProtos = (if so_enableHTTP2 opts then tls_nextProtos c else [''http/1.1'']),
      tls_getCertificate = (case metrics of None \<Rightarrow> tls_getCertificate c | Some w \<Rightarrow> Some w)\<rparr>"
  by (cases c) (auto simp: manager_options_def metrics_options_def webhook_tls_opts_def apply_base_tls_opts apply_watcher_opts split: option.splits)

end
