(* ===== verification/Memory.thy ===== *)
theory Memory
  imports Prelude
begin

text \<open>
  An explicit memory for the deep copies, and the contract of a deep copy. The other theories treat the
  objects of the program as values; the code holds them in memory, where two slices, maps or pointers
  may share what they refer to. A struct in memory holds addresses for its slices, maps and pointers.
\<close>

subsection \<open>Memory\<close>

text \<open>
  An address is an index into the list of cells; \<open>'c\<close> is what a cell can hold. Addresses are given out in
  order, and memory is never given back.
\<close>

type_synonym addr = nat
type_synonym 'c memory = "'c list"

text \<open>
  A value of a type of the Kubernetes libraries: what it holds by value, and the addresses of what it
  refers to.
\<close>

record libMem =
  lm_plain :: string
  lm_refs :: "addr list"

subsection \<open>Copies of slices, maps and pointers\<close>

text \<open>A value without addresses is copied by assignment.\<close>

definition copy_plain :: "'a \<Rightarrow> 'c memory \<Rightarrow> 'a \<times> 'c memory" where
  "copy_plain x m = (x, m)"

fun copy_list :: "('a \<Rightarrow> 'c memory \<Rightarrow> 'a \<times> 'c memory) \<Rightarrow> 'a list \<Rightarrow> 'c memory \<Rightarrow> 'a list \<times> 'c memory" where
  "copy_list copy [] m = ([], m)"
| "copy_list copy (x # xs) m =
     (case copy x m of (x', m1) \<Rightarrow> (case copy_list copy xs m1 of (xs', m2) \<Rightarrow> (x' # xs', m2)))"

text \<open>
  Nil stays nil; otherwise a new cell gets the copy of what the old one holds. (The code allocates the
  cell before it fills it; only the order of the addresses differs.)
\<close>

definition copy_ref ::
    "('c \<Rightarrow> 'a) \<Rightarrow> ('a \<Rightarrow> 'c) \<Rightarrow> ('a \<Rightarrow> 'c memory \<Rightarrow> 'a \<times> 'c memory) \<Rightarrow> addr option \<Rightarrow> 'c memory
      \<Rightarrow> addr option \<times> 'c memory" where
  "copy_ref get put copy p m =
     (case p of
        None \<Rightarrow> (None, m)
      | Some a \<Rightarrow> (case copy (get (m ! a)) m of (x, m1) \<Rightarrow> (Some (length m1), m1 @ [put x])))"

subsection \<open>The contract of a deep copy\<close>

text \<open>
  \<open>view m x\<close> is what \<open>x\<close> looks like in memory \<open>m\<close>, with the addresses replaced by what they hold, and
  \<open>reach m x\<close> the addresses it leads to. A deep copy only adds to the memory, looks the same, and
  leads to new addresses only.
\<close>

definition ref_view :: "('c \<Rightarrow> 'a) \<Rightarrow> ('c memory \<Rightarrow> 'a \<Rightarrow> 'v) \<Rightarrow> 'c memory \<Rightarrow> addr option \<Rightarrow> 'v option" where
  "ref_view get view m p = map_option (\<lambda>a. view m (get (m ! a))) p"

definition ref_reach :: "('c \<Rightarrow> 'a) \<Rightarrow> ('c memory \<Rightarrow> 'a \<Rightarrow> addr set) \<Rightarrow> 'c memory \<Rightarrow> addr option \<Rightarrow> addr set" where
  "ref_reach get reach m p = (case p of None \<Rightarrow> {} | Some a \<Rightarrow> insert a (reach m (get (m ! a))))"

definition list_reach_of :: "('c memory \<Rightarrow> 'a \<Rightarrow> addr set) \<Rightarrow> 'c memory \<Rightarrow> 'a list \<Rightarrow> addr set" where
  "list_reach_of reach m xs = (\<Union>x \<in> set xs. reach m x)"

locale deep_copy =
  fixes copy :: "'a \<Rightarrow> 'c memory \<Rightarrow> 'a \<times> 'c memory"
    and view :: "'c memory \<Rightarrow> 'a \<Rightarrow> 'v"
    and reach :: "'c memory \<Rightarrow> 'a \<Rightarrow> addr set"
  assumes local: "(\<And>a. a \<in> reach m x \<Longrightarrow> m' ! a = m ! a) \<Longrightarrow> view m' x = view m x \<and> reach m' x = reach m x"
    and copied: "reach m x \<subseteq> {..<length m} \<Longrightarrow> copy x m = (x', m') \<Longrightarrow>
      (\<exists>new. m' = m @ new) \<and> view m' x' = view m x \<and> reach m' x' \<subseteq> {length m..<length m'}"
begin

lemma grown:
  assumes "reach m x \<subseteq> {..<length m}"
  shows "view (m @ new) x = view m x \<and> reach (m @ new) x = reach m x"
  by (rule local) (use assms in \<open>auto simp: nth_append\<close>)

text \<open>The copy and the original do not see what is written to the memory of the other.\<close>

lemma copy_apart:
  assumes "reach m x \<subseteq> {..<length m}" "copy x m = (x', m')"
    and "\<forall>a. length m \<le> a \<longrightarrow> a < length m' \<longrightarrow> m'' ! a = m' ! a"
  shows "view m'' x' = view m x"
proof -
  note c = copied [OF assms(1,2)]
  then have "view m'' x' = view m' x' \<and> reach m'' x' = reach m' x'"
    by (intro local) (use assms(3) in auto)
  with c show ?thesis by simp
qed

lemma original_apart:
  assumes "reach m x \<subseteq> {..<length m}" "\<forall>a < length m. m'' ! a = m ! a"
  shows "view m'' x = view m x"
  using local [of m x m''] assms by auto

lemma apart:
  assumes "reach m x \<subseteq> {..<length m}" "copy x m = (x', m')"
  shows "(\<forall>m''. (\<forall>a. length m \<le> a \<longrightarrow> a < length m' \<longrightarrow> m'' ! a = m' ! a) \<longrightarrow> view m'' x' = view m x) \<and>
    (\<forall>m''. (\<forall>a < length m. m'' ! a = m' ! a) \<longrightarrow> view m'' x = view m x)"
proof -
  from copied [OF assms] obtain new where "m' = m @ new" by blast
  then have "\<forall>a < length m. m' ! a = m ! a" by (simp add: nth_append)
  with copy_apart [OF assms] original_apart [OF assms(1)] show ?thesis by (metis (no_types, lifting))
qed

text \<open>Slices, and pointers to cells.\<close>

lemma lists: "deep_copy (copy_list copy) (\<lambda>m. map (view m)) (list_reach_of reach)"
  unfolding list_reach_of_def
proof
  fix m m' :: "'c memory" and xs
  assume "\<And>a. a \<in> (\<Union>x \<in> set xs. reach m x) \<Longrightarrow> m' ! a = m ! a"
  then have "view m' x = view m x \<and> reach m' x = reach m x" if "x \<in> set xs" for x
    using that by (intro local) blast
  then show "map (view m') xs = map (view m) xs \<and> (\<Union>x \<in> set xs. reach m' x) = (\<Union>x \<in> set xs. reach m x)"
    by simp
next
  fix m m' xs xs'
  show "(\<Union>x \<in> set xs. reach m x) \<subseteq> {..<length m} \<Longrightarrow> copy_list copy xs m = (xs', m') \<Longrightarrow>
    (\<exists>new. m' = m @ new) \<and> map (view m') xs' = map (view m) xs \<and>
    (\<Union>x \<in> set xs'. reach m' x) \<subseteq> {length m..<length m'}"
  proof (induction xs arbitrary: m xs')
    case (Cons x xs)
    obtain x1 m1 where one: "copy x m = (x1, m1)" by fastforce
    with Cons.prems(2) obtain xs1 where rest: "copy_list copy xs m1 = (xs1, m')" and out: "xs' = x1 # xs1"
      by (auto split: prod.splits)
    from copied [OF _ one] Cons.prems(1) obtain new where c: "m1 = m @ new" "view m1 x1 = view m x"
      "reach m1 x1 \<subseteq> {length m..<length m1}" by auto
    have same: "view m1 y = view m y \<and> reach m1 y = reach m y" if "y \<in> set xs" for y
      unfolding c(1) using Cons.prems(1) that by (intro grown) auto
    with Cons.prems(1) c(1) have "(\<Union>x \<in> set xs. reach m1 x) \<subseteq> {..<length m1}" by auto
    from Cons.IH [OF this rest] obtain new' where r: "m' = m1 @ new'"
      "map (view m') xs1 = map (view m1) xs" "(\<Union>x \<in> set xs1. reach m' x) \<subseteq> {length m1..<length m'}"
      by auto
    have "view m' x1 = view m1 x1 \<and> reach m' x1 = reach m1 x1"
      unfolding r(1) using c(3) by (intro grown) auto
    with r c out same show ?case by (auto simp: subset_iff)
  qed simp
qed

lemma refs:
  assumes "\<And>x. get (put x) = x"
  shows "deep_copy (copy_ref get put copy) (ref_view get view) (ref_reach get reach)"
  unfolding ref_view_def ref_reach_def
proof
  fix m m' :: "'c memory" and p
  assume h: "\<And>a. a \<in> (case p of None \<Rightarrow> {} | Some a \<Rightarrow> insert a (reach m (get (m ! a)))) \<Longrightarrow> m' ! a = m ! a"
  show "map_option (\<lambda>a. view m' (get (m' ! a))) p = map_option (\<lambda>a. view m (get (m ! a))) p \<and>
      (case p of None \<Rightarrow> {} | Some a \<Rightarrow> insert a (reach m' (get (m' ! a)))) =
      (case p of None \<Rightarrow> {} | Some a \<Rightarrow> insert a (reach m (get (m ! a))))"
  proof (cases p)
    case (Some a)
    with h have "m' ! a = m ! a" and "m' ! b = m ! b" if "b \<in> reach m (get (m ! a))" for b using that by auto
    moreover from this have "view m' (get (m ! a)) = view m (get (m ! a)) \<and>
        reach m' (get (m ! a)) = reach m (get (m ! a))"
      by (intro local)
    ultimately show ?thesis using Some h by auto
  qed simp
next
  fix m m' p p'
  assume inside: "(case p of None \<Rightarrow> {} | Some a \<Rightarrow> insert a (reach m (get (m ! a)))) \<subseteq> {..<length m}"
    and run: "copy_ref get put copy p m = (p', m')"
  show "(\<exists>new. m' = m @ new) \<and>
      map_option (\<lambda>a. view m' (get (m' ! a))) p' = map_option (\<lambda>a. view m (get (m ! a))) p \<and>
      (case p' of None \<Rightarrow> {} | Some a \<Rightarrow> insert a (reach m' (get (m' ! a)))) \<subseteq> {length m..<length m'}"
  proof (cases p)
    case None
    with run show ?thesis by (simp add: copy_ref_def)
  next
    case (Some a)
    obtain x m1 where one: "copy (get (m ! a)) m = (x, m1)" by fastforce
    with run Some have out: "p' = Some (length m1)" "m' = m1 @ [put x]" by (simp_all add: copy_ref_def)
    from copied [OF _ one] inside Some obtain new where c: "m1 = m @ new" "view m1 x = view m (get (m ! a))"
      "reach m1 x \<subseteq> {length m..<length m1}" by auto
    have "view m' x = view m1 x \<and> reach m' x = reach m1 x"
      unfolding out(2) using c(3) by (intro grown) auto
    with c out Some assms show ?thesis by auto
  qed
qed

text \<open>A struct whose parts are copied, the rest by assignment.\<close>

lemma structs:
  assumes "\<And>s x. parts (put s x) = x" "\<And>s x. plain (put s x) = plain s"
  shows "deep_copy (\<lambda>s m. case copy (parts s) m of (x, m') \<Rightarrow> (put s x, m'))
    (\<lambda>m s. (plain s, view m (parts s))) (\<lambda>m s. reach m (parts s))"
proof
  fix m m' :: "'c memory" and s
  assume "\<And>a. a \<in> reach m (parts s) \<Longrightarrow> m' ! a = m ! a"
  then have "view m' (parts s) = view m (parts s) \<and> reach m' (parts s) = reach m (parts s)" by (rule local)
  then show "(plain s, view m' (parts s)) = (plain s, view m (parts s)) \<and>
      reach m' (parts s) = reach m (parts s)" by simp
next
  fix m m' s s'
  assume inside: "reach m (parts s) \<subseteq> {..<length m}"
    and run: "(case copy (parts s) m of (x, m') \<Rightarrow> (put s x, m')) = (s', m')"
  obtain x m1 where one: "copy (parts s) m = (x, m1)" by fastforce
  with run copied [OF inside one] assms show "(\<exists>new. m' = m @ new) \<and>
      (plain s', view m' (parts s')) = (plain s, view m (parts s)) \<and>
      reach m' (parts s') \<subseteq> {length m..<length m'}" by auto
qed

end

text \<open>Two parts, one after the other.\<close>

lemma deep_copy_pair:
  assumes "deep_copy copy1 view1 reach1" "deep_copy copy2 view2 reach2"
  shows "deep_copy (\<lambda>(x, y) m. case copy1 x m of (x', m1) \<Rightarrow> (case copy2 y m1 of (y', m2) \<Rightarrow> ((x', y'), m2)))
    (\<lambda>m (x, y). (view1 m x, view2 m y)) (\<lambda>m (x, y). reach1 m x \<union> reach2 m y)"
proof
  fix m m' p
  assume "\<And>a. a \<in> (case p of (x, y) \<Rightarrow> reach1 m x \<union> reach2 m y) \<Longrightarrow> m' ! a = m ! a"
  then show "(case p of (x, y) \<Rightarrow> (view1 m' x, view2 m' y)) = (case p of (x, y) \<Rightarrow> (view1 m x, view2 m y)) \<and>
      (case p of (x, y) \<Rightarrow> reach1 m' x \<union> reach2 m' y) = (case p of (x, y) \<Rightarrow> reach1 m x \<union> reach2 m y)"
    using deep_copy.local [OF assms(1), of m "fst p" m'] deep_copy.local [OF assms(2), of m "snd p" m']
    by (cases p) auto
next
  fix m m' p p'
  assume inside: "(case p of (x, y) \<Rightarrow> reach1 m x \<union> reach2 m y) \<subseteq> {..<length m}"
    and run: "(case p of (x, y) \<Rightarrow> (\<lambda>m. case copy1 x m of (x', m1) \<Rightarrow>
      (case copy2 y m1 of (y', m2) \<Rightarrow> ((x', y'), m2)))) m = (p', m')"
  obtain x y where p: "p = (x, y)" by fastforce
  obtain x1 m1 where one: "copy1 x m = (x1, m1)" by fastforce
  obtain y1 m2 where two: "copy2 y m1 = (y1, m2)" by fastforce
  from run p one two have out: "p' = (x1, y1)" "m' = m2" by simp_all
  from deep_copy.copied [OF assms(1) _ one] inside p obtain new where c1: "m1 = m @ new"
    "view1 m1 x1 = view1 m x" "reach1 m1 x1 \<subseteq> {length m..<length m1}" by auto
  have y: "view2 m1 y = view2 m y \<and> reach2 m1 y = reach2 m y"
    unfolding c1(1) using inside p by (intro deep_copy.grown [OF assms(2)]) auto
  with inside p c1(1) have "reach2 m1 y \<subseteq> {..<length m1}" by auto
  from deep_copy.copied [OF assms(2) this two] out(2) obtain new' where c2: "m' = m1 @ new'"
    "view2 m' y1 = view2 m1 y" "reach2 m' y1 \<subseteq> {length m1..<length m'}" by auto
  have "view1 m' x1 = view1 m1 x1 \<and> reach1 m' x1 = reach1 m1 x1"
    unfolding c2(1) using c1(3) by (intro deep_copy.grown [OF assms(1)]) auto
  with c1 c2 y out p show "(\<exists>new. m' = m @ new) \<and>
      (case p' of (x, y) \<Rightarrow> (view1 m' x, view2 m' y)) = (case p of (x, y) \<Rightarrow> (view1 m x, view2 m y)) \<and>
      (case p' of (x, y) \<Rightarrow> reach1 m' x \<union> reach2 m' y) \<subseteq> {length m..<length m'}"
    by auto
qed

subsection \<open>Values and library types\<close>

definition lib_view :: "('c \<Rightarrow> string) \<Rightarrow> 'c memory \<Rightarrow> libMem \<Rightarrow> string \<times> string list" where
  "lib_view get m x = (lm_plain x, map (\<lambda>a. get (m ! a)) (lm_refs x))"

definition lib_reach :: "'c memory \<Rightarrow> libMem \<Rightarrow> addr set" where
  "lib_reach m x = set (lm_refs x)"

abbreviation no_refs :: "'c memory \<Rightarrow> 'a \<Rightarrow> addr set" where
  "no_refs m x \<equiv> {}"

abbreviation itself :: "'c memory \<Rightarrow> 'a \<Rightarrow> 'a" where
  "itself m x \<equiv> x"

interpretation plain: deep_copy copy_plain itself no_refs
  by unfold_locales (auto simp: copy_plain_def)

lemma case_case_prod:
  "(case (case p of (a, b) \<Rightarrow> f a b) of (u, v) \<Rightarrow> g u v) = (case p of (a, b) \<Rightarrow> case f a b of (u, v) \<Rightarrow> g u v)"
  by (simp add: split_def)

text \<open>A library that keeps the contract: it copies what each address holds.\<close>

definition copy_lib_cell :: "('c \<Rightarrow> string) \<Rightarrow> (string \<Rightarrow> 'c) \<Rightarrow> addr \<Rightarrow> 'c memory \<Rightarrow> addr \<times> 'c memory" where
  "copy_lib_cell get put a m = (length m, m @ [put (get (m ! a))])"

definition copy_lib_value :: "('c \<Rightarrow> string) \<Rightarrow> (string \<Rightarrow> 'c) \<Rightarrow> libMem \<Rightarrow> 'c memory \<Rightarrow> libMem \<times> 'c memory" where
  "copy_lib_value get put x m =
     (case copy_list (copy_lib_cell get put) (lm_refs x) m of (refs, m1) \<Rightarrow> (x\<lparr>lm_refs := refs\<rparr>, m1))"

lemma copy_lib_value_deep:
  assumes "\<And>x. get (put x) = x"
  shows "deep_copy (copy_lib_value get put) (lib_view get) lib_reach"
proof -
  have "deep_copy (copy_lib_cell get put) (\<lambda>m a. get (m ! a)) (\<lambda>m a. {a})"
    by unfold_locales (auto simp: copy_lib_cell_def assms)
  from deep_copy.structs [OF deep_copy.lists [OF this], of lm_refs "\<lambda>x refs. x\<lparr>lm_refs := refs\<rparr>" lm_plain]
  show ?thesis
    by (simp add: copy_lib_value_def [abs_def] lib_view_def [abs_def] lib_reach_def [abs_def] list_reach_of_def)
qed

end
