(* ===== verification/DeepCopies.thy ===== *)
theory DeepCopies
  imports AppTypes Memory
begin

text \<open>
  The deep copies of \<^verbatim>\<open>api/app/v1/zz_generated.deepcopy.go\<close>, on the explicit memory of theory Memory.
  The code takes a deep copy of a status before it changes the status in place.
\<close>

subsection \<open>Memory\<close>

record componentMem =
  cm_name :: string
  cm_apiVersion :: string
  cm_kind :: string
  cm_type :: string
  cm_properties :: libMem

record specMem =
  sp_components :: "addr option"
  sp_suspend :: "addr option"

record statusMem =
  sm_observedGeneration :: int
  sm_phase :: applicationPhase
  sm_conditions :: "addr option"
  sm_components :: "addr option"
  sm_suspendedReplicas :: "addr option"
  sm_lastChangeID :: string
  sm_annotations :: "addr option"

record typeMeta =
  tm_kind :: string
  tm_apiVersion :: string

record definitionMem =
  dm_typeMeta :: typeMeta
  dm_objectMeta :: libMem
  dm_spec :: specMem
  dm_status :: statusMem

record definitionListMem =
  dl_typeMeta :: typeMeta
  dl_listMeta :: libMem
  dl_items :: "addr option"

text \<open>What an address holds: a boolean, the backing array of a slice, a map, or a struct.\<close>

datatype cell =
    BoolCell (bool_in: bool)
  | ConditionsCell (conditions_in: "condition list")
  | ReferencesCell (references_in: "componentStatus list")
  | ReplicasCell (replicas_in: "string \<rightharpoonup> int32")
  | StringsCell (strings_in: "string \<rightharpoonup> string")
  | ComponentsCell (components_in: "componentMem list")
  | DefinitionsCell (definitions_in: "definitionMem list")
  | LibCell (lib_in: string)
  | ComponentCell (component_in: componentMem)
  | ReferenceCell (reference_in: componentStatus)
  | SpecCell (spec_in: specMem)
  | StatusCell (status_in: statusMem)
  | DefinitionCell (definition_in: definitionMem)
  | ListCell (list_in: definitionListMem)

text \<open>The copies of the library types are library code.\<close>

record libCopies =
  lib_copy_object_meta :: "libMem \<Rightarrow> cell memory \<Rightarrow> libMem \<times> cell memory"
  lib_copy_list_meta :: "libMem \<Rightarrow> cell memory \<Rightarrow> libMem \<times> cell memory"
  lib_copy_raw_extension :: "libMem \<Rightarrow> cell memory \<Rightarrow> libMem \<times> cell memory"
  lib_copy_condition :: "condition \<Rightarrow> cell memory \<Rightarrow> condition \<times> cell memory"

subsection \<open>The generated copies\<close>

definition ApplicationComponent_DeepCopyInto ::
    "libCopies \<Rightarrow> componentMem \<Rightarrow> cell memory \<Rightarrow> componentMem \<times> cell memory" where
  "ApplicationComponent_DeepCopyInto lib c m =
     (case lib_copy_raw_extension lib (cm_properties c) m of
        (properties, m1) \<Rightarrow> (c\<lparr>cm_properties := properties\<rparr>, m1))"

definition ApplicationDefinitionSpec_DeepCopyInto ::
    "libCopies \<Rightarrow> specMem \<Rightarrow> cell memory \<Rightarrow> specMem \<times> cell memory" where
  "ApplicationDefinitionSpec_DeepCopyInto lib s m =
     (case copy_ref components_in ComponentsCell (copy_list (ApplicationComponent_DeepCopyInto lib))
             (sp_components s) m of
        (components, m1) \<Rightarrow>
          (case copy_ref bool_in BoolCell copy_plain (sp_suspend s) m1 of
             (suspend, m2) \<Rightarrow> (s\<lparr>sp_components := components, sp_suspend := suspend\<rparr>, m2)))"

definition ComponentStatusReference_DeepCopyInto ::
    "componentStatus \<Rightarrow> cell memory \<Rightarrow> componentStatus \<times> cell memory" where
  "ComponentStatusReference_DeepCopyInto r m = copy_plain r m"

definition ApplicationDefinitionStatus_DeepCopyInto ::
    "libCopies \<Rightarrow> statusMem \<Rightarrow> cell memory \<Rightarrow> statusMem \<times> cell memory" where
  "ApplicationDefinitionStatus_DeepCopyInto lib s m =
     (case copy_ref conditions_in ConditionsCell (copy_list (lib_copy_condition lib)) (sm_conditions s) m of
        (conditions, m1) \<Rightarrow>
     (case copy_ref references_in ReferencesCell copy_plain (sm_components s) m1 of
        (components, m2) \<Rightarrow>
     (case copy_ref replicas_in ReplicasCell copy_plain (sm_suspendedReplicas s) m2 of
        (replicas, m3) \<Rightarrow>
     (case copy_ref strings_in StringsCell copy_plain (sm_annotations s) m3 of
        (annotations, m4) \<Rightarrow>
          (s\<lparr>sm_conditions := conditions, sm_components := components,
             sm_suspendedReplicas := replicas, sm_annotations := annotations\<rparr>, m4)))))"

definition ApplicationDefinition_DeepCopyInto ::
    "libCopies \<Rightarrow> definitionMem \<Rightarrow> cell memory \<Rightarrow> definitionMem \<times> cell memory" where
  "ApplicationDefinition_DeepCopyInto lib d m =
     (case lib_copy_object_meta lib (dm_objectMeta d) m of
        (objectMeta, m1) \<Rightarrow>
     (case ApplicationDefinitionSpec_DeepCopyInto lib (dm_spec d) m1 of
        (spec, m2) \<Rightarrow>
     (case ApplicationDefinitionStatus_DeepCopyInto lib (dm_status d) m2 of
        (status, m3) \<Rightarrow>
          (d\<lparr>dm_typeMeta := dm_typeMeta d, dm_objectMeta := objectMeta, dm_spec := spec,
             dm_status := status\<rparr>, m3))))"

definition ApplicationDefinitionList_DeepCopyInto ::
    "libCopies \<Rightarrow> definitionListMem \<Rightarrow> cell memory \<Rightarrow> definitionListMem \<times> cell memory" where
  "ApplicationDefinitionList_DeepCopyInto lib l m =
     (case lib_copy_list_meta lib (dl_listMeta l) m of
        (listMeta, m1) \<Rightarrow>
     (case copy_ref definitions_in DefinitionsCell (copy_list (ApplicationDefinition_DeepCopyInto lib))
             (dl_items l) m1 of
        (items, m2) \<Rightarrow>
          (l\<lparr>dl_typeMeta := dl_typeMeta l, dl_listMeta := listMeta, dl_items := items\<rparr>, m2)))"

text \<open>
  \<^verbatim>\<open>DeepCopy\<close>: nil gives nil, otherwise a new struct is filled. \<^verbatim>\<open>DeepCopyObject\<close> returns the same
  pointer as an interface, and a nil interface for nil.
\<close>

definition ApplicationComponent_DeepCopy :: "libCopies \<Rightarrow> addr option \<Rightarrow> cell memory \<Rightarrow> addr option \<times> cell memory" where
  "ApplicationComponent_DeepCopy lib =
     copy_ref component_in ComponentCell (ApplicationComponent_DeepCopyInto lib)"

definition ApplicationDefinitionSpec_DeepCopy ::
    "libCopies \<Rightarrow> addr option \<Rightarrow> cell memory \<Rightarrow> addr option \<times> cell memory" where
  "ApplicationDefinitionSpec_DeepCopy lib =
     copy_ref spec_in SpecCell (ApplicationDefinitionSpec_DeepCopyInto lib)"

definition ComponentStatusReference_DeepCopy :: "addr option \<Rightarrow> cell memory \<Rightarrow> addr option \<times> cell memory" where
  "ComponentStatusReference_DeepCopy =
     copy_ref reference_in ReferenceCell ComponentStatusReference_DeepCopyInto"

definition ApplicationDefinitionStatus_DeepCopy ::
    "libCopies \<Rightarrow> addr option \<Rightarrow> cell memory \<Rightarrow> addr option \<times> cell memory" where
  "ApplicationDefinitionStatus_DeepCopy lib =
     copy_ref status_in StatusCell (ApplicationDefinitionStatus_DeepCopyInto lib)"

definition ApplicationDefinition_DeepCopy :: "libCopies \<Rightarrow> addr option \<Rightarrow> cell memory \<Rightarrow> addr option \<times> cell memory" where
  "ApplicationDefinition_DeepCopy lib =
     copy_ref definition_in DefinitionCell (ApplicationDefinition_DeepCopyInto lib)"

definition ApplicationDefinitionList_DeepCopy ::
    "libCopies \<Rightarrow> addr option \<Rightarrow> cell memory \<Rightarrow> addr option \<times> cell memory" where
  "ApplicationDefinitionList_DeepCopy lib =
     copy_ref list_in ListCell (ApplicationDefinitionList_DeepCopyInto lib)"

definition ApplicationDefinition_DeepCopyObject ::
    "libCopies \<Rightarrow> addr option \<Rightarrow> cell memory \<Rightarrow> addr option \<times> cell memory" where
  "ApplicationDefinition_DeepCopyObject lib p m =
     (case ApplicationDefinition_DeepCopy lib p m of (Some c, m1) \<Rightarrow> (Some c, m1) | (None, m1) \<Rightarrow> (None, m1))"

definition ApplicationDefinitionList_DeepCopyObject ::
    "libCopies \<Rightarrow> addr option \<Rightarrow> cell memory \<Rightarrow> addr option \<times> cell memory" where
  "ApplicationDefinitionList_DeepCopyObject lib p m =
     (case ApplicationDefinitionList_DeepCopy lib p m of (Some c, m1) \<Rightarrow> (Some c, m1) | (None, m1) \<Rightarrow> (None, m1))"

subsection \<open>The generated copies are deep\<close>

text \<open>What the types look like, and where they lead.\<close>

definition component_view where
  "component_view m c =
     ((cm_name c, cm_apiVersion c, cm_kind c, cm_type c), lib_view lib_in m (cm_properties c))"

definition component_reach where
  "component_reach m c = lib_reach m (cm_properties c)"

definition spec_view where
  "spec_view m s =
     (ref_view components_in (\<lambda>m. map (component_view m)) m (sp_components s),
      ref_view bool_in itself m (sp_suspend s))"

definition spec_reach where
  "spec_reach m s =
     ref_reach components_in (list_reach_of component_reach) m (sp_components s) \<union>
     ref_reach bool_in no_refs m (sp_suspend s)"

definition status_view where
  "status_view m s =
     ((sm_observedGeneration s, sm_phase s, sm_lastChangeID s),
      ref_view conditions_in (\<lambda>m. map (itself m)) m (sm_conditions s),
      ref_view references_in itself m (sm_components s),
      ref_view replicas_in itself m (sm_suspendedReplicas s),
      ref_view strings_in itself m (sm_annotations s))"

definition status_reach where
  "status_reach m s =
     ref_reach conditions_in (list_reach_of no_refs) m (sm_conditions s) \<union>
     (ref_reach references_in no_refs m (sm_components s) \<union>
     (ref_reach replicas_in no_refs m (sm_suspendedReplicas s) \<union>
      ref_reach strings_in no_refs m (sm_annotations s)))"

definition definition_view where
  "definition_view m d =
     (dm_typeMeta d, lib_view lib_in m (dm_objectMeta d), spec_view m (dm_spec d), status_view m (dm_status d))"

definition definition_reach where
  "definition_reach m d =
     lib_reach m (dm_objectMeta d) \<union> (spec_reach m (dm_spec d) \<union> status_reach m (dm_status d))"

definition list_view where
  "list_view m l =
     (dl_typeMeta l, lib_view lib_in m (dl_listMeta l),
      ref_view definitions_in (\<lambda>m. map (definition_view m)) m (dl_items l))"

definition list_reach where
  "list_reach m l =
     lib_reach m (dl_listMeta l) \<union> ref_reach definitions_in (list_reach_of definition_reach) m (dl_items l)"

text \<open>The library's copies are documented to be deep; a condition holds no address.\<close>

definition library_copies :: "libCopies \<Rightarrow> bool" where
  "library_copies lib \<longleftrightarrow>
     deep_copy (lib_copy_object_meta lib) (lib_view lib_in) lib_reach \<and>
     deep_copy (lib_copy_list_meta lib) (lib_view lib_in) lib_reach \<and>
     deep_copy (lib_copy_raw_extension lib) (lib_view lib_in) lib_reach \<and>
     deep_copy (lib_copy_condition lib) itself no_refs"

interpretation reference: deep_copy ComponentStatusReference_DeepCopyInto itself no_refs
  by unfold_locales (auto simp: copy_plain_def ComponentStatusReference_DeepCopyInto_def)

lemma component_deep:
  assumes "library_copies lib"
  shows "deep_copy (ApplicationComponent_DeepCopyInto lib) component_view component_reach"
proof -
  from assms have "deep_copy (lib_copy_raw_extension lib) (lib_view lib_in) lib_reach" by (simp add: library_copies_def)
  from deep_copy.structs [OF this, of cm_properties "\<lambda>c p. c\<lparr>cm_properties := p\<rparr>"
      "\<lambda>c. (cm_name c, cm_apiVersion c, cm_kind c, cm_type c)"]
  show ?thesis
    by (simp add: ApplicationComponent_DeepCopyInto_def [abs_def] component_view_def [abs_def]
        component_reach_def [abs_def])
qed

lemma spec_deep:
  assumes "library_copies lib"
  shows "deep_copy (ApplicationDefinitionSpec_DeepCopyInto lib) spec_view spec_reach"
proof -
  note comps = deep_copy.refs [OF deep_copy.lists [OF component_deep [OF assms]], of components_in ComponentsCell]
  note suspend = plain.refs [of bool_in BoolCell]
  from deep_copy.structs [OF deep_copy_pair [OF comps suspend], of "\<lambda>s. (sp_components s, sp_suspend s)"
      "\<lambda>s p. s\<lparr>sp_components := fst p, sp_suspend := snd p\<rparr>" "\<lambda>s. ()"]
  have "deep_copy (ApplicationDefinitionSpec_DeepCopyInto lib) (\<lambda>m s. ((), spec_view m s)) spec_reach"
    by (simp add: ApplicationDefinitionSpec_DeepCopyInto_def [abs_def] spec_view_def [abs_def]
        spec_reach_def [abs_def] prod.case_distrib split_def)
  then show ?thesis by (auto simp: deep_copy_def)
qed

lemma status_deep:
  assumes "library_copies lib"
  shows "deep_copy (ApplicationDefinitionStatus_DeepCopyInto lib) status_view status_reach"
proof -
  from assms have "deep_copy (lib_copy_condition lib) itself no_refs" by (simp add: library_copies_def)
  note conds = deep_copy.refs [OF deep_copy.lists [OF this], of conditions_in ConditionsCell]
  note rest = deep_copy_pair [OF plain.refs [of replicas_in ReplicasCell] plain.refs [of strings_in StringsCell]]
  from deep_copy.structs [OF deep_copy_pair [OF conds
        deep_copy_pair [OF plain.refs [of references_in ReferencesCell] rest]],
      of "\<lambda>s. (sm_conditions s, sm_components s, sm_suspendedReplicas s, sm_annotations s)"
        "\<lambda>s p. s\<lparr>sm_conditions := fst p, sm_components := fst (snd p),
          sm_suspendedReplicas := fst (snd (snd p)), sm_annotations := snd (snd (snd p))\<rparr>"
        "\<lambda>s. (sm_observedGeneration s, sm_phase s, sm_lastChangeID s)"]
  show ?thesis
    by (simp add: ApplicationDefinitionStatus_DeepCopyInto_def [abs_def] status_view_def [abs_def]
        status_reach_def [abs_def] split_def)
qed

lemma definition_deep:
  assumes "library_copies lib"
  shows "deep_copy (ApplicationDefinition_DeepCopyInto lib) definition_view definition_reach"
proof -
  from assms have "deep_copy (lib_copy_object_meta lib) (lib_view lib_in) lib_reach" by (simp add: library_copies_def)
  from deep_copy.structs [OF deep_copy_pair [OF this deep_copy_pair [OF spec_deep [OF assms] status_deep [OF assms]]],
      of "\<lambda>d. (dm_objectMeta d, dm_spec d, dm_status d)"
        "\<lambda>d p. d\<lparr>dm_objectMeta := fst p, dm_spec := fst (snd p), dm_status := snd (snd p)\<rparr>" dm_typeMeta]
  show ?thesis
    by (simp add: ApplicationDefinition_DeepCopyInto_def [abs_def] definition_view_def [abs_def]
        definition_reach_def [abs_def] split_def)
qed

lemma list_deep:
  assumes "library_copies lib"
  shows "deep_copy (ApplicationDefinitionList_DeepCopyInto lib) list_view list_reach"
proof -
  from assms have meta: "deep_copy (lib_copy_list_meta lib) (lib_view lib_in) lib_reach" by (simp add: library_copies_def)
  note items = deep_copy.refs [OF deep_copy.lists [OF definition_deep [OF assms]], of definitions_in DefinitionsCell]
  from deep_copy.structs [OF deep_copy_pair [OF meta items], of "\<lambda>l. (dl_listMeta l, dl_items l)"
      "\<lambda>l p. l\<lparr>dl_listMeta := fst p, dl_items := snd p\<rparr>" dl_typeMeta]
  show ?thesis
    by (simp add: ApplicationDefinitionList_DeepCopyInto_def [abs_def] list_view_def [abs_def]
        list_reach_def [abs_def] split_def)
qed

subsection \<open>Properties\<close>

text \<open>The status in memory, as the value that the other theories work with.\<close>

definition status_value :: "cell memory \<Rightarrow> statusMem \<Rightarrow> applicationStatus" where
  "status_value m s =
     \<lparr>st_observedGeneration = sm_observedGeneration s, st_phase = sm_phase s,
      st_conditions = (case sm_conditions s of None \<Rightarrow> [] | Some a \<Rightarrow> conditions_in (m ! a)),
      st_components = (case sm_components s of None \<Rightarrow> [] | Some a \<Rightarrow> references_in (m ! a)),
      st_suspendedReplicas = (case sm_suspendedReplicas s of None \<Rightarrow> Map.empty | Some a \<Rightarrow> replicas_in (m ! a)),
      st_lastChangeID = sm_lastChangeID s,
      st_annotations = (case sm_annotations s of None \<Rightarrow> Map.empty | Some a \<Rightarrow> strings_in (m ! a))\<rparr>"

lemma read_ref_view:
  assumes "ref_view get itself m p = ref_view get itself m' p'"
  shows "(case p of None \<Rightarrow> d | Some a \<Rightarrow> get (m ! a)) = (case p' of None \<Rightarrow> d | Some a \<Rightarrow> get (m' ! a))"
  using assms by (cases p; cases p') (simp_all add: ref_view_def)

lemma map_itself: "(\<lambda>m. map (itself m)) = itself"
  by (simp add: fun_eq_iff)

lemma status_value_view:
  assumes "status_view m s = status_view m' s'"
  shows "status_value m s = status_value m' s'"
proof -
  have "ref_view conditions_in itself m (sm_conditions s) = ref_view conditions_in itself m' (sm_conditions s')"
    "ref_view references_in itself m (sm_components s) = ref_view references_in itself m' (sm_components s')"
    "ref_view replicas_in itself m (sm_suspendedReplicas s) = ref_view replicas_in itself m' (sm_suspendedReplicas s')"
    "ref_view strings_in itself m (sm_annotations s) = ref_view strings_in itself m' (sm_annotations s')"
    "sm_observedGeneration s = sm_observedGeneration s'" "sm_phase s = sm_phase s'"
    "sm_lastChangeID s = sm_lastChangeID s'"
    using assms by (simp_all only: status_view_def prod.inject map_itself)
  from this(5-7) this(1-4) [THEN read_ref_view] show ?thesis by (simp only: status_value_def)
qed

text \<open>
  C37. A deep copy of a list of applications shares no memory with the original, down to the last map:
  whatever is written to the memory that existed before leaves the copy as the original was, and
  whatever is written to new memory leaves the original as it was. Nil is copied to nil.
\<close>

theorem deep_copies_share_nothing:
  assumes "library_copies lib" "ref_reach list_in list_reach m p \<subseteq> {..<length m}"
    and "ApplicationDefinitionList_DeepCopyObject lib p m = (p', m')"
  shows "(\<forall>m''. (\<forall>a. length m \<le> a \<longrightarrow> a < length m' \<longrightarrow> m'' ! a = m' ! a) \<longrightarrow>
      ref_view list_in list_view m'' p' = ref_view list_in list_view m p) \<and>
    (\<forall>m''. (\<forall>a < length m. m'' ! a = m' ! a) \<longrightarrow>
      ref_view list_in list_view m'' p = ref_view list_in list_view m p)"
proof -
  have deep: "deep_copy (ApplicationDefinitionList_DeepCopy lib) (ref_view list_in list_view) (ref_reach list_in list_reach)"
    unfolding ApplicationDefinitionList_DeepCopy_def by (rule deep_copy.refs [OF list_deep [OF assms(1)]]) simp
  from assms(3) have run: "ApplicationDefinitionList_DeepCopy lib p m = (p', m')"
    by (auto simp: ApplicationDefinitionList_DeepCopyObject_def split: prod.splits option.splits)
  from deep_copy.apart [OF deep assms(2) run] show ?thesis .
qed

text \<open>
  C36. The original status that a run keeps for the comparison at its end is a snapshot: no change of
  the application in memory, in place or not, changes it, so a run may treat it as a value.
\<close>

theorem original_status_is_a_snapshot:
  assumes "library_copies lib" "a < length m" "status_reach m (status_in (m ! a)) \<subseteq> {..<length m}"
    and "ApplicationDefinitionStatus_DeepCopy lib (Some a) m = (p, m')"
  shows "\<exists>a'. p = Some a' \<and> length m \<le> a' \<and>
    (\<forall>m''. (\<forall>b. length m \<le> b \<longrightarrow> b < length m' \<longrightarrow> m'' ! b = m' ! b) \<longrightarrow>
      status_value m'' (status_in (m'' ! a')) = status_value m (status_in (m ! a)))"
proof -
  let ?view = "ref_view status_in status_view" and ?reach = "ref_reach status_in status_reach"
  have deep: "deep_copy (ApplicationDefinitionStatus_DeepCopy lib) ?view ?reach"
    unfolding ApplicationDefinitionStatus_DeepCopy_def
    by (rule deep_copy.refs [OF status_deep [OF assms(1)]]) simp
  have inside: "?reach m (Some a) \<subseteq> {..<length m}" using assms(2,3) by (simp add: ref_reach_def)
  from assms(4) obtain a' where p: "p = Some a'"
    by (auto simp: ApplicationDefinitionStatus_DeepCopy_def copy_ref_def split: prod.splits)
  have "length m \<le> a'" using deep_copy.copied [OF deep inside assms(4)] by (simp add: p ref_reach_def)
  moreover have "status_view m'' (status_in (m'' ! a')) = status_view m (status_in (m ! a))"
    if "\<forall>b. length m \<le> b \<longrightarrow> b < length m' \<longrightarrow> m'' ! b = m' ! b" for m''
    using deep_copy.copy_apart [OF deep inside assms(4) that] by (simp add: p ref_view_def)
  ultimately show ?thesis using p status_value_view by blast
qed

text \<open>A library that keeps the promise.\<close>

definition copying_library :: libCopies where
  "copying_library =
     \<lparr>lib_copy_object_meta = copy_lib_value lib_in LibCell,
      lib_copy_list_meta = copy_lib_value lib_in LibCell,
      lib_copy_raw_extension = copy_lib_value lib_in LibCell, lib_copy_condition = copy_plain\<rparr>"

lemma copying_library_copies: "library_copies copying_library"
  using copy_lib_value_deep [of lib_in LibCell] plain.deep_copy_axioms
  by (simp add: library_copies_def copying_library_def)

definition status_memory :: "cell memory" where
  "status_memory =
     [StatusCell \<lparr>sm_observedGeneration = 1, sm_phase = ApplicationPhaseRunning, sm_conditions = None,
        sm_components = Some 1, sm_suspendedReplicas = Some 2, sm_lastChangeID = [], sm_annotations = None\<rparr>,
      ReferencesCell [], ReplicasCell [''web'' \<mapsto> 3]]"

theorem original_status_is_a_snapshot_witness:
  "\<exists>a' m'. ApplicationDefinitionStatus_DeepCopy copying_library (Some 0) status_memory = (Some a', m') \<and>
     st_suspendedReplicas (status_value (m'[2 := ReplicasCell Map.empty]) (status_in (m'[2 := ReplicasCell Map.empty] ! a')))
       = [''web'' \<mapsto> 3]"
proof -
  obtain p m' where run: "ApplicationDefinitionStatus_DeepCopy copying_library (Some 0) status_memory = (p, m')"
    by fastforce
  have inside: "0 < length status_memory"
    "status_reach status_memory (status_in (status_memory ! 0)) \<subseteq> {..<length status_memory}"
    by (auto simp: status_memory_def status_reach_def ref_reach_def)
  from original_status_is_a_snapshot [OF copying_library_copies inside run] obtain a' where p: "p = Some a'"
    and s: "\<forall>m''. (\<forall>b. length status_memory \<le> b \<longrightarrow> b < length m' \<longrightarrow> m'' ! b = m' ! b) \<longrightarrow>
      status_value m'' (status_in (m'' ! a')) = status_value status_memory (status_in (status_memory ! 0))" by blast
  have "status_value (m'[2 := ReplicasCell Map.empty]) (status_in (m'[2 := ReplicasCell Map.empty] ! a')) =
      status_value status_memory (status_in (status_memory ! 0))"
    by (rule s [rule_format]) (simp add: status_memory_def nth_list_update)
  moreover have "st_suspendedReplicas (status_value status_memory (status_in (status_memory ! 0))) = [''web'' \<mapsto> 3]"
    by (simp add: status_memory_def status_value_def)
  ultimately show ?thesis using run p by auto
qed

definition list_memory :: "cell memory" where
  "list_memory =
     [ListCell \<lparr>dl_typeMeta = \<lparr>tm_kind = [], tm_apiVersion = []\<rparr>, dl_listMeta = \<lparr>lm_plain = ''7'', lm_refs = []\<rparr>,
        dl_items = Some 1\<rparr>,
      DefinitionsCell [\<lparr>dm_typeMeta = \<lparr>tm_kind = [], tm_apiVersion = []\<rparr>,
        dm_objectMeta = \<lparr>lm_plain = ''shop'', lm_refs = [2]\<rparr>,
        dm_spec = \<lparr>sp_components = Some 3, sp_suspend = None\<rparr>,
        dm_status = \<lparr>sm_observedGeneration = 0, sm_phase = ApplicationPhaseUnset, sm_conditions = None,
          sm_components = None, sm_suspendedReplicas = None, sm_lastChangeID = [], sm_annotations = None\<rparr>\<rparr>],
      LibCell ''labels'',
      ComponentsCell [\<lparr>cm_name = ''web'', cm_apiVersion = ''apps/v1'', cm_kind = ''StatefulSet'', cm_type = [],
        cm_properties = \<lparr>lm_plain = [], lm_refs = [4]\<rparr>\<rparr>],
      LibCell ''{}'']"

theorem deep_copies_share_nothing_witness:
  "\<exists>p' m'. ApplicationDefinitionList_DeepCopyObject copying_library (Some 0) list_memory = (p', m') \<and>
     ref_view list_in list_view (m'[2 := LibCell [], 4 := LibCell []]) p' =
       ref_view list_in list_view list_memory (Some 0)"
proof -
  obtain p' m' where run: "ApplicationDefinitionList_DeepCopyObject copying_library (Some 0) list_memory = (p', m')"
    by fastforce
  have inside: "ref_reach list_in list_reach list_memory (Some 0) \<subseteq> {..<length list_memory}"
    by (auto simp: list_memory_def ref_reach_def list_reach_def lib_reach_def list_reach_of_def
        definition_reach_def spec_reach_def status_reach_def component_reach_def)
  note apart = conjunct1 [OF deep_copies_share_nothing [OF copying_library_copies inside run]]
  have "ref_view list_in list_view (m'[2 := LibCell [], 4 := LibCell []]) p' =
      ref_view list_in list_view list_memory (Some 0)"
    by (rule apart [rule_format]) (simp add: list_memory_def nth_list_update)
  with run show ?thesis by blast
qed

end
