(* ===== verification/ConfigCopies.thy ===== *)
theory ConfigCopies
  imports AppTypes Memory
begin

text \<open>
  The deep copies of \<^verbatim>\<open>pkg/apis/common/zz_generated.deepcopy.go\<close>: the configuration of a component, on
  the explicit memory of theory Memory. The library types are \<open>libMem\<close>, and their copies a parameter.
\<close>

subsection \<open>Memory\<close>

record configMountMem =
  mcm_name :: string
  mcm_volumeName :: string
  mcm_mountPath :: string
  mcm_subPath :: "addr option"
  mcm_items :: "addr option"
  mcm_readOnly :: "addr option"

record secretMountMem =
  msm_secretName :: string
  msm_volumeName :: string
  msm_mountPath :: string
  msm_items :: "addr option"
  msm_readOnly :: "addr option"

record persistenceMem =
  mps_enabled :: bool
  mps_volumeName :: string
  mps_mountPath :: string
  mps_size :: "addr option"
  mps_storageClassName :: "addr option"
  mps_accessModes :: "addr option"

record storageMem =
  mst_enabled :: bool
  mst_volumeClaimTemplateName :: string
  mst_mountPath :: string
  mst_size :: "addr option"
  mst_storageClassName :: "addr option"
  mst_accessModes :: "addr option"
  mst_dataSubpath :: "addr option"

record portMem =
  mpo_name :: string
  mpo_containerPort :: int32
  mpo_protocol :: string
  mpo_nodePort :: int32
  mpo_targetPort :: "addr option"

record probesMem =
  mpb_liveness :: "addr option"
  mpb_readiness :: "addr option"
  mpb_startup :: "addr option"

record resourcesMem =
  mre_limits :: "addr option"
  mre_requests :: "addr option"

record serviceAccountMem =
  msa_name :: string
  msa_create :: "addr option"
  msa_annotations :: "addr option"

record serviceMem =
  msv_type :: "addr option"
  msv_ports :: "addr option"
  msv_annotations :: "addr option"
  msv_sessionAffinity :: "addr option"
  msv_sessionAffinityConfig :: "addr option"

record configMem =
  mrc_replicas :: "addr option"
  mrc_image :: "addr option"
  mrc_command :: "addr option"
  mrc_args :: "addr option"
  mrc_ports :: "addr option"
  mrc_initContainer :: "addr option"
  mrc_resources :: "addr option"
  mrc_env :: "addr option"
  mrc_envFrom :: "addr option"
  mrc_probes :: "addr option"
  mrc_containerSecurityContext :: "addr option"
  mrc_podSecurityContext :: "addr option"
  mrc_serviceAccount :: "addr option"
  mrc_nodeSelector :: "addr option"
  mrc_tolerations :: "addr option"
  mrc_affinity :: "addr option"
  mrc_persistence :: "addr option"
  mrc_storage :: "addr option"
  mrc_service :: "addr option"
  mrc_configFiles :: "addr option"
  mrc_configMounts :: "addr option"
  mrc_secretMounts :: "addr option"
  mrc_additionalVolumes :: "addr option"
  mrc_volumeMounts :: "addr option"
  mrc_statefulSetUpdateStrategy :: "addr option"
  mrc_podManagementPolicy :: "addr option"
  mrc_podDisruptionBudgetBeta1 :: "addr option"
  mrc_podDisruptionBudget :: "addr option"

record workloadMem =
  wl_apiVersion :: string
  wl_kind :: string

text \<open>
  What an address holds. The string types of the libraries are strings; a \<^verbatim>\<open>ResourceList\<close>, a map whose
  values hold addresses, is the list of its entries in the order of a \<^verbatim>\<open>range\<close>.
\<close>

datatype configCell =
    BoolAt (bool_at: bool)
  | StringAt (string_at: string)
  | Int32At (int32_at: int32)
  | IntOrStringAt (int_or_string_at: intOrString)
  | StringsAt (strings_at: "string list")
  | StringMapAt (string_map_at: "string \<rightharpoonup> string")
  | EntriesAt (entries_at: "(string \<times> libMem) list")
  | TextAt (text_at: string)
  | LibAt (lib_at: libMem)
  | LibsAt (libs_at: "libMem list")
  | ImageAt (image_at: imageSpec)
  | WorkloadAt (workload_at: workloadMem)
  | PortAt (port_at: portMem)
  | PortsAt (ports_at: "portMem list")
  | ResourcesAt (resources_at: resourcesMem)
  | ProbesAt (probes_at: probesMem)
  | ServiceAccountAt (service_account_at: serviceAccountMem)
  | PersistenceAt (persistence_at: persistenceMem)
  | StorageAt (storage_at: storageMem)
  | ServiceAt (service_at: serviceMem)
  | ConfigMountAt (config_mount_at: configMountMem)
  | ConfigMountsAt (config_mounts_at: "configMountMem list")
  | SecretMountAt (secret_mount_at: secretMountMem)
  | SecretMountsAt (secret_mounts_at: "secretMountMem list")
  | ConfigAt (config_at: configMem)

text \<open>The types whose \<^verbatim>\<open>DeepCopyInto\<close> or \<^verbatim>\<open>DeepCopy\<close> is library code.\<close>

datatype libType =
    KeyToPath | Quantity | Probe | Container | EnvVar | EnvFromSource | ContainerSecurityContext
  | PodSecurityContext | Toleration | Affinity | Volume | VolumeMount | StatefulSetUpdateStrategy
  | SessionAffinityConfig | PodDisruptionBudgetV1beta1 | PodDisruptionBudgetV1

type_synonym configLib = "libType \<Rightarrow> libMem \<Rightarrow> configCell memory \<Rightarrow> libMem \<times> configCell memory"

subsection \<open>The generated copies\<close>

text \<open>An entry of a \<^verbatim>\<open>ResourceList\<close>: the key is copied by assignment.\<close>

definition copy_entry ::
    "(libMem \<Rightarrow> configCell memory \<Rightarrow> libMem \<times> configCell memory) \<Rightarrow> string \<times> libMem \<Rightarrow> configCell memory
      \<Rightarrow> (string \<times> libMem) \<times> configCell memory" where
  "copy_entry copy e m = (case copy (snd e) m of (val, m1) \<Rightarrow> ((fst e, val), m1))"

definition ImageSpec_DeepCopyInto :: "imageSpec \<Rightarrow> configCell memory \<Rightarrow> imageSpec \<times> configCell memory" where
  "ImageSpec_DeepCopyInto i m = copy_plain i m"

definition WorkloadReference_DeepCopyInto ::
    "workloadMem \<Rightarrow> configCell memory \<Rightarrow> workloadMem \<times> configCell memory" where
  "WorkloadReference_DeepCopyInto r m = copy_plain r m"

definition ConfigMountSpec_DeepCopyInto ::
    "configLib \<Rightarrow> configMountMem \<Rightarrow> configCell memory \<Rightarrow> configMountMem \<times> configCell memory" where
  "ConfigMountSpec_DeepCopyInto lib x m =
     (case copy_ref string_at StringAt copy_plain (mcm_subPath x) m of (v_subPath, m1) \<Rightarrow>
     (case copy_ref libs_at LibsAt (copy_list (lib KeyToPath)) (mcm_items x) m1 of (v_items, m2) \<Rightarrow>
     (case copy_ref bool_at BoolAt copy_plain (mcm_readOnly x) m2 of (v_readOnly, m3) \<Rightarrow>
       (x\<lparr>mcm_subPath := v_subPath, mcm_items := v_items,
           mcm_readOnly := v_readOnly\<rparr>, m3))))"

definition SecretMountSpec_DeepCopyInto ::
    "configLib \<Rightarrow> secretMountMem \<Rightarrow> configCell memory \<Rightarrow> secretMountMem \<times> configCell memory" where
  "SecretMountSpec_DeepCopyInto lib x m =
     (case copy_ref libs_at LibsAt (copy_list (lib KeyToPath)) (msm_items x) m of (v_items, m1) \<Rightarrow>
     (case copy_ref bool_at BoolAt copy_plain (msm_readOnly x) m1 of (v_readOnly, m2) \<Rightarrow>
       (x\<lparr>msm_items := v_items, msm_readOnly := v_readOnly\<rparr>, m2)))"

definition PersistenceSpec_DeepCopyInto ::
    "configLib \<Rightarrow> persistenceMem \<Rightarrow> configCell memory \<Rightarrow> persistenceMem \<times> configCell memory" where
  "PersistenceSpec_DeepCopyInto lib x m =
     (case copy_ref lib_at LibAt (lib Quantity) (mps_size x) m of (v_size, m1) \<Rightarrow>
     (case copy_ref string_at StringAt copy_plain (mps_storageClassName x) m1 of (v_storageClassName, m2) \<Rightarrow>
     (case copy_ref strings_at StringsAt copy_plain (mps_accessModes x) m2 of (v_accessModes, m3) \<Rightarrow>
       (x\<lparr>mps_size := v_size, mps_storageClassName := v_storageClassName,
           mps_accessModes := v_accessModes\<rparr>, m3))))"

definition StorageSpec_DeepCopyInto ::
    "configLib \<Rightarrow> storageMem \<Rightarrow> configCell memory \<Rightarrow> storageMem \<times> configCell memory" where
  "StorageSpec_DeepCopyInto lib x m =
     (case copy_ref lib_at LibAt (lib Quantity) (mst_size x) m of (v_size, m1) \<Rightarrow>
     (case copy_ref string_at StringAt copy_plain (mst_storageClassName x) m1 of (v_storageClassName, m2) \<Rightarrow>
     (case copy_ref strings_at StringsAt copy_plain (mst_accessModes x) m2 of (v_accessModes, m3) \<Rightarrow>
     (case copy_ref string_at StringAt copy_plain (mst_dataSubpath x) m3 of (v_dataSubpath, m4) \<Rightarrow>
       (x\<lparr>mst_size := v_size, mst_storageClassName := v_storageClassName,
           mst_accessModes := v_accessModes, mst_dataSubpath := v_dataSubpath\<rparr>, m4)))))"

definition PortSpec_DeepCopyInto ::
    "portMem \<Rightarrow> configCell memory \<Rightarrow> portMem \<times> configCell memory" where
  "PortSpec_DeepCopyInto x m =
     (case copy_ref int_or_string_at IntOrStringAt copy_plain (mpo_targetPort x) m of (v_targetPort, m1) \<Rightarrow>
       (x\<lparr>mpo_targetPort := v_targetPort\<rparr>, m1))"

definition ProbesConfig_DeepCopyInto ::
    "configLib \<Rightarrow> probesMem \<Rightarrow> configCell memory \<Rightarrow> probesMem \<times> configCell memory" where
  "ProbesConfig_DeepCopyInto lib x m =
     (case copy_ref lib_at LibAt (lib Probe) (mpb_liveness x) m of (v_liveness, m1) \<Rightarrow>
     (case copy_ref lib_at LibAt (lib Probe) (mpb_readiness x) m1 of (v_readiness, m2) \<Rightarrow>
     (case copy_ref lib_at LibAt (lib Probe) (mpb_startup x) m2 of (v_startup, m3) \<Rightarrow>
       (x\<lparr>mpb_liveness := v_liveness, mpb_readiness := v_readiness,
           mpb_startup := v_startup\<rparr>, m3))))"

definition ResourcesSpec_DeepCopyInto ::
    "configLib \<Rightarrow> resourcesMem \<Rightarrow> configCell memory \<Rightarrow> resourcesMem \<times> configCell memory" where
  "ResourcesSpec_DeepCopyInto lib x m =
     (case copy_ref entries_at EntriesAt (copy_list (copy_entry (lib Quantity))) (mre_limits x) m of (v_limits, m1) \<Rightarrow>
     (case copy_ref entries_at EntriesAt (copy_list (copy_entry (lib Quantity))) (mre_requests x) m1 of (v_requests, m2) \<Rightarrow>
       (x\<lparr>mre_limits := v_limits, mre_requests := v_requests\<rparr>, m2)))"

definition ServiceAccountSpec_DeepCopyInto ::
    "serviceAccountMem \<Rightarrow> configCell memory \<Rightarrow> serviceAccountMem \<times> configCell memory" where
  "ServiceAccountSpec_DeepCopyInto x m =
     (case copy_ref bool_at BoolAt copy_plain (msa_create x) m of (v_create, m1) \<Rightarrow>
     (case copy_ref string_map_at StringMapAt copy_plain (msa_annotations x) m1 of (v_annotations, m2) \<Rightarrow>
       (x\<lparr>msa_create := v_create, msa_annotations := v_annotations\<rparr>, m2)))"

definition ServiceSpecPart_DeepCopyInto ::
    "configLib \<Rightarrow> serviceMem \<Rightarrow> configCell memory \<Rightarrow> serviceMem \<times> configCell memory" where
  "ServiceSpecPart_DeepCopyInto lib x m =
     (case copy_ref string_at StringAt copy_plain (msv_type x) m of (v_type, m1) \<Rightarrow>
     (case copy_ref ports_at PortsAt (copy_list PortSpec_DeepCopyInto) (msv_ports x) m1 of (v_ports, m2) \<Rightarrow>
     (case copy_ref string_map_at StringMapAt copy_plain (msv_annotations x) m2 of (v_annotations, m3) \<Rightarrow>
     (case copy_ref string_at StringAt copy_plain (msv_sessionAffinity x) m3 of (v_sessionAffinity, m4) \<Rightarrow>
     (case copy_ref lib_at LibAt (lib SessionAffinityConfig) (msv_sessionAffinityConfig x) m4 of (v_sessionAffinityConfig, m5) \<Rightarrow>
       (x\<lparr>msv_type := v_type, msv_ports := v_ports, msv_annotations := v_annotations,
           msv_sessionAffinity := v_sessionAffinity,
           msv_sessionAffinityConfig := v_sessionAffinityConfig\<rparr>, m5))))))"

definition RuntimeConfig_DeepCopyInto ::
    "configLib \<Rightarrow> configMem \<Rightarrow> configCell memory \<Rightarrow> configMem \<times> configCell memory" where
  "RuntimeConfig_DeepCopyInto lib x m =
     (case copy_ref int32_at Int32At copy_plain (mrc_replicas x) m of (v_replicas, m1) \<Rightarrow>
     (case copy_ref image_at ImageAt ImageSpec_DeepCopyInto (mrc_image x) m1 of (v_image, m2) \<Rightarrow>
     (case copy_ref strings_at StringsAt copy_plain (mrc_command x) m2 of (v_command, m3) \<Rightarrow>
     (case copy_ref strings_at StringsAt copy_plain (mrc_args x) m3 of (v_args, m4) \<Rightarrow>
     (case copy_ref ports_at PortsAt (copy_list PortSpec_DeepCopyInto) (mrc_ports x) m4 of (v_ports, m5) \<Rightarrow>
     (case copy_ref lib_at LibAt (lib Container) (mrc_initContainer x) m5 of (v_initContainer, m6) \<Rightarrow>
     (case copy_ref resources_at ResourcesAt (ResourcesSpec_DeepCopyInto lib) (mrc_resources x) m6 of (v_resources, m7) \<Rightarrow>
     (case copy_ref libs_at LibsAt (copy_list (lib EnvVar)) (mrc_env x) m7 of (v_env, m8) \<Rightarrow>
     (case copy_ref libs_at LibsAt (copy_list (lib EnvFromSource)) (mrc_envFrom x) m8 of (v_envFrom, m9) \<Rightarrow>
     (case copy_ref probes_at ProbesAt (ProbesConfig_DeepCopyInto lib) (mrc_probes x) m9 of (v_probes, m10) \<Rightarrow>
     (case copy_ref lib_at LibAt (lib ContainerSecurityContext) (mrc_containerSecurityContext x) m10 of (v_containerSecurityContext, m11) \<Rightarrow>
     (case copy_ref lib_at LibAt (lib PodSecurityContext) (mrc_podSecurityContext x) m11 of (v_podSecurityContext, m12) \<Rightarrow>
     (case copy_ref service_account_at ServiceAccountAt ServiceAccountSpec_DeepCopyInto (mrc_serviceAccount x) m12 of (v_serviceAccount, m13) \<Rightarrow>
     (case copy_ref string_map_at StringMapAt copy_plain (mrc_nodeSelector x) m13 of (v_nodeSelector, m14) \<Rightarrow>
     (case copy_ref libs_at LibsAt (copy_list (lib Toleration)) (mrc_tolerations x) m14 of (v_tolerations, m15) \<Rightarrow>
     (case copy_ref lib_at LibAt (lib Affinity) (mrc_affinity x) m15 of (v_affinity, m16) \<Rightarrow>
     (case copy_ref persistence_at PersistenceAt (PersistenceSpec_DeepCopyInto lib) (mrc_persistence x) m16 of (v_persistence, m17) \<Rightarrow>
     (case copy_ref storage_at StorageAt (StorageSpec_DeepCopyInto lib) (mrc_storage x) m17 of (v_storage, m18) \<Rightarrow>
     (case copy_ref service_at ServiceAt (ServiceSpecPart_DeepCopyInto lib) (mrc_service x) m18 of (v_service, m19) \<Rightarrow>
     (case copy_ref string_map_at StringMapAt copy_plain (mrc_configFiles x) m19 of (v_configFiles, m20) \<Rightarrow>
     (case copy_ref config_mounts_at ConfigMountsAt (copy_list (ConfigMountSpec_DeepCopyInto lib)) (mrc_configMounts x) m20 of (v_configMounts, m21) \<Rightarrow>
     (case copy_ref secret_mounts_at SecretMountsAt (copy_list (SecretMountSpec_DeepCopyInto lib)) (mrc_secretMounts x) m21 of (v_secretMounts, m22) \<Rightarrow>
     (case copy_ref libs_at LibsAt (copy_list (lib Volume)) (mrc_additionalVolumes x) m22 of (v_additionalVolumes, m23) \<Rightarrow>
     (case copy_ref libs_at LibsAt (copy_list (lib VolumeMount)) (mrc_volumeMounts x) m23 of (v_volumeMounts, m24) \<Rightarrow>
     (case copy_ref lib_at LibAt (lib StatefulSetUpdateStrategy) (mrc_statefulSetUpdateStrategy x) m24 of (v_statefulSetUpdateStrategy, m25) \<Rightarrow>
     (case copy_ref string_at StringAt copy_plain (mrc_podManagementPolicy x) m25 of (v_podManagementPolicy, m26) \<Rightarrow>
     (case copy_ref lib_at LibAt (lib PodDisruptionBudgetV1beta1) (mrc_podDisruptionBudgetBeta1 x) m26 of (v_podDisruptionBudgetBeta1, m27) \<Rightarrow>
     (case copy_ref lib_at LibAt (lib PodDisruptionBudgetV1) (mrc_podDisruptionBudget x) m27 of (v_podDisruptionBudget, m28) \<Rightarrow>
       (x\<lparr>mrc_replicas := v_replicas, mrc_image := v_image, mrc_command := v_command,
           mrc_args := v_args, mrc_ports := v_ports, mrc_initContainer := v_initContainer,
           mrc_resources := v_resources, mrc_env := v_env, mrc_envFrom := v_envFrom,
           mrc_probes := v_probes, mrc_containerSecurityContext := v_containerSecurityContext,
           mrc_podSecurityContext := v_podSecurityContext, mrc_serviceAccount := v_serviceAccount,
           mrc_nodeSelector := v_nodeSelector, mrc_tolerations := v_tolerations,
           mrc_affinity := v_affinity, mrc_persistence := v_persistence, mrc_storage := v_storage,
           mrc_service := v_service, mrc_configFiles := v_configFiles,
           mrc_configMounts := v_configMounts, mrc_secretMounts := v_secretMounts,
           mrc_additionalVolumes := v_additionalVolumes, mrc_volumeMounts := v_volumeMounts,
           mrc_statefulSetUpdateStrategy := v_statefulSetUpdateStrategy,
           mrc_podManagementPolicy := v_podManagementPolicy,
           mrc_podDisruptionBudgetBeta1 := v_podDisruptionBudgetBeta1,
           mrc_podDisruptionBudget := v_podDisruptionBudget\<rparr>, m28)))))))))))))))))))))))))))))"

text \<open>The two map types: the receiver is the map itself, and a copy is made even of a nil map.\<close>

definition copied_map :: "addr option \<Rightarrow> configCell memory \<Rightarrow> string \<rightharpoonup> string" where
  "copied_map p m = (case p of None \<Rightarrow> Map.empty | Some a \<Rightarrow> string_map_at (m ! a))"

definition AppConfigData_DeepCopyInto :: "addr option \<Rightarrow> configCell memory \<Rightarrow> addr option \<times> configCell memory" where
  "AppConfigData_DeepCopyInto p m = (Some (length m), m @ [StringMapAt (copied_map p m)])"

definition AppConfigData_DeepCopy :: "addr option \<Rightarrow> configCell memory \<Rightarrow> addr option \<times> configCell memory" where
  "AppConfigData_DeepCopy p m = (if p = None then (None, m) else AppConfigData_DeepCopyInto p m)"

definition NodeSelectorSpec_DeepCopyInto :: "addr option \<Rightarrow> configCell memory \<Rightarrow> addr option \<times> configCell memory" where
  "NodeSelectorSpec_DeepCopyInto p m = (Some (length m), m @ [StringMapAt (copied_map p m)])"

definition NodeSelectorSpec_DeepCopy :: "addr option \<Rightarrow> configCell memory \<Rightarrow> addr option \<times> configCell memory" where
  "NodeSelectorSpec_DeepCopy p m = (if p = None then (None, m) else NodeSelectorSpec_DeepCopyInto p m)"

text \<open>\<^verbatim>\<open>DeepCopy\<close>: nil gives nil, otherwise a new struct is filled.\<close>

definition ImageSpec_DeepCopy :: "addr option \<Rightarrow> configCell memory \<Rightarrow> addr option \<times> configCell memory" where
  "ImageSpec_DeepCopy = copy_ref image_at ImageAt ImageSpec_DeepCopyInto"

definition WorkloadReference_DeepCopy ::
    "addr option \<Rightarrow> configCell memory \<Rightarrow> addr option \<times> configCell memory" where
  "WorkloadReference_DeepCopy = copy_ref workload_at WorkloadAt WorkloadReference_DeepCopyInto"

definition ConfigMountSpec_DeepCopy ::
    "configLib \<Rightarrow> addr option \<Rightarrow> configCell memory \<Rightarrow> addr option \<times> configCell memory" where
  "ConfigMountSpec_DeepCopy lib = copy_ref config_mount_at ConfigMountAt (ConfigMountSpec_DeepCopyInto lib)"

definition SecretMountSpec_DeepCopy ::
    "configLib \<Rightarrow> addr option \<Rightarrow> configCell memory \<Rightarrow> addr option \<times> configCell memory" where
  "SecretMountSpec_DeepCopy lib = copy_ref secret_mount_at SecretMountAt (SecretMountSpec_DeepCopyInto lib)"

definition PersistenceSpec_DeepCopy ::
    "configLib \<Rightarrow> addr option \<Rightarrow> configCell memory \<Rightarrow> addr option \<times> configCell memory" where
  "PersistenceSpec_DeepCopy lib = copy_ref persistence_at PersistenceAt (PersistenceSpec_DeepCopyInto lib)"

definition StorageSpec_DeepCopy ::
    "configLib \<Rightarrow> addr option \<Rightarrow> configCell memory \<Rightarrow> addr option \<times> configCell memory" where
  "StorageSpec_DeepCopy lib = copy_ref storage_at StorageAt (StorageSpec_DeepCopyInto lib)"

definition PortSpec_DeepCopy ::
    "addr option \<Rightarrow> configCell memory \<Rightarrow> addr option \<times> configCell memory" where
  "PortSpec_DeepCopy = copy_ref port_at PortAt PortSpec_DeepCopyInto"

definition ProbesConfig_DeepCopy ::
    "configLib \<Rightarrow> addr option \<Rightarrow> configCell memory \<Rightarrow> addr option \<times> configCell memory" where
  "ProbesConfig_DeepCopy lib = copy_ref probes_at ProbesAt (ProbesConfig_DeepCopyInto lib)"

definition ResourcesSpec_DeepCopy ::
    "configLib \<Rightarrow> addr option \<Rightarrow> configCell memory \<Rightarrow> addr option \<times> configCell memory" where
  "ResourcesSpec_DeepCopy lib = copy_ref resources_at ResourcesAt (ResourcesSpec_DeepCopyInto lib)"

definition ServiceAccountSpec_DeepCopy ::
    "addr option \<Rightarrow> configCell memory \<Rightarrow> addr option \<times> configCell memory" where
  "ServiceAccountSpec_DeepCopy = copy_ref service_account_at ServiceAccountAt ServiceAccountSpec_DeepCopyInto"

definition ServiceSpecPart_DeepCopy ::
    "configLib \<Rightarrow> addr option \<Rightarrow> configCell memory \<Rightarrow> addr option \<times> configCell memory" where
  "ServiceSpecPart_DeepCopy lib = copy_ref service_at ServiceAt (ServiceSpecPart_DeepCopyInto lib)"

definition RuntimeConfig_DeepCopy ::
    "configLib \<Rightarrow> addr option \<Rightarrow> configCell memory \<Rightarrow> addr option \<times> configCell memory" where
  "RuntimeConfig_DeepCopy lib = copy_ref config_at ConfigAt (RuntimeConfig_DeepCopyInto lib)"

subsection \<open>What the types look like, and where they lead\<close>

definition entry_view where
  "entry_view m e = (fst e, lib_view text_at m (snd e))"

definition entry_reach where
  "entry_reach m e = lib_reach m (snd e)"

definition configMount_view where
  "configMount_view m x =
     ((mcm_name x, mcm_volumeName x, mcm_mountPath x), ref_view string_at itself m (mcm_subPath x),
     ref_view libs_at (\<lambda>m. map (lib_view text_at m)) m (mcm_items x), ref_view bool_at
     itself m (mcm_readOnly x))"

definition configMount_reach where
  "configMount_reach m x =
     ref_reach string_at no_refs m (mcm_subPath x) \<union> (ref_reach libs_at (list_reach_of
     lib_reach) m (mcm_items x) \<union> (ref_reach bool_at no_refs m (mcm_readOnly x)))"

definition secretMount_view where
  "secretMount_view m x =
     ((msm_secretName x, msm_volumeName x, msm_mountPath x), ref_view libs_at (\<lambda>m. map
     (lib_view text_at m)) m (msm_items x), ref_view bool_at itself m (msm_readOnly x))"

definition secretMount_reach where
  "secretMount_reach m x =
     ref_reach libs_at (list_reach_of lib_reach) m (msm_items x) \<union> (ref_reach bool_at no_refs
     m (msm_readOnly x))"

definition persistence_view where
  "persistence_view m x =
     ((mps_enabled x, mps_volumeName x, mps_mountPath x), ref_view lib_at (lib_view text_at) m
     (mps_size x), ref_view string_at itself m (mps_storageClassName x), ref_view strings_at itself
     m (mps_accessModes x))"

definition persistence_reach where
  "persistence_reach m x =
     ref_reach lib_at lib_reach m (mps_size x) \<union> (ref_reach string_at no_refs m
     (mps_storageClassName x) \<union> (ref_reach strings_at no_refs m (mps_accessModes x)))"

definition storage_view where
  "storage_view m x =
     ((mst_enabled x, mst_volumeClaimTemplateName x, mst_mountPath x), ref_view lib_at (lib_view
     text_at) m (mst_size x), ref_view string_at itself m (mst_storageClassName x), ref_view
     strings_at itself m (mst_accessModes x), ref_view string_at itself m (mst_dataSubpath x))"

definition storage_reach where
  "storage_reach m x =
     ref_reach lib_at lib_reach m (mst_size x) \<union> (ref_reach string_at no_refs m
     (mst_storageClassName x) \<union> (ref_reach strings_at no_refs m (mst_accessModes x) \<union>
     (ref_reach string_at no_refs m (mst_dataSubpath x))))"

definition port_view where
  "port_view m x =
     ((mpo_name x, mpo_containerPort x, mpo_protocol x, mpo_nodePort x), ref_view int_or_string_at
     itself m (mpo_targetPort x))"

definition port_reach where
  "port_reach m x =
     ref_reach int_or_string_at no_refs m (mpo_targetPort x)"

definition probes_view where
  "probes_view m x =
     ((), ref_view lib_at (lib_view text_at) m (mpb_liveness x), ref_view lib_at (lib_view text_at)
     m (mpb_readiness x), ref_view lib_at (lib_view text_at) m (mpb_startup x))"

definition probes_reach where
  "probes_reach m x =
     ref_reach lib_at lib_reach m (mpb_liveness x) \<union> (ref_reach lib_at lib_reach m
     (mpb_readiness x) \<union> (ref_reach lib_at lib_reach m (mpb_startup x)))"

definition resources_view where
  "resources_view m x =
     ((), ref_view entries_at (\<lambda>m. map (entry_view m)) m (mre_limits x), ref_view entries_at
     (\<lambda>m. map (entry_view m)) m (mre_requests x))"

definition resources_reach where
  "resources_reach m x =
     ref_reach entries_at (list_reach_of entry_reach) m (mre_limits x) \<union> (ref_reach
     entries_at (list_reach_of entry_reach) m (mre_requests x))"

definition serviceAccount_view where
  "serviceAccount_view m x =
     (msa_name x, ref_view bool_at itself m (msa_create x), ref_view string_map_at itself m
     (msa_annotations x))"

definition serviceAccount_reach where
  "serviceAccount_reach m x =
     ref_reach bool_at no_refs m (msa_create x) \<union> (ref_reach string_map_at no_refs m
     (msa_annotations x))"

definition service_view where
  "service_view m x =
     ((), ref_view string_at itself m (msv_type x), ref_view ports_at (\<lambda>m. map (port_view
     m)) m (msv_ports x), ref_view string_map_at itself m (msv_annotations x), ref_view string_at
     itself m (msv_sessionAffinity x), ref_view lib_at (lib_view text_at) m
     (msv_sessionAffinityConfig x))"

definition service_reach where
  "service_reach m x =
     ref_reach string_at no_refs m (msv_type x) \<union> (ref_reach ports_at (list_reach_of
     port_reach) m (msv_ports x) \<union> (ref_reach string_map_at no_refs m (msv_annotations x)
     \<union> (ref_reach string_at no_refs m (msv_sessionAffinity x) \<union> (ref_reach lib_at
     lib_reach m (msv_sessionAffinityConfig x)))))"

definition config_view where
  "config_view m x =
     ((), ref_view int32_at itself m (mrc_replicas x), ref_view image_at itself m (mrc_image x),
     ref_view strings_at itself m (mrc_command x), ref_view strings_at itself m (mrc_args x),
     ref_view ports_at (\<lambda>m. map (port_view m)) m (mrc_ports x), ref_view lib_at (lib_view
     text_at) m (mrc_initContainer x), ref_view resources_at resources_view m (mrc_resources x),
     ref_view libs_at (\<lambda>m. map (lib_view text_at m)) m (mrc_env x), ref_view libs_at
     (\<lambda>m. map (lib_view text_at m)) m (mrc_envFrom x), ref_view probes_at probes_view m
     (mrc_probes x), ref_view lib_at (lib_view text_at) m (mrc_containerSecurityContext x), ref_view
     lib_at (lib_view text_at) m (mrc_podSecurityContext x), ref_view service_account_at
     serviceAccount_view m (mrc_serviceAccount x), ref_view string_map_at itself m (mrc_nodeSelector
     x), ref_view libs_at (\<lambda>m. map (lib_view text_at m)) m (mrc_tolerations x), ref_view
     lib_at (lib_view text_at) m (mrc_affinity x), ref_view persistence_at persistence_view m
     (mrc_persistence x), ref_view storage_at storage_view m (mrc_storage x), ref_view service_at
     service_view m (mrc_service x), ref_view string_map_at itself m (mrc_configFiles x), ref_view
     config_mounts_at (\<lambda>m. map (configMount_view m)) m (mrc_configMounts x), ref_view
     secret_mounts_at (\<lambda>m. map (secretMount_view m)) m (mrc_secretMounts x), ref_view
     libs_at (\<lambda>m. map (lib_view text_at m)) m (mrc_additionalVolumes x), ref_view libs_at
     (\<lambda>m. map (lib_view text_at m)) m (mrc_volumeMounts x), ref_view lib_at (lib_view
     text_at) m (mrc_statefulSetUpdateStrategy x), ref_view string_at itself m
     (mrc_podManagementPolicy x), ref_view lib_at (lib_view text_at) m (mrc_podDisruptionBudgetBeta1
     x), ref_view lib_at (lib_view text_at) m (mrc_podDisruptionBudget x))"

definition config_reach where
  "config_reach m x =
     ref_reach int32_at no_refs m (mrc_replicas x) \<union> (ref_reach image_at no_refs m (mrc_image
     x) \<union> (ref_reach strings_at no_refs m (mrc_command x) \<union> (ref_reach strings_at
     no_refs m (mrc_args x) \<union> (ref_reach ports_at (list_reach_of port_reach) m (mrc_ports x)
     \<union> (ref_reach lib_at lib_reach m (mrc_initContainer x) \<union> (ref_reach resources_at
     resources_reach m (mrc_resources x) \<union> (ref_reach libs_at (list_reach_of lib_reach) m
     (mrc_env x) \<union> (ref_reach libs_at (list_reach_of lib_reach) m (mrc_envFrom x) \<union>
     (ref_reach probes_at probes_reach m (mrc_probes x) \<union> (ref_reach lib_at lib_reach m
     (mrc_containerSecurityContext x) \<union> (ref_reach lib_at lib_reach m (mrc_podSecurityContext
     x) \<union> (ref_reach service_account_at serviceAccount_reach m (mrc_serviceAccount x)
     \<union> (ref_reach string_map_at no_refs m (mrc_nodeSelector x) \<union> (ref_reach libs_at
     (list_reach_of lib_reach) m (mrc_tolerations x) \<union> (ref_reach lib_at lib_reach m
     (mrc_affinity x) \<union> (ref_reach persistence_at persistence_reach m (mrc_persistence x)
     \<union> (ref_reach storage_at storage_reach m (mrc_storage x) \<union> (ref_reach service_at
     service_reach m (mrc_service x) \<union> (ref_reach string_map_at no_refs m (mrc_configFiles x)
     \<union> (ref_reach config_mounts_at (list_reach_of configMount_reach) m (mrc_configMounts x)
     \<union> (ref_reach secret_mounts_at (list_reach_of secretMount_reach) m (mrc_secretMounts x)
     \<union> (ref_reach libs_at (list_reach_of lib_reach) m (mrc_additionalVolumes x) \<union>
     (ref_reach libs_at (list_reach_of lib_reach) m (mrc_volumeMounts x) \<union> (ref_reach lib_at
     lib_reach m (mrc_statefulSetUpdateStrategy x) \<union> (ref_reach string_at no_refs m
     (mrc_podManagementPolicy x) \<union> (ref_reach lib_at lib_reach m
     (mrc_podDisruptionBudgetBeta1 x) \<union> (ref_reach lib_at lib_reach m
     (mrc_podDisruptionBudget x))))))))))))))))))))))))))))"

subsection \<open>The generated copies are deep\<close>

definition config_library :: "configLib \<Rightarrow> bool" where
  "config_library lib \<longleftrightarrow> (\<forall>t. deep_copy (lib t) (lib_view text_at) lib_reach)"

interpretation image: deep_copy ImageSpec_DeepCopyInto itself no_refs
  by unfold_locales (auto simp: copy_plain_def ImageSpec_DeepCopyInto_def)

interpretation workload: deep_copy WorkloadReference_DeepCopyInto itself no_refs
  by unfold_locales (auto simp: copy_plain_def WorkloadReference_DeepCopyInto_def)

lemma entry_deep:
  assumes "deep_copy copy (lib_view text_at) lib_reach"
  shows "deep_copy (copy_entry copy) entry_view entry_reach"
proof -
  from deep_copy.structs [OF assms, of snd "\<lambda>e v. (fst e, v)" fst] show ?thesis
    by (simp add: copy_entry_def [abs_def] entry_view_def [abs_def] entry_reach_def [abs_def])
qed

text \<open>Pointers and slices of library types.\<close>

lemma lib_refs:
  assumes "config_library lib"
  shows "deep_copy (copy_ref lib_at LibAt (lib t)) (ref_view lib_at (lib_view text_at)) (ref_reach lib_at lib_reach)"
    "deep_copy (copy_ref libs_at LibsAt (copy_list (lib t)))
      (ref_view libs_at (\<lambda>m. map (lib_view text_at m))) (ref_reach libs_at (list_reach_of lib_reach))"
    "deep_copy (copy_ref entries_at EntriesAt (copy_list (copy_entry (lib t))))
      (ref_view entries_at (\<lambda>m. map (entry_view m))) (ref_reach entries_at (list_reach_of entry_reach))"
proof -
  from assms have deep: "deep_copy (lib t) (lib_view text_at) lib_reach" by (simp add: config_library_def)
  show "deep_copy (copy_ref lib_at LibAt (lib t)) (ref_view lib_at (lib_view text_at)) (ref_reach lib_at lib_reach)"
    by (rule deep_copy.refs [OF deep]) simp
  show "deep_copy (copy_ref libs_at LibsAt (copy_list (lib t)))
      (ref_view libs_at (\<lambda>m. map (lib_view text_at m))) (ref_reach libs_at (list_reach_of lib_reach))"
    by (rule deep_copy.refs [OF deep_copy.lists [OF deep]]) simp
  show "deep_copy (copy_ref entries_at EntriesAt (copy_list (copy_entry (lib t))))
      (ref_view entries_at (\<lambda>m. map (entry_view m))) (ref_reach entries_at (list_reach_of entry_reach))"
    by (rule deep_copy.refs [OF deep_copy.lists [OF entry_deep [OF deep]]]) simp
qed

lemmas bool_ref = plain.refs [of bool_at BoolAt, OF configCell.sel(1)]
lemmas string_ref = plain.refs [of string_at StringAt, OF configCell.sel(2)]
lemmas int32_ref = plain.refs [of int32_at Int32At, OF configCell.sel(3)]
lemmas int_or_string_ref = plain.refs [of int_or_string_at IntOrStringAt, OF configCell.sel(4)]
lemmas strings_ref = plain.refs [of strings_at StringsAt, OF configCell.sel(5)]
lemmas string_map_ref = plain.refs [of string_map_at StringMapAt, OF configCell.sel(6)]
lemmas image_ref = image.refs [of image_at ImageAt, OF configCell.sel(11)]

lemma configMount_deep:
  assumes "config_library lib"
  shows "deep_copy (ConfigMountSpec_DeepCopyInto lib) configMount_view configMount_reach"
proof -
  note lib = lib_refs [OF assms]
  note parts = deep_copy_pair [OF string_ref deep_copy_pair [OF lib(2) bool_ref]]
  from deep_copy.structs [OF parts, of
      "\<lambda>x. (mcm_subPath x, mcm_items x, mcm_readOnly x)"
      "\<lambda>x (v_subPath, v_items, v_readOnly). x\<lparr>mcm_subPath := v_subPath, mcm_items :=
      v_items, mcm_readOnly := v_readOnly\<rparr>"
      "\<lambda>x. (mcm_name x, mcm_volumeName x, mcm_mountPath x)"]
  show ?thesis
    by (simp add: ConfigMountSpec_DeepCopyInto_def [abs_def] configMount_view_def [abs_def]
        configMount_reach_def [abs_def] case_case_prod split_paired_all)
qed

lemmas config_mounts_ref =
  deep_copy.refs [OF deep_copy.lists [OF configMount_deep], of _ config_mounts_at ConfigMountsAt, OF _ configCell.sel(22)]

lemma secretMount_deep:
  assumes "config_library lib"
  shows "deep_copy (SecretMountSpec_DeepCopyInto lib) secretMount_view secretMount_reach"
proof -
  note lib = lib_refs [OF assms]
  note parts = deep_copy_pair [OF lib(2) bool_ref]
  from deep_copy.structs [OF parts, of
      "\<lambda>x. (msm_items x, msm_readOnly x)"
      "\<lambda>x (v_items, v_readOnly). x\<lparr>msm_items := v_items, msm_readOnly :=
      v_readOnly\<rparr>"
      "\<lambda>x. (msm_secretName x, msm_volumeName x, msm_mountPath x)"]
  show ?thesis
    by (simp add: SecretMountSpec_DeepCopyInto_def [abs_def] secretMount_view_def [abs_def]
        secretMount_reach_def [abs_def] case_case_prod split_paired_all)
qed

lemmas secret_mounts_ref =
  deep_copy.refs [OF deep_copy.lists [OF secretMount_deep], of _ secret_mounts_at SecretMountsAt, OF _ configCell.sel(24)]

lemma persistence_deep:
  assumes "config_library lib"
  shows "deep_copy (PersistenceSpec_DeepCopyInto lib) persistence_view persistence_reach"
proof -
  note lib = lib_refs [OF assms]
  note parts = deep_copy_pair [OF lib(1) deep_copy_pair [OF string_ref strings_ref]]
  from deep_copy.structs [OF parts, of
      "\<lambda>x. (mps_size x, mps_storageClassName x, mps_accessModes x)"
      "\<lambda>x (v_size, v_storageClassName, v_accessModes). x\<lparr>mps_size := v_size,
      mps_storageClassName := v_storageClassName, mps_accessModes := v_accessModes\<rparr>"
      "\<lambda>x. (mps_enabled x, mps_volumeName x, mps_mountPath x)"]
  show ?thesis
    by (simp add: PersistenceSpec_DeepCopyInto_def [abs_def] persistence_view_def [abs_def]
        persistence_reach_def [abs_def] case_case_prod split_paired_all)
qed

lemmas persistence_ref =
  deep_copy.refs [OF persistence_deep, of _ persistence_at PersistenceAt, OF _ configCell.sel(18)]

lemma storage_deep:
  assumes "config_library lib"
  shows "deep_copy (StorageSpec_DeepCopyInto lib) storage_view storage_reach"
proof -
  note lib = lib_refs [OF assms]
  note parts = deep_copy_pair [OF lib(1) deep_copy_pair [OF string_ref deep_copy_pair [OF
    strings_ref string_ref]]]
  from deep_copy.structs [OF parts, of
      "\<lambda>x. (mst_size x, mst_storageClassName x, mst_accessModes x, mst_dataSubpath x)"
      "\<lambda>x (v_size, v_storageClassName, v_accessModes, v_dataSubpath). x\<lparr>mst_size :=
      v_size, mst_storageClassName := v_storageClassName, mst_accessModes := v_accessModes,
      mst_dataSubpath := v_dataSubpath\<rparr>"
      "\<lambda>x. (mst_enabled x, mst_volumeClaimTemplateName x, mst_mountPath x)"]
  show ?thesis
    by (simp add: StorageSpec_DeepCopyInto_def [abs_def] storage_view_def [abs_def]
        storage_reach_def [abs_def] case_case_prod split_paired_all)
qed

lemmas storage_ref =
  deep_copy.refs [OF storage_deep, of _ storage_at StorageAt, OF _ configCell.sel(19)]

lemma port_deep:
  shows "deep_copy PortSpec_DeepCopyInto port_view port_reach"
proof -
  note parts = int_or_string_ref
  from deep_copy.structs [OF parts, of
      "\<lambda>x. mpo_targetPort x"
      "\<lambda>x (v_targetPort). x\<lparr>mpo_targetPort := v_targetPort\<rparr>"
      "\<lambda>x. (mpo_name x, mpo_containerPort x, mpo_protocol x, mpo_nodePort x)"]
  show ?thesis
    by (simp add: PortSpec_DeepCopyInto_def [abs_def] port_view_def [abs_def]
        port_reach_def [abs_def] case_case_prod split_paired_all)
qed

lemmas ports_ref =
  deep_copy.refs [OF deep_copy.lists [OF port_deep], of ports_at PortsAt, OF configCell.sel(14)]

lemma probes_deep:
  assumes "config_library lib"
  shows "deep_copy (ProbesConfig_DeepCopyInto lib) probes_view probes_reach"
proof -
  note lib = lib_refs [OF assms]
  note parts = deep_copy_pair [OF lib(1) deep_copy_pair [OF lib(1) lib(1)]]
  from deep_copy.structs [OF parts, of
      "\<lambda>x. (mpb_liveness x, mpb_readiness x, mpb_startup x)"
      "\<lambda>x (v_liveness, v_readiness, v_startup). x\<lparr>mpb_liveness := v_liveness,
      mpb_readiness := v_readiness, mpb_startup := v_startup\<rparr>"
      "\<lambda>x. ()"]
  show ?thesis
    by (simp add: ProbesConfig_DeepCopyInto_def [abs_def] probes_view_def [abs_def]
        probes_reach_def [abs_def] case_case_prod split_paired_all)
qed

lemmas probes_ref =
  deep_copy.refs [OF probes_deep, of _ probes_at ProbesAt, OF _ configCell.sel(16)]

lemma resources_deep:
  assumes "config_library lib"
  shows "deep_copy (ResourcesSpec_DeepCopyInto lib) resources_view resources_reach"
proof -
  note lib = lib_refs [OF assms]
  note parts = deep_copy_pair [OF lib(3) lib(3)]
  from deep_copy.structs [OF parts, of
      "\<lambda>x. (mre_limits x, mre_requests x)"
      "\<lambda>x (v_limits, v_requests). x\<lparr>mre_limits := v_limits, mre_requests :=
      v_requests\<rparr>"
      "\<lambda>x. ()"]
  show ?thesis
    by (simp add: ResourcesSpec_DeepCopyInto_def [abs_def] resources_view_def [abs_def]
        resources_reach_def [abs_def] case_case_prod split_paired_all)
qed

lemmas resources_ref =
  deep_copy.refs [OF resources_deep, of _ resources_at ResourcesAt, OF _ configCell.sel(15)]

lemma serviceAccount_deep:
  shows "deep_copy ServiceAccountSpec_DeepCopyInto serviceAccount_view serviceAccount_reach"
proof -
  note parts = deep_copy_pair [OF bool_ref string_map_ref]
  from deep_copy.structs [OF parts, of
      "\<lambda>x. (msa_create x, msa_annotations x)"
      "\<lambda>x (v_create, v_annotations). x\<lparr>msa_create := v_create, msa_annotations :=
      v_annotations\<rparr>"
      "\<lambda>x. msa_name x"]
  show ?thesis
    by (simp add: ServiceAccountSpec_DeepCopyInto_def [abs_def] serviceAccount_view_def [abs_def]
        serviceAccount_reach_def [abs_def] case_case_prod split_paired_all)
qed

lemmas service_account_ref =
  deep_copy.refs [OF serviceAccount_deep, of service_account_at ServiceAccountAt, OF configCell.sel(17)]

lemma service_deep:
  assumes "config_library lib"
  shows "deep_copy (ServiceSpecPart_DeepCopyInto lib) service_view service_reach"
proof -
  note lib = lib_refs [OF assms]
  note parts = deep_copy_pair [OF string_ref deep_copy_pair [OF ports_ref deep_copy_pair [OF
    string_map_ref deep_copy_pair [OF string_ref lib(1)]]]]
  from deep_copy.structs [OF parts, of
      "\<lambda>x. (msv_type x, msv_ports x, msv_annotations x, msv_sessionAffinity x,
      msv_sessionAffinityConfig x)"
      "\<lambda>x (v_type, v_ports, v_annotations, v_sessionAffinity, v_sessionAffinityConfig).
      x\<lparr>msv_type := v_type, msv_ports := v_ports, msv_annotations := v_annotations,
      msv_sessionAffinity := v_sessionAffinity, msv_sessionAffinityConfig :=
      v_sessionAffinityConfig\<rparr>"
      "\<lambda>x. ()"]
  show ?thesis
    by (simp add: ServiceSpecPart_DeepCopyInto_def [abs_def] service_view_def [abs_def]
        service_reach_def [abs_def] case_case_prod split_paired_all)
qed

lemmas service_ref =
  deep_copy.refs [OF service_deep, of _ service_at ServiceAt, OF _ configCell.sel(20)]

lemma config_deep:
  assumes "config_library lib"
  shows "deep_copy (RuntimeConfig_DeepCopyInto lib) config_view config_reach"
proof -
  note lib = lib_refs [OF assms]
  note parts = deep_copy_pair [OF int32_ref deep_copy_pair [OF image_ref deep_copy_pair [OF
    strings_ref deep_copy_pair [OF strings_ref deep_copy_pair [OF ports_ref deep_copy_pair [OF lib(1)
    deep_copy_pair [OF resources_ref [OF assms] deep_copy_pair [OF lib(2) deep_copy_pair [OF lib(2)
    deep_copy_pair [OF probes_ref [OF assms] deep_copy_pair [OF lib(1) deep_copy_pair [OF lib(1)
    deep_copy_pair [OF service_account_ref deep_copy_pair [OF string_map_ref deep_copy_pair [OF lib(2)
    deep_copy_pair [OF lib(1) deep_copy_pair [OF persistence_ref [OF assms] deep_copy_pair [OF
    storage_ref [OF assms] deep_copy_pair [OF service_ref [OF assms] deep_copy_pair [OF string_map_ref
    deep_copy_pair [OF config_mounts_ref [OF assms] deep_copy_pair [OF secret_mounts_ref [OF assms]
    deep_copy_pair [OF lib(2) deep_copy_pair [OF lib(2) deep_copy_pair [OF lib(1) deep_copy_pair [OF
    string_ref deep_copy_pair [OF lib(1) lib(1)]]]]]]]]]]]]]]]]]]]]]]]]]]]
  from deep_copy.structs [OF parts, of
      "\<lambda>x. (mrc_replicas x, mrc_image x, mrc_command x, mrc_args x, mrc_ports x,
      mrc_initContainer x, mrc_resources x, mrc_env x, mrc_envFrom x, mrc_probes x,
      mrc_containerSecurityContext x, mrc_podSecurityContext x, mrc_serviceAccount x,
      mrc_nodeSelector x, mrc_tolerations x, mrc_affinity x, mrc_persistence x, mrc_storage x,
      mrc_service x, mrc_configFiles x, mrc_configMounts x, mrc_secretMounts x,
      mrc_additionalVolumes x, mrc_volumeMounts x, mrc_statefulSetUpdateStrategy x,
      mrc_podManagementPolicy x, mrc_podDisruptionBudgetBeta1 x, mrc_podDisruptionBudget x)"
      "\<lambda>x (v_replicas, v_image, v_command, v_args, v_ports, v_initContainer, v_resources,
      v_env, v_envFrom, v_probes, v_containerSecurityContext, v_podSecurityContext,
      v_serviceAccount, v_nodeSelector, v_tolerations, v_affinity, v_persistence, v_storage,
      v_service, v_configFiles, v_configMounts, v_secretMounts, v_additionalVolumes, v_volumeMounts,
      v_statefulSetUpdateStrategy, v_podManagementPolicy, v_podDisruptionBudgetBeta1,
      v_podDisruptionBudget). x\<lparr>mrc_replicas := v_replicas, mrc_image := v_image, mrc_command
      := v_command, mrc_args := v_args, mrc_ports := v_ports, mrc_initContainer := v_initContainer,
      mrc_resources := v_resources, mrc_env := v_env, mrc_envFrom := v_envFrom, mrc_probes :=
      v_probes, mrc_containerSecurityContext := v_containerSecurityContext, mrc_podSecurityContext
      := v_podSecurityContext, mrc_serviceAccount := v_serviceAccount, mrc_nodeSelector :=
      v_nodeSelector, mrc_tolerations := v_tolerations, mrc_affinity := v_affinity, mrc_persistence
      := v_persistence, mrc_storage := v_storage, mrc_service := v_service, mrc_configFiles :=
      v_configFiles, mrc_configMounts := v_configMounts, mrc_secretMounts := v_secretMounts,
      mrc_additionalVolumes := v_additionalVolumes, mrc_volumeMounts := v_volumeMounts,
      mrc_statefulSetUpdateStrategy := v_statefulSetUpdateStrategy, mrc_podManagementPolicy :=
      v_podManagementPolicy, mrc_podDisruptionBudgetBeta1 := v_podDisruptionBudgetBeta1,
      mrc_podDisruptionBudget := v_podDisruptionBudget\<rparr>"
      "\<lambda>x. ()"]
  show ?thesis
    by (simp add: RuntimeConfig_DeepCopyInto_def [abs_def] config_view_def [abs_def]
        config_reach_def [abs_def] case_case_prod split_paired_all)
qed

lemma map_copies_deep:
  "AppConfigData_DeepCopy = copy_ref string_map_at StringMapAt copy_plain"
  "NodeSelectorSpec_DeepCopy = copy_ref string_map_at StringMapAt copy_plain"
  by (auto simp: fun_eq_iff AppConfigData_DeepCopy_def AppConfigData_DeepCopyInto_def
      NodeSelectorSpec_DeepCopy_def NodeSelectorSpec_DeepCopyInto_def copied_map_def copy_ref_def
      copy_plain_def split: option.splits)

subsection \<open>Properties\<close>

text \<open>
  A deep copy of a configuration shares no memory with the original: the copy does not see what is
  written to the memory that existed before, nor the original what is written to new memory.
\<close>

theorem config_copies_share_nothing:
  assumes "config_library lib" "ref_reach config_at config_reach m p \<subseteq> {..<length m}"
    and "RuntimeConfig_DeepCopy lib p m = (p', m')"
  shows "(\<forall>m''. (\<forall>a. length m \<le> a \<longrightarrow> a < length m' \<longrightarrow> m'' ! a = m' ! a) \<longrightarrow>
      ref_view config_at config_view m'' p' = ref_view config_at config_view m p) \<and>
    (\<forall>m''. (\<forall>a < length m. m'' ! a = m' ! a) \<longrightarrow>
      ref_view config_at config_view m'' p = ref_view config_at config_view m p)"
proof -
  have "deep_copy (RuntimeConfig_DeepCopy lib) (ref_view config_at config_view) (ref_reach config_at config_reach)"
    unfolding RuntimeConfig_DeepCopy_def by (rule deep_copy.refs [OF config_deep [OF assms(1)]]) simp
  from deep_copy.apart [OF this assms(2,3)] show ?thesis .
qed

definition copying_config_library :: configLib where
  "copying_config_library t = copy_lib_value text_at TextAt"

lemma copying_config_library: "config_library copying_config_library"
  by (simp add: config_library_def copying_config_library_def copy_lib_value_deep)

end
