(* ===== verification/Spec2Isabelle.thy ===== *)
theory Spec2Isabelle
  imports Convergence LifeCycles DesiredObjects CallBounds Deletion Payloads Tasks Startup DeepCopies
    ConfigCopies
begin

text \<open>
  The runtime operator is a Kubernetes controller. It watches ApplicationDefinition objects; for each
  one it builds the objects of its components, applies them, checks their health, and writes what it
  found into the status of the application.

  How the program is laid out, and which theory models which part:

  GoStrings, K8sTypes: what the code uses of the Go library (string functions, integer printing and
  parsing, errors) and the fields of the Kubernetes types it reads or writes. Fields that are only
  passed on are opaque strings.

  AppTypes (src/api/app/v1/applicationdefinition_types.go, src/pkg/apis/common/types.go, constants.go):
  the application and its status, the configuration of a component, and the namespace of the operator.

  Memory, DeepCopies (src/api/app/v1/zz_generated.deepcopy.go), ConfigCopies
  (src/pkg/apis/common/zz_generated.deepcopy.go): the deep copies of the application and configuration
  types on an explicit memory (a list of cells, an address is an index). The other theories treat an
  application as a value although the code holds it behind pointers; DeepCopies shows that the status the
  controller copies to compare with later is not touched by what it does in place.

  Json, Sha256: JSON documents of strings, numbers and objects as encoding/json writes them (the keys of a
  map in order, strings escaped, broken UTF-8 replaced); the text determines a document of valid strings.
  And crypto/sha256 on 32 bit words, with the hexadecimal text of a digest.

  Helpers, Volumes, Builder, RuntimeBuilder (src/pkg/builders/k8s, src/pkg/builders/runtime/builder.go):
  from a configuration to a StatefulSet, its services, ConfigMaps, service account and claims. Go maps
  are HOL maps. BuildObjects takes the hash of a ConfigMap and the clock as arguments; the controller
  hands it HashConfigMap, which rests on Json and Sha256. The label map that BuildObjects
  shares between the objects it builds shows where the controller labels them (apply_labels also
  labels the claim templates).

  Registry (src/pkg/strategy/registry.go, src/pkg/apis/common/util/util.go): the registration of
  strategies, whose panics are values of a sum type, and the server version test.

  Cluster: the API server as seen through the clients. A record of functions on an arbitrary state
  'w: every call may answer anything and change the state in any way. What a property relies on is a
  named law, a hypothesis of the property (status_echo: an accepted status update returns the object it
  was given; finalizer_law, condition_law, owner_ref_law, gvk_law: the documented behaviour of
  controllerutil, meta and the scheme; range_law: a range over a map visits each key once, in any
  order). Examples holds clusters for which all the laws are proved and which the witnesses run on.

  Apply, Health (src/internal/controller/common/kubeutil): applying an object with up to three
  attempts on conflicts, and the verdict on the health of an object. Replica counts are 32 bit words
  and compared as signed numbers.

  Status, ReconcileState, PauseResume, Phases, Updates, Process, Rollout, Controller, Runs
  (src/internal/controller/app): the reconciler. reconcileState is the state of one run: the
  application, the objects, the status of the components (an association list, as a Go map whose order
  of iteration is the parameter lib_range), the results, and the log of what was recorded. Every loop
  over attempts is a recursion on the number of attempts left; it starts with three, as in the code,
  so every run ends, and running out of attempts is the value Exhausted. Each step of Reconcile takes
  the state and the world and returns them changed; a panic is the left value of the sum. Phases holds
  the abstract life cycle that determineFinalPhase refines (next_phase, phase_step); Runs composes the
  lemmas of the steps into lemmas on whole runs.

  Convergence and Histories look at sequences of runs. Convergence: on a cluster that accepts what it is
  given, keeps the objects that are created (present) and rolls its workloads out after some number of
  reads (delay), the runs reach Running; the measure is work_left, so two runs more than the delay are enough. Histories: runs on any requests in
  any order, with whatever others do in between (operator_history), and the invariant that every status
  that was ever stored is consistent. LifeCycles: the statuses that were ever stored for each application
  as a log (status_log is what the API does to it); every entry steps, by the life cycle, from an older
  one of the same log, the one that the run has read.

  DesiredObjects: the typing of the objects from the builders through labels, scaling and owner
  references. Observers: a cluster that keeps a record beside the world of another answers as the other
  does, and then every operation of the controller does the same on both; so what is proved of runs that are
  recorded holds of the runs themselves. CallBounds: what each part of a run costs in requests to the API,
  for any way to count them by which a call of the client is at most one and a call of operator-tools at
  most h (metered); counting is a cluster with such a counter. The bounds are sums over the retry loops
  (three attempts of two calls), the objects (a read, a creation and three attempts each, at most five
  objects for a component) and the components (two calls of the
  health check each). Requests: a cluster that writes every call down (recording) and what a run may ask of
  the API for the application it has read (permitted). That the API answers about what it is asked
  (addressed) is the law it rests on. Deletion: one run releases a deleted application on an API server
  with at most two conflicts to come (deletion_law).

  CommandLine, Startup (src/cmd/main.go, SetupWithManager of the controller): the flags and the Go parser
  for them, and the program from init to the start of the manager. The calls of the start-up to
  controller-runtime are the values of hostCall, answered by a parameter; the plan of the start-up
  (startup_plan) is the list of these calls, and main_with carries it out.

  WebRecorder, Payloads (src/pkg/webrecorder/recorder.go): the webhook recorder as a step relation over
  time (the check for a duplicate, the mark that follows it and starts a delivery, the clean-up) with its
  invariant, in which checks and marks of several goroutines may interleave; sendEvent as a function of the answers of the receiver,
  and the JSON text of an event with a reader for it.

  Tasks (src/pkg/reconcilers): the task runner, its tasks and the reconcile strategy. The controller
  does not call them; they share Apply and Health with it.

  The interfaces are locales, interpreted on the model: conflict_retry (the four retry loops of Updates),
  strategy_registry (both registries), builder_strategy (what the controller relies on of a builder),
  mount_source (the two kinds of configuration mounts of Volumes), deep_copy (the copies on memory),
  task_list (the task lists of the reconcile strategy), typed_strategy (a builder_strategy whose
  objects are well typed and bounded in number) and observed (a cluster and one that keeps a record beside
  it, interpreted on counting and recording). The two strategy interfaces of src/pkg/strategy are the
  records appBuilderStrategy (Process) and appReconcileStrategy (Tasks).

  What the properties show: accepted applications get to Running on a cluster that cooperates; whatever
  happens, what is stored is consistent and follows the life cycle, over any number of runs; a run moves the
  phase along the life cycle, makes a bounded number of requests, and asks of the API only what concerns its
  own application (it deletes claims or kinds of objects only for an application that is being deleted or has no
  components); Running, Degraded and a missing error
  mean what they say about components and objects; accepted configurations are built, and what is built is
  consistent (types, labels, selectors, mounts, ports, names); the pods are restarted exactly when the
  configuration files change; the finalizer brackets the work and the
  clean-up, and goes when at most two writes conflict; panics happen only through a race; suspension and resumption invert each other; the
  verdicts on health have closed forms; conflicts are retried and errors are reported with their
  origin; webhook deliveries are spaced, bounded and readable; the start-up makes its calls in order and ends at the first
  failure. Some properties pin down behaviour that looks unintended
  (lost_finalizer_removal, unworkable_applications_stay, concurrent_edit_panics,
  failed_suspension_sticks, silent_runs); the last
  section of this theory holds further observations of that kind.

  Not modelled: logging; the start of goroutines (a post to a webhook is an output of the run). HTTP,
  the decoding of component properties (into types of the Kubernetes packages), the scheme, the manager of
  controller-runtime, the deep copies of the Kubernetes types and the API server are parameters: their code
  is not part of the repository. The files of src/pkg/builders without functions have nothing to model.
\<close>

section \<open>The life cycle\<close>

text \<open>
  C5. A run, from the object that the finalizer step leaves to the object it ends with, is one step of
  the life cycle of phases: set-up, a cycle with its outcome, suspension, resumption, failure, or no
  change. This covers every way a run ends, conflicts and failed status writes included.
\<close>

theorem run_is_a_phase_step:
  assumes "status_echo k" "run_initialised k reg st w = Inr ((res, st'), w')"
    and "handleFinalizer k (rs_appDef st) w = ((out, app1), w1)"
  shows "phase_step (app_phase app1) (app_phase (rs_appDef st'))"
  by (rule run_initialised_phase_step [OF assms])

text \<open>The finalizer step of the example leaves it alone.\<close>

lemma managed_app_simps [simp]:
  "om_deletionTimestamp (ad_meta (managed_app p s)) = None" "has_finalizer example_cluster (managed_app p s)"
  "app_phase (managed_app p s) = p" "is_suspended (managed_app p s) = (s = Some True)"
  "as_components (ad_spec (managed_app p s)) = [example_component]"
  "app_namespace (managed_app p s) = ''default''"
  by (simp_all add: managed_app_def example_app_def empty_meta_def has_finalizer_def example_cluster_def
      bare_cluster_def app_phase_def is_suspended_def app_namespace_def)

lemma example_state_simps [simp]:
  "rs_appDef (example_state app) = app" "rs_firstError (example_state app) = None"
  "rs_componentStatuses (example_state app) = [(''web'', initial_status ''web'')]"
  by (simp_all add: example_state_def fresh_state_def)

lemma example_no_panic:
  "run_initialised example_cluster example_registry (example_state (managed_app p s)) w \<noteq> Inl msg"
proof (rule run_initialised_no_panic)
  show "handleFinalizer example_cluster (rs_appDef (example_state (managed_app p s))) w =
      (((False, None), managed_app p s), w)"
    by (simp add: handleFinalizer_present)
qed (simp_all add: example_component_def)

theorem run_is_a_phase_step_witness:
  "\<exists>st'. phase_step ApplicationPhaseUnset (app_phase (rs_appDef st')) \<and>
     (\<exists>res w'. run_initialised example_cluster example_registry
        (example_state (managed_app ApplicationPhaseUnset None)) (quiet_world (managed_app ApplicationPhaseUnset None))
        = Inr ((res, st'), w'))"
proof -
  let ?app = "managed_app ApplicationPhaseUnset None"
  obtain res st' w' where run: "run_initialised example_cluster example_registry (example_state ?app)
      (quiet_world ?app) = Inr ((res, st'), w')"
    using example_no_panic by (metis sum.exhaust surj_pair)
  have "handleFinalizer example_cluster (rs_appDef (example_state ?app)) (quiet_world ?app) =
      (((False, None), ?app), quiet_world ?app)"
    by (simp add: handleFinalizer_present)
  from run_is_a_phase_step [OF example_laws(2) run this] run show ?thesis by auto
qed









section \<open>Building the components\<close>

text \<open>
  C11. An application whose components all unmarshal to a configuration the runtime builder accepts is
  processed: no component is refused, no object is unnamed, and nothing panics.
\<close>

theorem accepted_applications_are_built:
  assumes "list_all (component_accepted k) (as_components (ad_spec (rs_appDef st)))"
    and "GetAppBuilderStrategy reg ''operator'' = Some RuntimeBuilderStrategy"
    and "ac_name ` set (as_components (ad_spec (rs_appDef st))) \<subseteq> fst ` set (rs_componentStatuses st)"
    and "app_namespace (rs_appDef st) \<noteq> []"
  shows "fst (processComponentsAndBuildObjects k reg st) = Processed"
proof -
  let ?st = "st\<lparr>rs_desiredObjects := []\<rparr>"
  have "fst (process_components k reg (as_components (ad_spec (rs_appDef st))) ?st) = Processed"
    by (rule process_components_accepted) (use assms in \<open>simp_all add: list_all_iff\<close>)
  then obtain st1 where "process_components k reg (as_components (ad_spec (rs_appDef st))) ?st = (Processed, st1)"
    by (metis prod.collapse)
  moreover obtain st2 where "handlePauseResume st1 = (None, st2)"
    by (metis handlePauseResume_None prod.collapse)
  ultimately show ?thesis by (simp add: processComponentsAndBuildObjects_def)
qed

lemma example_component_accepted: "component_accepted example_cluster example_component"
  by (rule example_accepted) (simp add: example_cluster_def)

theorem accepted_applications_are_built_witness:
  "fst (processComponentsAndBuildObjects example_cluster example_registry example_start) = Processed"
proof (rule accepted_applications_are_built)
  show "list_all (component_accepted example_cluster) (as_components (ad_spec (rs_appDef example_start)))"
    by (simp add: example_component_accepted)
qed (simp_all add: GetAppBuilderStrategy_def example_registry_def example_component_def)

text \<open>
  C12. What processing leaves to be applied is, for each component in order, what its strategy built for
  it from its own properties. Each of these objects has a name and a namespace and carries the labels that
  the operator finds its objects by: the application, the type, the component that it was built for and the
  manager. So do the volume claim templates of a workload with the application and the component, and it
  is by the first that the clean-up of a deleted application finds the claims.
\<close>

theorem desired_objects_are_labelled:
  assumes "processComponentsAndBuildObjects k reg st = (Processed, st')"
  shows "\<exists>objss. rs_desiredObjects st' = concat objss \<and>
    list_all2 (\<lambda>c objs. built_by k reg (rs_appDef st) c objs \<and>
        (\<forall>obj \<in> set objs. labelled_for (rs_appDef st) c obj))
      (as_components (ad_spec (rs_appDef st))) objss"
proof -
  from processed_built [OF assms] obtain objss where "rs_desiredObjects st' = concat objss"
    and "list_all2 (built_by k reg (rs_appDef st)) (as_components (ad_spec (rs_appDef st))) objss" by blast
  then show ?thesis by (auto elim!: list_all2_mono intro: built_by_labelled)
qed

text \<open>An application with two components: the objects of the second carry the name of the second.\<close>

definition two_components :: "applicationComponent list" where
  "two_components = [example_component, example_component\<lparr>ac_name := ''db''\<rparr>]"

definition two_component_state :: reconcileState where
  "two_component_state = (fresh_state ((managed_app ApplicationPhaseCreating None)
       \<lparr>ad_spec := (ad_spec (managed_app ApplicationPhaseCreating None))\<lparr>as_components := two_components\<rparr>\<rparr>))
     \<lparr>rs_componentStatuses := [(''web'', initial_status ''web''), (''db'', initial_status ''db'')]\<rparr>"

theorem desired_objects_are_labelled_witness:
  "\<exists>st' of_web of_db.
     processComponentsAndBuildObjects example_cluster example_registry two_component_state = (Processed, st') \<and>
     rs_desiredObjects st' = of_web @ of_db \<and> length (of_web @ of_db) = 6 \<and>
     (\<forall>obj \<in> set of_web. get_labels obj CompInstanceLabel = Some ''web'') \<and>
     (\<forall>obj \<in> set of_db. get_labels obj CompInstanceLabel = Some ''db'')"
proof -
  let ?r = "processComponentsAndBuildObjects example_cluster example_registry two_component_state"
  have "fst ?r = Processed \<and> length (rs_desiredObjects (snd ?r)) = 6" by code_simp
  then obtain st' where st': "?r = (Processed, st')" "length (rs_desiredObjects st') = 6" by (metis prod.collapse)
  have comps: "as_components (ad_spec (rs_appDef two_component_state)) = two_components"
    by (simp add: two_component_state_def fresh_state_def)
  from desired_objects_are_labelled [OF st'(1)] obtain of_web of_db where
    "rs_desiredObjects st' = of_web @ of_db"
    "\<forall>obj \<in> set of_web. labelled_for (rs_appDef two_component_state) example_component obj"
    "\<forall>obj \<in> set of_db. labelled_for (rs_appDef two_component_state) (example_component\<lparr>ac_name := ''db''\<rparr>) obj"
    unfolding comps two_components_def by (auto simp: list_all2_Cons1)
  with st' show ?thesis
    by (intro exI [of _ st'] exI [of _ of_web] exI [of _ of_db])
      (simp add: labelled_for_def, simp add: example_component_def)
qed

section \<open>The finalizer and deletion\<close>

text \<open>
  C14. A live application is worked on only under the finalizer: when the step ends without an error,
  either the object had the finalizer, or an update with it was accepted by the API.
\<close>

theorem finalizer_before_work:
  assumes "finalizer_law k" "om_deletionTimestamp (ad_meta app) = None"
    and "handleFinalizer k app w = (((del, None), app'), w')"
  shows "\<not> del \<and> (has_finalizer k app \<and> app' = app \<and> w' = w \<or>
    (\<exists>app1 w1. has_finalizer k app1 \<and> kc_update_app k app1 w1 = (Inr app', w')))"
  by (rule handleFinalizer_live [OF assms])

text \<open>The example application before its first run, and the world after two conflicts.\<close>

definition unmanaged_app :: appDef where
  "unmanaged_app = (managed_app ApplicationPhaseUnset None)
     \<lparr>ad_meta := (ad_meta (managed_app ApplicationPhaseUnset None))\<lparr>om_finalizers := []\<rparr>\<rparr>"

theorem finalizer_before_work_witness:
  "\<exists>app' w' app1 w1. handleFinalizer example_cluster unmanaged_app (example_world unmanaged_app 2 unmanaged_app)
       = (((False, None), app'), w') \<and>
     has_finalizer example_cluster app1 \<and> kc_update_app example_cluster app1 w1 = (Inr app', w')"
proof -
  let ?r = "handleFinalizer example_cluster unmanaged_app (example_world unmanaged_app 2 unmanaged_app)"
  have "fst (fst ?r) = (False, None)" by code_simp
  then obtain app' w' where r: "?r = (((False, None), app'), w')" by (metis prod.collapse)
  have live: "om_deletionTimestamp (ad_meta unmanaged_app) = None"
    and bare: "has_finalizer example_cluster unmanaged_app = False"
    by (simp_all add: unmanaged_app_def has_finalizer_def example_cluster_def bare_cluster_def)
  from finalizer_before_work [OF example_laws(1) live r]
  have "\<exists>app1 w1. has_finalizer example_cluster app1 \<and> kc_update_app example_cluster app1 w1 = (Inr app', w')"
    by (simp only: bare simp_thms)
  then obtain app1 w1 where
    "has_finalizer example_cluster app1" "kc_update_app example_cluster app1 w1 = (Inr app', w')" by (elim exE conjE)
  with r show ?thesis by - (intro exI conjI, assumption+)
qed

text \<open>
  C16. Deletion: when the step ends without an error, it has deleted the volume claims that were listed for
  the application one after the other, each answered by a success or by not found, and has touched the
  finalizer only after the last: from there either an update without the finalizer was accepted after at
  most two conflicts, or all three attempts to remove it conflicted.
\<close>

theorem deletion_cleans_up_first:
  assumes "finalizer_law k" "om_deletionTimestamp (ad_meta app) \<noteq> None" "has_finalizer k app"
    and "handleFinalizer k app w = (((del, None), app'), w')"
    and "kc_list_pvcs k (app_namespace app) (AppNameLabel, app_name app) w = (Inr pvcs, w0)"
  shows "del \<and> (\<exists>w1 i app1 w2. claims_deleted k pvcs w0 w1 \<and>
    contended (kc_update_app k) (kc_get_app k) (remove_finalizer k) i (remove_finalizer k app) w1 app1 w2 \<and>
    \<not> has_finalizer k app1 \<and>
    (i < 3 \<and> kc_update_app k app1 w2 = (Inr app', w') \<or> i = 3 \<and> app' = app1 \<and> w' = w2))"
proof -
  from handleFinalizer_deleting [OF assms(2-4)] obtain w1 r where del: "del"
    and c: "cleanup_pvcs k app w = (None, w1)"
    and l: "remove_finalizer_loop k max_attempts (remove_finalizer k app) w1 = ((r, app'), w')"
    and r: "r = Written \<or> r = Exhausted" by blast
  from c assms(5) have d: "claims_deleted k pvcs w0 w1"
    by (simp add: cleanup_pvcs_def flip: delete_pvcs_chain)
  from finalizer_removal.loop_cases [where k = k, of max_attempts "remove_finalizer k app" w1] l
  obtain i app1 w2 where
    i: "contended (kc_update_app k) (kc_get_app k) (remove_finalizer k) i (remove_finalizer k app) w1 app1 w2"
    and n: "i \<le> 3" and e: "ends_with (kc_update_app k) (kc_get_app k) (i = 3) app1 w2 ((r, app'), w')"
    by (auto simp: max_attempts_def)
  from contended_prepared [OF i] have "\<not> has_finalizer k app1" using add_finalizer_has(2) [OF assms(1)] by auto
  moreover have "i < 3 \<and> kc_update_app k app1 w2 = (Inr app', w') \<or> i = 3 \<and> app' = app1 \<and> w' = w2"
    using r n e by (auto simp: ends_with_def)
  ultimately show ?thesis using del d i by blast
qed

definition claims_cluster :: "fakeWorld cluster" where
  "claims_cluster = example_cluster
     \<lparr>kc_list_pvcs := \<lambda>ns label w. (Inr [NsName ''default'' ''data-web-0''], w)\<rparr>"

lemma claims_laws: "finalizer_law claims_cluster"
  using example_laws(1) by (simp add: claims_cluster_def finalizer_law_def)

lemma deleted_app_simps:
  "om_deletionTimestamp (ad_meta deleted_app) \<noteq> None" "has_finalizer claims_cluster deleted_app"
  by (simp_all add: deleted_app_def managed_app_def has_finalizer_def claims_cluster_def example_cluster_def
      bare_cluster_def)

theorem deletion_cleans_up_first_witness:
  "\<exists>app' w' w1 i app1 w2. handleFinalizer claims_cluster deleted_app (example_world deleted_app 1 deleted_app)
       = (((True, None), app'), w') \<and>
     claims_deleted claims_cluster [NsName ''default'' ''data-web-0''] (example_world deleted_app 1 deleted_app) w1 \<and>
     contended (kc_update_app claims_cluster) (kc_get_app claims_cluster) (remove_finalizer claims_cluster) i
       (remove_finalizer claims_cluster deleted_app) w1 app1 w2 \<and> \<not> has_finalizer claims_cluster app1"
proof -
  let ?w = "example_world deleted_app 1 deleted_app"
  let ?r = "handleFinalizer claims_cluster deleted_app ?w"
  have "fst (fst ?r) = (True, None)" by code_simp
  then obtain app' w' where r: "?r = (((True, None), app'), w')" by (metis prod.collapse)
  have "kc_list_pvcs claims_cluster (app_namespace deleted_app) (AppNameLabel, app_name deleted_app) ?w =
      (Inr [NsName ''default'' ''data-web-0''], ?w)" by (simp add: claims_cluster_def)
  from deletion_cleans_up_first [OF claims_laws deleted_app_simps r this] r show ?thesis by blast
qed

text \<open>
  C17. Three conflicts while the finalizer is removed are reported as success: the step says that the
  object is deleted, with no error, so the run asks for no other, and the application that the API stores
  keeps the finalizer it had, as long as no other client takes it off (finalizer_stays). Three conflicts
  while it is added are an error.
\<close>

theorem lost_finalizer_removal:
  assumes "om_deletionTimestamp (ad_meta app) \<noteq> None" "has_finalizer k app"
    and "cleanup_pvcs k app w = (None, w1)"
    and "contended (kc_update_app k) (kc_get_app k) (remove_finalizer k) 3 (remove_finalizer k app) w1 app' w'"
    and "finalizer_stays k stored" "has_finalizer k (stored w)"
  shows "handleFinalizer k app w = (((True, None), app'), w') \<and>
    run_initialised k reg (fresh_state app) w = Inr (((no_requeue, None), (fresh_state app)\<lparr>rs_appDef := app'\<rparr>), w') \<and>
    has_finalizer k (stored w')"
proof -
  have "remove_finalizer_loop k (3 + 0) (remove_finalizer k app) w1 = ((Exhausted, app'), w')"
    using finalizer_removal.loop_contended [OF assms(4), of 0] by simp
  with assms(1-3) have h: "handleFinalizer k app w = (((True, None), app'), w')"
    by (auto simp: handleFinalizer_def max_attempts_def)
  from contended_finalizer_stays [OF assms(4,5) cleanup_finalizer_stays [OF assms(5,6,3)]] h show ?thesis
    by (simp add: run_initialised_def fresh_state_def)
qed

text \<open>A cluster on which every update conflicts with a writer that leaves the finalizer.\<close>

definition contested_cluster :: "fakeWorld cluster" where
  "contested_cluster = claims_cluster\<lparr>kc_update_app := \<lambda>app w. (Inl conflict_error, w)\<rparr>"

lemma contested_simps [simp]:
  "kc_update_app contested_cluster app w = (Inl conflict_error, w)"
  "kc_get_app contested_cluster key w = (Inr (fw_app w), w)"
  "kc_list_pvcs contested_cluster ns label w = (Inr [NsName ''default'' ''data-web-0''], w)"
  "kc_delete_pvc contested_cluster pvc w = (None, w)"
  "has_finalizer contested_cluster deleted_app"
  by (simp_all add: contested_cluster_def claims_cluster_def example_cluster_def bare_cluster_def
      deleted_app_def managed_app_def has_finalizer_def)

lemma contested_removal:
  "fw_app w = deleted_app \<Longrightarrow>
    contended (kc_update_app contested_cluster) (kc_get_app contested_cluster) (remove_finalizer contested_cluster) n
      (remove_finalizer contested_cluster deleted_app) w (remove_finalizer contested_cluster deleted_app) w"
  by (induction n) (auto intro: contended.intros contested_simps)

theorem lost_finalizer_removal_witness:
  "\<exists>app'. run_initialised contested_cluster example_registry (fresh_state deleted_app) (quiet_world deleted_app) =
     Inr (((no_requeue, None), (fresh_state deleted_app)\<lparr>rs_appDef := app'\<rparr>), quiet_world deleted_app) \<and>
     has_finalizer contested_cluster (fw_app (quiet_world deleted_app))"
proof -
  let ?w = "quiet_world deleted_app"
  have w: "fw_app ?w = deleted_app" by (simp add: quiet_world_def example_world_def)
  have "cleanup_pvcs contested_cluster deleted_app ?w = (None, ?w)" by (simp add: cleanup_pvcs_def)
  moreover have "finalizer_stays contested_cluster fw_app" by (simp add: finalizer_stays_def)
  moreover have "has_finalizer contested_cluster (fw_app ?w)" by (simp add: w)
  ultimately show ?thesis
    using lost_finalizer_removal [OF deleted_app_simps(1) contested_simps(5) _ contested_removal [OF w]] by blast
qed

section \<open>Panics, idle runs and the status\<close>

text \<open>
  C19. A run on a live application that carries the finalizer does not panic, whatever the API answers:
  every component of the specification has its status entry when it is processed.
\<close>

theorem managed_runs_do_not_panic:
  assumes "om_deletionTimestamp (ad_meta app) = None" "has_finalizer k app"
  shows "\<exists>r. run_fetched k reg app w = Inr r"
proof -
  obtain e m where i: "initializeComponentStatuses (as_components (ad_spec app)) [] = (e, m)" by fastforce
  let ?st = "(fresh_state app)\<lparr>rs_componentStatuses := m\<rparr>"
  have app: "rs_appDef ?st = app" "rs_componentStatuses ?st = m" by (simp_all add: fresh_state_def)
  have names: "ac_name ` set (as_components (ad_spec (rs_appDef ?st))) \<subseteq> fst ` set (rs_componentStatuses ?st)"
    if "e = None"
    unfolding app using initializeComponentStatuses_ok [OF i [unfolded that]] by simp
  have held: "handleFinalizer k (rs_appDef ?st) w = (((False, None), app), w)"
    unfolding app by (rule handleFinalizer_present [OF assms])
  have "run_initialised k reg ?st w \<noteq> Inl msg" if "e = None" for msg
    by (rule run_initialised_no_panic [OF names [OF that] held]) (simp add: app)
  then have "e = None \<Longrightarrow> \<exists>r. run_initialised k reg ?st w = Inr r" by (metis sum.exhaust)
  moreover have "rs_componentStatuses (fresh_state app) = []" by (simp add: fresh_state_def)
  ultimately show ?thesis using i by (cases e) (simp_all add: run_fetched_def Let_def, metis surj_pair)
qed

theorem managed_runs_do_not_panic_witness:
  "\<exists>r. run_fetched example_cluster example_registry (managed_app ApplicationPhaseUnset None) example_rest = Inr r"
  by (rule managed_runs_do_not_panic) simp_all






text \<open>
  C21. An application that is running, observed and whose change is done costs one read: the run makes
  no other call, changes nothing and asks for no other run.
\<close>

theorem stable_run_is_idle:
  assumes "kc_get_app k (NsName ns n) w = (Inr app, w1)" "stable_and_running app"
    and "om_deletionTimestamp (ad_meta app) = None" "has_finalizer k app"
    and "as_components (ad_spec app) \<noteq> []" "[] \<notin> set (map ac_name (as_components (ad_spec app)))"
    and "distinct (map ac_name (as_components (ad_spec app)))"
  shows "\<exists>st. Reconcile k reg ns (NsName ns n) w = Inr (((no_requeue, None), Some st), w1) \<and>
    rs_appDef st = app \<and> rs_events st = []"
proof -
  obtain m where i: "initializeComponentStatuses (as_components (ad_spec app)) [] = (None, m)"
    using initializeComponentStatuses_error_iff [of "as_components (ad_spec app)" "[]"] assms(6,7)
    by (metis list.set_map prod.collapse)
  define st where "st = (fresh_state app)\<lparr>rs_componentStatuses := m\<rparr>"
  have st: "rs_appDef st = app" "st\<lparr>rs_appDef := app\<rparr> = st" "rs_events st = []"
    by (simp_all add: st_def fresh_state_def)
  have running: "app_phase app = ApplicationPhaseRunning" using assms(2) by (simp add: stable_and_running_def)
  have "setInitialPhase k st w1 = (((False, None), st), w1)"
    using running st(1) by (simp add: setInitialPhase_def)
  then have "run_initialised k reg st w1 = Inr (((no_requeue, None), st), w1)"
    using running assms(2) st(1) handleFinalizer_present [OF assms(3,4), of w1]
    by (simp add: run_initialised_def st(2))
  moreover have "rs_componentStatuses (fresh_state app) = []" by (simp add: fresh_state_def)
  ultimately have "run_fetched k reg app w1 = Inr (((no_requeue, None), st), w1)"
    using i assms(5) by (simp add: run_fetched_def Let_def st_def)
  with assms(1) st show ?thesis by (simp add: Reconcile_def)
qed

definition stable_app :: appDef where
  "stable_app = (managed_app ApplicationPhaseRunning None)
     \<lparr>ad_meta := (ad_meta (managed_app ApplicationPhaseRunning None))
        \<lparr>om_annotations := [AnnotationChangeID \<mapsto> ''c1'']\<rparr>,
      ad_status := empty_status\<lparr>st_phase := ApplicationPhaseRunning, st_observedGeneration := 1,
        st_lastChangeID := ''c1''\<rparr>\<rparr>"

theorem stable_run_is_idle_witness:
  "\<exists>st. Reconcile example_cluster example_registry ''default'' (NsName ''default'' ''shop'')
     (quiet_world stable_app) = Inr (((no_requeue, None), Some st), quiet_world stable_app) \<and>
     rs_appDef st = stable_app \<and> rs_events st = []"
  by (rule stable_run_is_idle)
    (simp_all add: example_cluster_def quiet_world_def example_world_def stable_app_def managed_app_def
      stable_and_running_def app_phase_def annotation_def example_app_def empty_meta_def has_finalizer_def
      bare_cluster_def example_component_def)



text \<open>
  C23. A suspension is final as soon as the components are built: the run ends in phase Suspended even
  when an object could not be applied, and from then on every run returns at once, so that a workload
  that was not scaled down stays up.
\<close>

theorem failed_suspension_sticks:
  assumes "status_echo k" "is_suspended (rs_appDef st)"
    and "processComponentsAndBuildObjects k reg st = (Processed, st1)"
    and "run_components k reg st w = Inr ((res, st'), w')"
  shows "app_phase (rs_appDef st') = ApplicationPhaseSuspended"
proof -
  obtain ready q st2 w2 where j: "apply_and_judge k st1 w = (((ready, q), st2), w2)" by (metis surj_pair)
  with assms(3,4) have f: "finish_run k ready q st2 w2 = ((res, st'), w')" by (simp add: run_components_def)
  from finish_run_phase [OF assms(1) f] apply_and_judge_app [OF j] processComponents_phase [OF assms(3)] assms(2)
  show ?thesis by simp
qed

text \<open>A cluster that refuses every object.\<close>

definition refusing_cluster :: "fakeWorld cluster" where
  "refusing_cluster = example_cluster
     \<lparr>kc_create_if_not_exist := \<lambda>obj w. (Inl (errorf ''exceeded quota''), w)\<rparr>"

lemma refusing_echo: "status_echo refusing_cluster"
  using example_laws(2) by (simp add: refusing_cluster_def status_echo_def)

lemma refused_object:
  assumes "apply_object refusing_cluster obj fe st w = (((stop, e), obj', st'), w')"
  shows "e \<noteq> None"
proof
  assume "e = None"
  with assms obtain r w1 w2 where "ApplyObjectV2 refusing_cluster obj' OperatorName w1 = (r, w2)" "ar_error r = None"
    by (auto simp: apply_object_def settle_result_def Let_def split: sum.splits prod.splits option.splits if_splits)
  then show False
    by (auto simp: ApplyObjectV2_def refusing_cluster_def apply_failed_def split: if_splits)
qed

lemma refused_objects:
  assumes "rs_desiredObjects st \<noteq> []"
  shows "fst (fst (applyResources refusing_cluster st w)) \<noteq> None"
proof -
  obtain obj objs where objs: "rs_desiredObjects st = obj # objs" using assms by (meson neq_Nil_conv)
  obtain stop e obj' st1 w1 where one: "apply_object refusing_cluster obj None st w = (((stop, e), obj', st1), w1)"
    by (metis surj_pair)
  note e = refused_object [OF one]
  obtain stop2 e2 st2 w2 where rest: "apply_objects refusing_cluster [obj'] objs e st1 w1 = (((stop2, e2), st2), w2)"
    by (metis surj_pair)
  have "e2 \<noteq> None" using apply_objects_ok [of refusing_cluster "[obj']" objs e st1 w1 stop2 st2 w2] rest e by auto
  with objs one rest e show ?thesis by (simp add: applyResources_def split: bool.split)
qed

theorem failed_suspension_sticks_witness:
  "\<exists>res st' w' e. run_components refusing_cluster example_registry
       (example_state (managed_app ApplicationPhaseRunning (Some True)))
       (quiet_world (managed_app ApplicationPhaseRunning (Some True))) = Inr ((res, st'), w') \<and>
     snd res = Some e \<and> app_phase (rs_appDef st') = ApplicationPhaseSuspended"
proof -
  let ?st = "example_state (managed_app ApplicationPhaseRunning (Some True))"
    and ?w = "quiet_world (managed_app ApplicationPhaseRunning (Some True))"
  let ?p = "processComponentsAndBuildObjects refusing_cluster example_registry ?st"
  have "fst ?p = Processed" by code_simp
  then obtain st1 where p: "?p = (Processed, st1)" by (metis prod.collapse)
  have "length (rs_desiredObjects (snd ?p)) = 3" by code_simp
  with p have objs: "rs_desiredObjects st1 \<noteq> []" by force
  obtain ready q st2 w2 where j: "apply_and_judge refusing_cluster st1 ?w = (((ready, q), st2), w2)"
    by (metis surj_pair)
  obtain res st' w' where f: "finish_run refusing_cluster ready q st2 w2 = ((res, st'), w')" by (metis surj_pair)
  have run: "run_components refusing_cluster example_registry ?st ?w = Inr ((res, st'), w')"
    using p j f by (simp add: run_components_def)
  have "rs_firstError st2 \<noteq> None"
    using refused_objects [OF objs, of ?w] apply_and_judge_ok [OF j] by (metis fst_conv)
  with f finish_run_result(1) [of refusing_cluster ready q st2 w2 "fst res" "snd res" st' w']
  obtain e where e: "snd res = Some e" by (metis not_None_eq prod.collapse)
  have "app_phase (rs_appDef st') = ApplicationPhaseSuspended"
    by (rule failed_suspension_sticks [OF refusing_echo _ p run]) simp
  with run e show ?thesis by - (intro exI conjI, assumption+)
qed

section \<open>Further facts on the behaviour\<close>

text \<open>
  The shorter requeue after a status conflict is never taken: the update ends with a conflict error
  only if reading the application conflicts.
\<close>

lemma conflict_requeue_unreachable:
  assumes "get_never_conflicts k" "finish_run k ready q st w = (((res, err), st'), w')"
  shows "cr_requeueAfter res \<noteq> 5"
proof -
  let ?c = "conclude k ready st"
  obtain b e app' w2 where u: "updateStatusIfNeeded k (rs_appDef ?c) (rs_originalStatus ?c) w = (((b, e), app'), w2)"
    by (metis surj_pair)
  then have "\<not> is_conflict x" if "e = Some x" for x
    using updateStatusIfNeeded_no_conflict [OF assms(1)] that by blast
  with assms(2) u show ?thesis
    by (auto simp: finish_run_def Let_def requeue_in_def no_requeue_def split: option.splits if_splits)
qed

text \<open>
  A deleted application that has no components keeps its finalizer: the run for an empty application
  comes before the finalizer is looked at, and ends with no error and no requeue.
\<close>

definition deleted_empty_app :: appDef where
  "deleted_empty_app = deleted_app\<lparr>ad_spec := (ad_spec deleted_app)\<lparr>as_components := []\<rparr>\<rparr>"

lemma empty_application_is_never_deleted:
  "case Reconcile example_cluster example_registry ''default'' (NsName ''default'' ''shop'')
     (quiet_world deleted_empty_app) of
     Inl _ \<Rightarrow> False
   | Inr (((res, err), st), w) \<Rightarrow>
       res = no_requeue \<and> err = None \<and> has_finalizer example_cluster (fw_app w)"
  by code_simp

text \<open>The tag \<open>latest\<close> gets the pull policy of a fixed version: the suffix tested has a colon.\<close>

lemma latest_tag_is_not_pulled: "GetImagePullPolicy [] ''latest'' = ''IfNotPresent''"
  by code_simp

text \<open>A service account section without \<open>create\<close> makes the builder return an object without a name.\<close>

lemma unnamed_service_account:
  "DeriveServiceAccountName i (Some \<lparr>sa_create = None, sa_name = ''app'', sa_annotations = Map.empty\<rparr>) = [] \<and>
   length (build_service_account (example_config\<lparr>rc_serviceAccount :=
     Some \<lparr>sa_create = None, sa_name = ''app'', sa_annotations = Map.empty\<rparr>\<rparr>) [] ns Map.empty) = 1"
  by (simp add: DeriveServiceAccountName_def build_service_account_def)

text \<open>Two different components can get the same resource names.\<close>

lemma resource_names_collide: "DeriveResourceName ''a_b'' = DeriveResourceName ''a-b''"
  by code_simp

text \<open>
  The names of the objects come from the component alone: two applications of a namespace with a component
  of the same name build objects of the same types and names, and each run hands them over with the labels
  and the owner of its own application.
\<close>

lemma applications_share_object_names:
  assumes "BuildObjects hash now a c cfg = (Inr objs, a')" "BuildObjects hash now b c cfg = (Inr objs', b')"
    and "app_namespace a = app_namespace b"
  shows "map (\<lambda>obj. (object_type obj, object_key obj)) objs' = map (\<lambda>obj. (object_type obj, object_key obj)) objs"
proof -
  from assms(1) obtain rc where rc: "cfg = Some rc" "verifyParameters (Some rc) c = None"
    by (auto simp: BuildObjects_def split: option.splits)
  obtain ct vct where a: "objs = component_objects hash now a c rc ct vct"
    by (rule BuildObjects_valid [OF rc(2), of a hash now]) (use assms(1) rc(1) in auto)
  obtain ct' vct' where b: "objs' = component_objects hash now b c rc ct' vct'"
    by (rule BuildObjects_valid [OF rc(2), of b hash now]) (use assms(2) rc(1) in auto)
  show ?thesis
    unfolding a b component_objects_def Let_def assms(3)
    by (simp add: object_type_def object_key_def get_name_def get_namespace_def config_map_object_def
        build_workload_def build_headless_def build_client_service_def build_service_account_def BuildConfigMap_def
        BuildStatefulSet_def BuildHeadlessService_def BuildService_def BuildServiceAccount_def BuildObjectMeta_def
        split: option.split)
qed

end
